theory Spec2Isabelle
  imports Main "HOL-Library.Word" "HOL-Library.Char_ord" "HOL-Library.List_Lexorder"
begin

section \<open>Errors\<close>

text \<open>
  Go errors as values. \<open>ErrNotFound\<close> is the API server's distinguishable "not found"
  (\<open>apierrors.IsNotFound\<close>); \<open>ErrOther\<close> is any other error, with its message;
  the two \<open>Invalid...Pattern\<close> constructors are the wrapped errors that
  \<open>ResourceFilter.Compile\<close> builds with \<open>fmt.Errorf\<close>.
\<close>

datatype error =
    ErrNotFound
  | ErrOther string
  | InvalidNamespacePattern string error
  | InvalidNamePattern string error

section \<open>Resource filter (third part of bundle\_query.go)\<close>

text \<open>
  A compiled \<open>*regexp.Regexp\<close> is represented by its \<open>MatchString\<close> predicate; a nil
  pointer is \<open>None\<close>. \<open>regexp.Compile\<close> belongs to the Go standard library and is a
  parameter of \<open>Compile\<close>.
\<close>

type_synonym Regexp = "string \<Rightarrow> bool"

record ResourceFilter =
  NamespacePattern :: string
  NamePattern :: string
  namespaceRegex :: "Regexp option"
  nameRegex :: "Regexp option"

text \<open>The receiver is a pointer: \<open>None\<close> is the nil filter.\<close>

definition Matches :: "ResourceFilter option \<Rightarrow> string \<Rightarrow> string \<Rightarrow> bool" where
  "Matches fo namespace name =
     (case fo of
        None \<Rightarrow> True
      | Some f \<Rightarrow>
          if NamespacePattern f = [] \<and> NamePattern f = [] then True
          else
            let namespaceMatch =
                  (NamespacePattern f = [] \<or>
                   (case namespaceRegex f of None \<Rightarrow> False | Some re \<Rightarrow> re namespace));
                nameMatch =
                  (NamePattern f = [] \<or>
                   (case nameRegex f of None \<Rightarrow> False | Some re \<Rightarrow> re name))
            in namespaceMatch \<and> nameMatch)"

text \<open>
  \<open>Compile\<close> mutates the filter in place; the model returns the error (if any) together
  with the filter as it is left. A failed \<open>regexp.Compile\<close> returns a nil regexp, which
  the assignment stores before the error is returned.
\<close>

definition Compile ::
  "(string \<Rightarrow> error + Regexp) \<Rightarrow> ResourceFilter option \<Rightarrow> error option \<times> ResourceFilter option" where
  "Compile regexp_Compile fo =
     (case fo of
        None \<Rightarrow> (None, None)
      | Some f \<Rightarrow>
          (case (if NamespacePattern f \<noteq> []
                 then (case regexp_Compile (NamespacePattern f) of
                         Inl e \<Rightarrow> Inl (InvalidNamespacePattern (NamespacePattern f) e,
                                       f\<lparr>namespaceRegex := None\<rparr>)
                       | Inr re \<Rightarrow> Inr (f\<lparr>namespaceRegex := Some re\<rparr>))
                 else Inr f) of
             Inl (e, f1) \<Rightarrow> (Some e, Some f1)
           | Inr f1 \<Rightarrow>
               if NamePattern f1 \<noteq> []
               then (case regexp_Compile (NamePattern f1) of
                       Inl e \<Rightarrow> (Some (InvalidNamePattern (NamePattern f1) e),
                                  Some (f1\<lparr>nameRegex := None\<rparr>))
                     | Inr re \<Rightarrow> (None, Some (f1\<lparr>nameRegex := Some re\<rparr>)))
               else (None, Some f1)))"

section \<open>Statistics aggregator (stats.go)\<close>

text \<open>\<open>EventType\<close> is a Go string type with eight named constants.\<close>

type_synonym EventType = string

definition EventTypeGenerationChange :: EventType where
  "EventTypeGenerationChange = ''generation-change''"

definition EventTypeStatusChange :: EventType where
  "EventTypeStatusChange = ''status-change''"

definition EventTypeAnnotationChange :: EventType where
  "EventTypeAnnotationChange = ''annotation-change''"

definition EventTypeLabelChange :: EventType where
  "EventTypeLabelChange = ''label-change''"

definition EventTypeResourceVersionChange :: EventType where
  "EventTypeResourceVersionChange = ''resourceversion-change''"

definition EventTypeDeletion :: EventType where
  "EventTypeDeletion = ''deletion''"

definition EventTypeNotFound :: EventType where
  "EventTypeNotFound = ''not-found''"

definition EventTypeCreate :: EventType where
  "EventTypeCreate = ''create''"

lemmas EventType_defs =
  EventTypeGenerationChange_def EventTypeStatusChange_def EventTypeAnnotationChange_def
  EventTypeLabelChange_def EventTypeResourceVersionChange_def EventTypeDeletion_def
  EventTypeNotFound_def EventTypeCreate_def

record ResourceKey =
  ResourceType :: string
  Namespace :: string
  Name :: string

definition ResourceKey_String :: "ResourceKey \<Rightarrow> string" where
  "ResourceKey_String r =
     (if Namespace r = [] then Name r else Namespace r @ ''/'' @ Name r)"

text \<open>
  The counters are Go \<open>int64\<close>: 64-bit words, \<open>+\<close> wraps, \<open>sint\<close> reads the signed
  value. Wall-clock instants (\<open>time.Time\<close>) are integers (nanoseconds).
\<close>

type_synonym int64 = "64 word"
type_synonym time = int

record ResourceStats =
  Counts :: "EventType \<rightharpoonup> int64"
  TriggeredBy :: "string \<rightharpoonup> int64"
  Total :: int64

record StatsTracker =
  stats :: "ResourceKey \<rightharpoonup> ResourceStats"
  startTime :: time
  lastSummaryTime :: time

text \<open>\<open>time.Now()\<close> is the parameter \<open>now\<close> of every operation that reads the clock.\<close>

definition NewStatsTracker :: "time \<Rightarrow> StatsTracker" where
  "NewStatsTracker now = \<lparr>stats = Map.empty, startTime = now, lastSummaryTime = now\<rparr>"

text \<open>\<open>m[k]++\<close> on a Go map: a missing key reads as zero.\<close>

definition incr :: "('k \<rightharpoonup> int64) \<Rightarrow> 'k \<Rightarrow> ('k \<rightharpoonup> int64)" where
  "incr m k = m(k \<mapsto> (case m k of None \<Rightarrow> 0 | Some c \<Rightarrow> c) + 1)"

definition newResourceStats :: ResourceStats where
  "newResourceStats = \<lparr>Counts = Map.empty, TriggeredBy = Map.empty, Total = 0\<rparr>"

definition RecordEvent ::
  "string \<Rightarrow> string \<Rightarrow> string \<Rightarrow> EventType \<Rightarrow> StatsTracker \<Rightarrow> StatsTracker" where
  "RecordEvent resourceType namespace name eventType s =
     (let key = \<lparr>ResourceType = resourceType, Namespace = namespace, Name = name\<rparr>;
          st0 = (case stats s key of None \<Rightarrow> newResourceStats | Some st \<Rightarrow> st);
          st1 = st0\<lparr>Counts := incr (Counts st0) eventType\<rparr>;
          st2 = st1\<lparr>Total := Total st1 + 1\<rparr>
      in s\<lparr>stats := (stats s)(key \<mapsto> st2)\<rparr>)"

definition RecordTrigger ::
  "string \<Rightarrow> string \<Rightarrow> string \<Rightarrow> string \<Rightarrow> StatsTracker \<Rightarrow> StatsTracker" where
  "RecordTrigger resourceType namespace name triggerResourceType s =
     (let key = \<lparr>ResourceType = resourceType, Namespace = namespace, Name = name\<rparr>;
          st0 = (case stats s key of None \<Rightarrow> newResourceStats | Some st \<Rightarrow> st);
          st1 = st0\<lparr>TriggeredBy := incr (TriggeredBy st0) triggerResourceType\<rparr>;
          st2 = st1\<lparr>Total := Total st1 + 1\<rparr>
      in s\<lparr>stats := (stats s)(key \<mapsto> st2)\<rparr>)"

record Totals =
  TotalResourcesMonitored :: nat
  TotalEvents :: int64

text \<open>
  \<open>IntervalSeconds\<close> is kept as the duration \<open>now - lastSummaryTime\<close> in nanoseconds;
  the conversion to floating-point seconds is not modelled.
\<close>

record Summary =
  Timestamp :: time
  IntervalSeconds :: int
  SummaryMap :: "string \<rightharpoonup> (string \<rightharpoonup> ResourceStats)"
  SummaryTotals :: Totals

text \<open>
  The body of the \<open>for key, stats := range s.stats\<close> loop of \<open>GetSummary\<close>. Go leaves
  the iteration order of a map unspecified, so the order is the list the loop is run on.
  The copy loops over \<open>Counts\<close> and \<open>TriggeredBy\<close> produce maps with the same entries.
\<close>

fun GetSummary_loop ::
  "ResourceKey list \<Rightarrow> (ResourceKey \<rightharpoonup> ResourceStats) \<Rightarrow>
   (string \<rightharpoonup> (string \<rightharpoonup> ResourceStats)) \<times> int64 \<Rightarrow>
   (string \<rightharpoonup> (string \<rightharpoonup> ResourceStats)) \<times> int64" where
  "GetSummary_loop [] m acc = acc"
| "GetSummary_loop (key # keys) m (grouped, totalEvents) =
     (case m key of
        None \<Rightarrow> GetSummary_loop keys m (grouped, totalEvents)
      | Some st \<Rightarrow>
          let inner = (case grouped (ResourceType key) of None \<Rightarrow> Map.empty | Some i \<Rightarrow> i);
              statsCopy = \<lparr>Counts = Counts st, TriggeredBy = TriggeredBy st, Total = Total st\<rparr>
          in GetSummary_loop keys m
               (grouped(ResourceType key \<mapsto> inner(ResourceKey_String key \<mapsto> statsCopy)),
                totalEvents + Total st))"

text \<open>
  \<open>order\<close> is the order in which the Go runtime enumerates the keys of \<open>s.stats\<close>: a
  duplicate-free list of exactly the keys of the map. Its length is \<open>len(s.stats)\<close>.
\<close>

definition iteration_order :: "ResourceKey list \<Rightarrow> StatsTracker \<Rightarrow> bool" where
  "iteration_order order s \<longleftrightarrow> distinct order \<and> set order = dom (stats s)"

definition GetSummary :: "ResourceKey list \<Rightarrow> time \<Rightarrow> StatsTracker \<Rightarrow> Summary" where
  "GetSummary order now s =
     (let intervalSeconds = now - lastSummaryTime s;
          (grouped, totalEvents) = GetSummary_loop order (stats s) (Map.empty, 0)
      in \<lparr>Timestamp = now, IntervalSeconds = intervalSeconds, SummaryMap = grouped,
          SummaryTotals = \<lparr>TotalResourcesMonitored = length order,
                            TotalEvents = totalEvents\<rparr>\<rparr>)"

definition Reset :: "time \<Rightarrow> StatsTracker \<Rightarrow> StatsTracker" where
  "Reset now s = s\<lparr>stats := Map.empty, lastSummaryTime := now\<rparr>"

definition UpdateLastSummaryTime :: "time \<Rightarrow> StatsTracker \<Rightarrow> StatsTracker" where
  "UpdateLastSummaryTime now s = s\<lparr>lastSummaryTime := now\<rparr>"

text \<open>
  The entry that a summary shows for a resource: \<open>summary.Summary[type][key.String()]\<close>.
\<close>

definition Summary_entry :: "Summary \<Rightarrow> ResourceKey \<Rightarrow> ResourceStats option" where
  "Summary_entry sm key =
     (case SummaryMap sm (ResourceType key) of
        None \<Rightarrow> None
      | Some inner \<Rightarrow> inner (ResourceKey_String key))"

text \<open>
  Histories of calls on the tracker by the reconcilers and the summary printer; \<open>run\<close>
  applies a history from left to right.
\<close>

datatype tracker_call =
    CallRecordEvent string string string EventType
  | CallRecordTrigger string string string string
  | CallUpdateLastSummaryTime time

fun apply_call :: "StatsTracker \<Rightarrow> tracker_call \<Rightarrow> StatsTracker" where
  "apply_call s (CallRecordEvent rt ns n ev) = RecordEvent rt ns n ev s"
| "apply_call s (CallRecordTrigger rt ns n tr) = RecordTrigger rt ns n tr s"
| "apply_call s (CallUpdateLastSummaryTime now) = UpdateLastSummaryTime now s"

definition run :: "tracker_call list \<Rightarrow> StatsTracker \<Rightarrow> StatsTracker" where
  "run calls s = foldl apply_call s calls"

fun is_event_for :: "ResourceKey \<Rightarrow> tracker_call \<Rightarrow> bool" where
  "is_event_for key (CallRecordEvent rt ns n ev) =
     (key = \<lparr>ResourceType = rt, Namespace = ns, Name = n\<rparr>)"
| "is_event_for key _ = False"

fun is_trigger_for :: "ResourceKey \<Rightarrow> tracker_call \<Rightarrow> bool" where
  "is_trigger_for key (CallRecordTrigger rt ns n tr) =
     (key = \<lparr>ResourceType = rt, Namespace = ns, Name = n\<rparr>)"
| "is_trigger_for key _ = False"

definition events_for :: "ResourceKey \<Rightarrow> tracker_call list \<Rightarrow> nat" where
  "events_for key calls = length (filter (is_event_for key) calls)"

definition triggers_for :: "ResourceKey \<Rightarrow> tracker_call list \<Rightarrow> nat" where
  "triggers_for key calls = length (filter (is_trigger_for key) calls)"

text \<open>
  Two keys collide when a summary shows them under the same resource type and the same
  \<open>namespace/name\<close> string.
\<close>

definition same_entry :: "ResourceKey \<Rightarrow> ResourceKey \<Rightarrow> bool" where
  "same_entry k k' \<longleftrightarrow>
     ResourceType k = ResourceType k' \<and> ResourceKey_String k = ResourceKey_String k'"

text \<open>Auxiliary notions for the statements about the tracker.\<close>

definition total_of :: "StatsTracker \<Rightarrow> ResourceKey \<Rightarrow> int64" where
  "total_of s key = (case stats s key of None \<Rightarrow> 0 | Some st \<Rightarrow> Total st)"

definition grouped_entry ::
  "(string \<rightharpoonup> (string \<rightharpoonup> ResourceStats)) \<Rightarrow> ResourceKey \<Rightarrow> ResourceStats option" where
  "grouped_entry grouped key =
     (case grouped (ResourceType key) of
        None \<Rightarrow> None
      | Some inner \<Rightarrow> inner (ResourceKey_String key))"

fun call_key :: "tracker_call \<Rightarrow> ResourceKey option" where
  "call_key (CallRecordEvent rt ns n ev) = Some \<lparr>ResourceType = rt, Namespace = ns, Name = n\<rparr>"
| "call_key (CallRecordTrigger rt ns n tr) = Some \<lparr>ResourceType = rt, Namespace = ns, Name = n\<rparr>"
| "call_key (CallUpdateLastSummaryTime now) = None"

text \<open>
  No call of the history is for another resource that a summary shows in the entry of
  \<open>key\<close>. This is so when all the calls are for \<open>key\<close> itself, and always for the names
  of Kubernetes objects, which never contain \<open>/\<close>.
\<close>

definition no_collision :: "ResourceKey \<Rightarrow> tracker_call list \<Rightarrow> bool" where
  "no_collision key calls \<longleftrightarrow>
     (\<forall>c \<in> set calls. \<forall>k'. call_key c = Some k' \<longrightarrow> same_entry key k' \<longrightarrow> k' = key)"

definition kubernetes_name :: "string \<Rightarrow> bool" where
  "kubernetes_name n \<longleftrightarrow> CHR ''/'' \<notin> set n"

definition kubernetes_names :: "tracker_call list \<Rightarrow> bool" where
  "kubernetes_names calls \<longleftrightarrow>
     (\<forall>c \<in> set calls. \<forall>k. call_key c = Some k \<longrightarrow> kubernetes_name (Name k))"

section \<open>Event-type filter (second part of bundle\_query.go)\<close>

text \<open>
  The field \<open>TriggeredBy\<close> of the Go struct is \<open>TriggeredByEvents\<close> here, since
  \<open>ResourceStats\<close> has a field of the same name.
\<close>

record EventTypeFilters =
  GenerationChange :: bool
  StatusChange :: bool
  AnnotationChange :: bool
  LabelChange :: bool
  ResourceVersionChange :: bool
  Deletion :: bool
  NotFound :: bool
  Create :: bool
  TriggeredByEvents :: bool

definition IsEmpty :: "EventTypeFilters \<Rightarrow> bool" where
  "IsEmpty f \<longleftrightarrow>
     \<not> GenerationChange f \<and> \<not> StatusChange f \<and> \<not> AnnotationChange f \<and>
     \<not> LabelChange f \<and> \<not> ResourceVersionChange f \<and> \<not> Deletion f \<and>
     \<not> NotFound f \<and> \<not> Create f \<and> \<not> TriggeredByEvents f"

definition ShouldLog :: "EventTypeFilters \<Rightarrow> EventType \<Rightarrow> bool" where
  "ShouldLog f eventType =
     (if IsEmpty f then True
      else if eventType = EventTypeGenerationChange then GenerationChange f
      else if eventType = EventTypeStatusChange then StatusChange f
      else if eventType = EventTypeAnnotationChange then AnnotationChange f
      else if eventType = EventTypeLabelChange then LabelChange f
      else if eventType = EventTypeResourceVersionChange then ResourceVersionChange f
      else if eventType = EventTypeDeletion then Deletion f
      else if eventType = EventTypeNotFound then NotFound f
      else if eventType = EventTypeCreate then Create f
      else True)"

definition ShouldLogTrigger :: "EventTypeFilters \<Rightarrow> bool" where
  "ShouldLogTrigger f = (if IsEmpty f then True else TriggeredByEvents f)"

section \<open>Change detection (monitor.go)\<close>

subsection \<open>Sinks: the global tracker and the log\<close>

text \<open>
  The functions of \<open>monitor.go\<close> write to two sinks: the process-wide
  \<open>globalStatsTracker\<close> and the logger's output. A logger carries its name and the
  key/value context added with \<open>WithValues\<close>; an entry keeps the logger it was written
  through, the message and the fields of the call.
\<close>

datatype fval = StrV string | IntV int | StrsV "string list" | TimeV time

type_synonym fields = "(string \<times> fval) list"

record Logger =
  loggerName :: "string list"
  loggerValues :: fields

datatype LogEntry =
    LogInfo Logger string fields
  | LogError Logger error string fields

record Sinks =
  tracker :: StatsTracker
  logs :: "LogEntry list"

definition WithName :: "Logger \<Rightarrow> string \<Rightarrow> Logger" where
  "WithName logger n = logger\<lparr>loggerName := loggerName logger @ [n]\<rparr>"

definition WithValues :: "Logger \<Rightarrow> fields \<Rightarrow> Logger" where
  "WithValues logger kvs = logger\<lparr>loggerValues := loggerValues logger @ kvs\<rparr>"

definition Info :: "Logger \<Rightarrow> string \<Rightarrow> fields \<Rightarrow> 'w Sinks_scheme \<Rightarrow> 'w Sinks_scheme" where
  "Info logger msg kvs w = w\<lparr>logs := logs w @ [LogInfo logger msg kvs]\<rparr>"

definition Error ::
  "Logger \<Rightarrow> error \<Rightarrow> string \<Rightarrow> fields \<Rightarrow> 'w Sinks_scheme \<Rightarrow> 'w Sinks_scheme" where
  "Error logger err msg kvs w = w\<lparr>logs := logs w @ [LogError logger err msg kvs]\<rparr>"

definition recordEvent ::
  "string \<Rightarrow> string \<Rightarrow> string \<Rightarrow> EventType \<Rightarrow> 'w Sinks_scheme \<Rightarrow> 'w Sinks_scheme" where
  "recordEvent resourceType namespace name eventType w =
     w\<lparr>tracker := RecordEvent resourceType namespace name eventType (tracker w)\<rparr>"

subsection \<open>Library functions and objects\<close>

text \<open>
  \<open>cmp.Diff\<close>, \<open>equality.Semantic.DeepEqual\<close> and \<open>json.MarshalIndent\<close> come from
  libraries outside the repository; they are parameters, one per type they are used at.
  Specs, statuses, owner-reference lists and managed-field lists are type variables.
  On \<open>map[string]string\<close> and \<open>[]string\<close> the semantic equality treats nil and empty
  alike, which is equality of the maps and lists below.
\<close>

type_synonym labels = "string \<rightharpoonup> string"

record ('sp, 'st, 'own, 'mf) Lib =
  Diff_spec :: "'sp \<Rightarrow> 'sp \<Rightarrow> string"
  Diff_status :: "'st \<Rightarrow> 'st \<Rightarrow> string"
  Diff_finalizers :: "string list \<Rightarrow> string list \<Rightarrow> string"
  Diff_owners :: "'own \<Rightarrow> 'own \<Rightarrow> string"
  Diff_labels :: "labels \<Rightarrow> labels \<Rightarrow> string"
  DeepEqual_status :: "'st \<Rightarrow> 'st \<Rightarrow> bool"
  DeepEqual_owners :: "'own \<Rightarrow> 'own \<Rightarrow> bool"
  DeepEqual_managed :: "'mf \<Rightarrow> 'mf \<Rightarrow> bool"
  MarshalIndent :: "'st \<Rightarrow> error + string"

text \<open>
  The part of a \<open>client.Object\<close> that the monitor reads. \<open>DeletionTimestamp\<close> is \<open>None\<close>
  when the pointer is nil or the time is zero (\<open>IsZero\<close>).
\<close>

record ('sp, 'st, 'own, 'mf) Object =
  objNamespace :: string
  objName :: string
  Generation :: int64
  ResourceVersion :: string
  Labels :: labels
  Annotations :: labels
  Finalizers :: "string list"
  OwnerReferences :: 'own
  ManagedFields :: 'mf
  DeletionTimestamp :: "time option"
  Spec :: 'sp
  Status :: 'st

subsection \<open>The detection functions\<close>

text \<open>
  The parameter \<open>eventFilters\<close> is an interface value with a method \<open>ShouldLog\<close>; it is
  that method, a predicate on event types. The reconcilers pass \<open>ShouldLog\<close> of their
  \<open>EventTypeFilters\<close>.
\<close>

definition logSpecChange ::
  "('sp, 'st, 'own, 'mf) Lib \<Rightarrow> Logger \<Rightarrow> bool \<Rightarrow> (EventType \<Rightarrow> bool) \<Rightarrow>
   string \<Rightarrow> string \<Rightarrow> string \<Rightarrow> 'sp \<Rightarrow> 'sp \<Rightarrow> int64 \<Rightarrow> int64 \<Rightarrow>
   'w Sinks_scheme \<Rightarrow> 'w Sinks_scheme" where
  "logSpecChange lib logger detailedLogs eventFilters resourceType namespace name
       oldSpec newSpec oldGen newGen w =
     (if oldGen = newGen then w
      else
        let w1 = recordEvent resourceType namespace name EventTypeGenerationChange w
        in if detailedLogs \<and> eventFilters EventTypeGenerationChange
           then
             let diff = Diff_spec lib oldSpec newSpec
             in if diff \<noteq> []
                then Info logger ''Spec changed - Generation update detected''
                       [(''event'', StrV ''generation-change''),
                        (''oldGeneration'', IntV (sint oldGen)),
                        (''newGeneration'', IntV (sint newGen)),
                        (''specDiff'', StrV diff)] w1
                else Info logger ''Generation changed but spec appears identical''
                       [(''event'', StrV ''generation-change''),
                        (''oldGeneration'', IntV (sint oldGen)),
                        (''newGeneration'', IntV (sint newGen))] w1
           else w1)"

definition logStatusChange ::
  "('sp, 'st, 'own, 'mf) Lib \<Rightarrow> Logger \<Rightarrow> bool \<Rightarrow> (EventType \<Rightarrow> bool) \<Rightarrow>
   string \<Rightarrow> string \<Rightarrow> string \<Rightarrow> 'st \<Rightarrow> 'st \<Rightarrow>
   'w Sinks_scheme \<Rightarrow> 'w Sinks_scheme" where
  "logStatusChange lib logger detailedLogs eventFilters resourceType namespace name
       oldStatus newStatus w =
     (if DeepEqual_status lib oldStatus newStatus then w
      else
        let w1 = recordEvent resourceType namespace name EventTypeStatusChange w
        in if detailedLogs \<and> eventFilters EventTypeStatusChange
           then
             let (oldJSON, w2) =
                   (case MarshalIndent lib oldStatus of
                      Inl err \<Rightarrow> (''{}'', Error logger err ''Failed to marshal old status'' [] w1)
                    | Inr js \<Rightarrow> (js, w1));
                 (newJSON, w3) =
                   (case MarshalIndent lib newStatus of
                      Inl err \<Rightarrow> (''{}'', Error logger err ''Failed to marshal new status'' [] w2)
                    | Inr js \<Rightarrow> (js, w2));
                 diff = Diff_status lib oldStatus newStatus
             in Info logger ''Status changed''
                  [(''event'', StrV ''status-change''),
                   (''oldStatus'', StrV oldJSON),
                   (''newStatus'', StrV newJSON),
                   (''diff'', StrV diff)] w3
           else w1)"

text \<open>The comma-separated list built by the loop over \<open>metadataChanges\<close>.\<close>

fun changeList :: "string list \<Rightarrow> string" where
  "changeList [] = []"
| "changeList [c] = c"
| "changeList (c # cs) = c @ '', '' @ changeList cs"

definition logResourceVersionChangeWithMetadata ::
  "('sp, 'st, 'own, 'mf) Lib \<Rightarrow> Logger \<Rightarrow> bool \<Rightarrow> (EventType \<Rightarrow> bool) \<Rightarrow>
   string \<Rightarrow> string \<Rightarrow> string \<Rightarrow>
   ('sp, 'st, 'own, 'mf) Object \<Rightarrow> ('sp, 'st, 'own, 'mf) Object \<Rightarrow>
   'w Sinks_scheme \<Rightarrow> 'w Sinks_scheme" where
  "logResourceVersionChangeWithMetadata lib logger detailedLogs eventFilters
       resourceType namespace name oldObj newObj w =
     (let oldRV = ResourceVersion oldObj;
          newRV = ResourceVersion newObj
      in if oldRV = newRV then w
         else
           let w1 = recordEvent resourceType namespace name EventTypeResourceVersionChange w
           in if detailedLogs \<and> eventFilters EventTypeResourceVersionChange
              then
                let oldFinalizers = Finalizers oldObj;
                    newFinalizers = Finalizers newObj;
                    (metadataChanges1, diffs1) =
                      (if oldFinalizers \<noteq> newFinalizers
                       then ([''finalizers''],
                             [''Finalizers:'' @ [CHR 0x0A] @
                                Diff_finalizers lib oldFinalizers newFinalizers])
                       else ([], []));
                    oldOwners = OwnerReferences oldObj;
                    newOwners = OwnerReferences newObj;
                    (metadataChanges2, diffs) =
                      (if \<not> DeepEqual_owners lib oldOwners newOwners
                       then (metadataChanges1 @ [''ownerReferences''],
                             diffs1 @ [''OwnerReferences:'' @ [CHR 0x0A] @
                                Diff_owners lib oldOwners newOwners])
                       else (metadataChanges1, diffs1));
                    oldManaged = ManagedFields oldObj;
                    newManaged = ManagedFields newObj;
                    metadataChanges =
                      (if \<not> DeepEqual_managed lib oldManaged newManaged
                       then metadataChanges2 @ [''managedFields'']
                       else metadataChanges2);
                    reason =
                      (if metadataChanges \<noteq> []
                       then ''metadata update: '' @ changeList metadataChanges
                       else ''cache sync or unknown metadata update'');
                    logFields0 =
                      [(''event'', StrV ''resourceversion-change''),
                       (''oldResourceVersion'', StrV oldRV),
                       (''newResourceVersion'', StrV newRV),
                       (''reason'', StrV reason)];
                    logFields =
                      (if metadataChanges \<noteq> []
                       then logFields0 @ [(''metadataChanges'', StrsV metadataChanges)] @
                            map (\<lambda>d. (''diff'', StrV d)) diffs
                       else logFields0)
                in Info logger ''Resource version changed'' logFields w1
              else w1)"

definition logAnnotationChange ::
  "('sp, 'st, 'own, 'mf) Lib \<Rightarrow> Logger \<Rightarrow> bool \<Rightarrow> (EventType \<Rightarrow> bool) \<Rightarrow>
   string \<Rightarrow> string \<Rightarrow> string \<Rightarrow> labels \<Rightarrow> labels \<Rightarrow>
   'w Sinks_scheme \<Rightarrow> 'w Sinks_scheme" where
  "logAnnotationChange lib logger detailedLogs eventFilters resourceType namespace name
       oldAnnotations newAnnotations w =
     (if oldAnnotations = newAnnotations then w
      else
        let w1 = recordEvent resourceType namespace name EventTypeAnnotationChange w
        in if detailedLogs \<and> eventFilters EventTypeAnnotationChange
           then
             let diff = Diff_labels lib oldAnnotations newAnnotations
             in Info logger ''Annotations changed''
                  [(''event'', StrV ''annotation-change''), (''diff'', StrV diff)] w1
           else w1)"

definition logLabelChange ::
  "('sp, 'st, 'own, 'mf) Lib \<Rightarrow> Logger \<Rightarrow> bool \<Rightarrow> (EventType \<Rightarrow> bool) \<Rightarrow>
   string \<Rightarrow> string \<Rightarrow> string \<Rightarrow> labels \<Rightarrow> labels \<Rightarrow>
   'w Sinks_scheme \<Rightarrow> 'w Sinks_scheme" where
  "logLabelChange lib logger detailedLogs eventFilters resourceType namespace name
       oldLabels newLabels w =
     (if oldLabels = newLabels then w
      else
        let w1 = recordEvent resourceType namespace name EventTypeLabelChange w
        in if detailedLogs \<and> eventFilters EventTypeLabelChange
           then
             let diff = Diff_labels lib oldLabels newLabels
             in Info logger ''Labels changed''
                  [(''event'', StrV ''label-change''), (''diff'', StrV diff)] w1
           else w1)"

definition logRelatedResourceTrigger ::
  "Logger \<Rightarrow> bool \<Rightarrow> bool \<Rightarrow> string \<Rightarrow> string \<Rightarrow> string \<Rightarrow>
   string \<Rightarrow> string \<Rightarrow> string \<Rightarrow> 'w Sinks_scheme \<Rightarrow> 'w Sinks_scheme" where
  "logRelatedResourceTrigger logger detailedLogs shouldLogTrigger resourceType namespace name
       triggerType triggerName triggerNamespace w =
     (let w1 = w\<lparr>tracker := RecordTrigger resourceType namespace name triggerType (tracker w)\<rparr>
      in if detailedLogs \<and> shouldLogTrigger
         then Info logger ''Triggered by related resource change''
                [(''event'', StrV ''related-resource-trigger''),
                 (''triggerResourceType'', StrV triggerType),
                 (''triggerResourceName'', StrV triggerName),
                 (''triggerResourceNamespace'', StrV triggerNamespace)] w1
         else w1)"

definition logDeletion ::
  "Logger \<Rightarrow> bool \<Rightarrow> (EventType \<Rightarrow> bool) \<Rightarrow> string \<Rightarrow> string \<Rightarrow> string \<Rightarrow>
   fval \<Rightarrow> 'w Sinks_scheme \<Rightarrow> 'w Sinks_scheme" where
  "logDeletion logger detailedLogs eventFilters resourceType namespace name
       deletionTimestamp w =
     (let w1 = recordEvent resourceType namespace name EventTypeDeletion w
      in if detailedLogs \<and> eventFilters EventTypeDeletion
         then Info logger ''Resource deletion detected''
                [(''event'', StrV ''deletion''),
                 (''deletionTimestamp'', deletionTimestamp)] w1
         else w1)"

definition logNotFound ::
  "Logger \<Rightarrow> bool \<Rightarrow> (EventType \<Rightarrow> bool) \<Rightarrow> string \<Rightarrow> string \<Rightarrow> string \<Rightarrow>
   'w Sinks_scheme \<Rightarrow> 'w Sinks_scheme" where
  "logNotFound logger detailedLogs eventFilters resourceType namespace name w =
     (let w1 = recordEvent resourceType namespace name EventTypeNotFound w
      in if detailedLogs \<and> eventFilters EventTypeNotFound
         then Info logger ''Resource not found - likely deleted''
                [(''event'', StrV ''not-found'')] w1
         else w1)"

definition logCreate ::
  "Logger \<Rightarrow> bool \<Rightarrow> (EventType \<Rightarrow> bool) \<Rightarrow> string \<Rightarrow> string \<Rightarrow> string \<Rightarrow>
   int64 \<Rightarrow> string \<Rightarrow> 'w Sinks_scheme \<Rightarrow> 'w Sinks_scheme" where
  "logCreate logger detailedLogs eventFilters resourceType namespace name
       generation resourceVersion w =
     (let w1 = recordEvent resourceType namespace name EventTypeCreate w
      in if detailedLogs \<and> eventFilters EventTypeCreate
         then Info logger ''First observation of resource''
                [(''event'', StrV ''create''),
                 (''generation'', IntV (sint generation)),
                 (''resourceVersion'', StrV resourceVersion)] w1
         else w1)"

section \<open>Object cache (cache.go)\<close>

text \<open>
  A \<open>client.Object\<close> held by the cache is an interface value wrapping a pointer to the
  object (\<open>*fleet.HelmApp\<close>, \<open>*fleet.GitRepo\<close>, ...). Pointers are addresses into a heap
  of objects; the heap is a list and an address is an index into it, so that a new
  object always gets an address not in use.
\<close>

type_synonym addr = nat

type_synonym 'o heap = "'o list"

definition deref :: "'o heap \<Rightarrow> addr \<Rightarrow> 'o option" where
  "deref h p = (if p < length h then Some (h ! p) else None)"

definition new_object :: "'o \<Rightarrow> 'o heap \<Rightarrow> addr \<times> 'o heap" where
  "new_object obj h = (length h, h @ [obj])"

text \<open>A write through a pointer: the caller mutating the object it holds.\<close>

definition mutate :: "addr \<Rightarrow> 'o \<Rightarrow> 'o heap \<Rightarrow> 'o heap" where
  "mutate p obj h = (if p < length h then h[p := obj] else h)"

text \<open>
  Modelled from the spec: \<open>DeepCopy\<close> is generated code of the API package, outside
  \<open>src/\<close>. A deep copy is a new object with the same contents, sharing nothing with
  the original.
\<close>

definition DeepCopy :: "addr \<Rightarrow> 'o heap \<Rightarrow> addr \<times> 'o heap" where
  "DeepCopy p h = (case deref h p of None \<Rightarrow> (p, h) | Some obj \<Rightarrow> new_object obj h)"

record NamespacedName =
  nnNamespace :: string
  nnName :: string

definition NamespacedName_String :: "NamespacedName \<Rightarrow> string" where
  "NamespacedName_String n = nnNamespace n @ ''/'' @ nnName n"

text \<open>
  The map of the cache. The lock only serialises the three operations, each of which is
  a single step here. \<open>Get\<close> returns the pair (object, exists) as an option.
\<close>

type_synonym ObjectCache = "NamespacedName \<rightharpoonup> addr"

definition NewObjectCache :: ObjectCache where
  "NewObjectCache = Map.empty"

definition ObjectCache_Get :: "ObjectCache \<Rightarrow> NamespacedName \<Rightarrow> addr option" where
  "ObjectCache_Get c key = c key"

definition ObjectCache_Set :: "ObjectCache \<Rightarrow> NamespacedName \<Rightarrow> addr \<Rightarrow> ObjectCache" where
  "ObjectCache_Set c key obj = c(key \<mapsto> obj)"

definition ObjectCache_Delete :: "ObjectCache \<Rightarrow> NamespacedName \<Rightarrow> ObjectCache" where
  "ObjectCache_Delete c key = c(key := None)"

text \<open>The object a reader sees behind the reference that \<open>Get\<close> returns.\<close>

definition snapshot :: "'o heap \<Rightarrow> ObjectCache \<Rightarrow> NamespacedName \<Rightarrow> 'o option" where
  "snapshot h c key = (case ObjectCache_Get c key of None \<Rightarrow> None | Some p \<Rightarrow> deref h p)"

section \<open>Monitor reconcilers\<close>

text \<open>
  The reconciler structs share the fields \<open>Client\<close>, \<open>DetailedLogs\<close> and
  \<open>EventFilters\<close>; \<open>HelmAppMonitorReconciler\<close> and \<open>GitRepoMonitorReconciler\<close> have a
  \<open>ResourceFilter\<close> in addition (the field \<open>Filter\<close> here, the name of the type being
  taken), \<open>BundleMonitorReconciler\<close> has none. \<open>Client\<close> is the \<open>Get\<close> of the embedded
  Kubernetes client: what the API server answers for a key. The state a reconcile works
  on is the two sinks, the heap, the reconciler's cache and the list of objects fetched
  from the API server so far.
\<close>

record 'o BaseReconciler =
  Client :: "NamespacedName \<Rightarrow> error + 'o"
  DetailedLogs :: bool
  EventFilters :: EventTypeFilters

record 'o MonitorReconciler = "'o BaseReconciler" +
  Filter :: "ResourceFilter option"

record 'o ReconcilerState = Sinks +
  heap :: "'o heap"
  cache :: ObjectCache
  fetched :: "NamespacedName list"

text \<open>
  A call returns, or panics on a nil dereference. A reconcile returns
  \<open>(ctrl.Result{}, err)\<close>, of which the error is kept.
\<close>

datatype 'a result = Returns 'a | Panics

type_synonym outcome = "error option result"

definition IgnoreNotFound :: "error \<Rightarrow> error option" where
  "IgnoreNotFound err = (if err = ErrNotFound then None else Some err)"

definition logMode :: "bool \<Rightarrow> string" where
  "logMode detailed = (if detailed then ''detailed'' else ''summary'')"

definition label :: "labels \<Rightarrow> string \<Rightarrow> string" where
  "label m k = (case m k of None \<Rightarrow> [] | Some v \<Rightarrow> v)"

text \<open>
  The five detection calls that every \<open>Reconcile\<close> makes, in this order, on the cached
  object and the fetched one.
\<close>

definition detectChanges ::
  "('sp, 'st, 'own, 'mf) Lib \<Rightarrow> Logger \<Rightarrow> bool \<Rightarrow> (EventType \<Rightarrow> bool) \<Rightarrow> string \<Rightarrow>
   ('sp, 'st, 'own, 'mf) Object \<Rightarrow> ('sp, 'st, 'own, 'mf) Object \<Rightarrow>
   'w Sinks_scheme \<Rightarrow> 'w Sinks_scheme" where
  "detectChanges lib logger detailedLogs eventFilters resourceType old new w =
     (let w1 = logSpecChange lib logger detailedLogs eventFilters resourceType
                 (objNamespace new) (objName new) (Spec old) (Spec new)
                 (Generation old) (Generation new) w;
          w2 = logStatusChange lib logger detailedLogs eventFilters resourceType
                 (objNamespace new) (objName new) (Status old) (Status new) w1;
          w3 = logResourceVersionChangeWithMetadata lib logger detailedLogs eventFilters
                 resourceType (objNamespace new) (objName new) old new w2;
          w4 = logAnnotationChange lib logger detailedLogs eventFilters resourceType
                 (objNamespace new) (objName new) (Annotations old) (Annotations new) w3
      in logLabelChange lib logger detailedLogs eventFilters resourceType
           (objNamespace new) (objName new) (Labels old) (Labels new) w4)"

text \<open>\<open>r.cache.Set(req.NamespacedName, obj.DeepCopy())\<close>.\<close>

definition cacheSetDeepCopy ::
  "NamespacedName \<Rightarrow> addr \<Rightarrow> ('o, 'w) ReconcilerState_scheme \<Rightarrow> ('o, 'w) ReconcilerState_scheme" where
  "cacheSetDeepCopy key p w =
     (let (q, h) = DeepCopy p (heap w)
      in w\<lparr>heap := h, cache := ObjectCache_Set (cache w) key q\<rparr>)"

definition cacheDelete ::
  "NamespacedName \<Rightarrow> ('o, 'w) ReconcilerState_scheme \<Rightarrow> ('o, 'w) ReconcilerState_scheme" where
  "cacheDelete key w = w\<lparr>cache := ObjectCache_Delete (cache w) key\<rparr>"

text \<open>\<open>obj := &T{}; r.Get(ctx, key, obj)\<close>: the call is noted, the answer lands in a new object.\<close>

definition fetch ::
  "('o, 'r) BaseReconciler_scheme \<Rightarrow> NamespacedName \<Rightarrow> ('o, 'w) ReconcilerState_scheme \<Rightarrow>
   (error + addr \<times> 'o) \<times> ('o, 'w) ReconcilerState_scheme" where
  "fetch r key w =
     (let w1 = w\<lparr>fetched := fetched w @ [key]\<rparr>
      in case Client r key of
           Inl err \<Rightarrow> (Inl err, w1)
         | Inr obj \<Rightarrow>
             let (p, h) = new_object obj (heap w1)
             in (Inr (p, obj), w1\<lparr>heap := h\<rparr>))"

subsection \<open>HelmApp (second part of bundle\_monitor.go)\<close>

text \<open>
  The fields of the HelmApp spec that the reconciler reads; the rest of the spec is the
  extension of the record. \<open>Helm\<close> is a pointer in the API type.
\<close>

record HelmOptions =
  Chart :: string
  Version :: string

record HelmAppSpec =
  Helm :: "HelmOptions option"

definition HelmApp_Reconcile ::
  "('a HelmAppSpec_scheme, 'st, 'own, 'mf) Lib \<Rightarrow>
   ('a HelmAppSpec_scheme, 'st, 'own, 'mf) Object MonitorReconciler \<Rightarrow>
   Logger \<Rightarrow> NamespacedName \<Rightarrow>
   (('a HelmAppSpec_scheme, 'st, 'own, 'mf) Object, 'w) ReconcilerState_scheme \<Rightarrow>
   outcome \<times> (('a HelmAppSpec_scheme, 'st, 'own, 'mf) Object, 'w) ReconcilerState_scheme" where
  "HelmApp_Reconcile lib r ctxLogger req w =
     (if \<not> Matches (Filter r) (nnNamespace req) (nnName req) then (Returns None, w)
      else
        let logger0 = WithValues (WithName ctxLogger ''helmapp-monitor'')
                        [(''helmapp'', StrV (NamespacedName_String req))]
        in case fetch r req w of
             (Inl err, w1) \<Rightarrow>
               (Returns (IgnoreNotFound err),
                if IgnoreNotFound err = None
                then logNotFound logger0 (DetailedLogs r) (ShouldLog (EventFilters r))
                       ''HelmApp'' (nnNamespace req) (nnName req) w1
                else w1)
           | (Inr (p, helmapp), w1) \<Rightarrow>
               (case Helm (Spec helmapp) of
                  None \<Rightarrow> (Panics, w1)
                | Some helm \<Rightarrow>
                    let logger =
                          (if Chart helm \<noteq> []
                           then WithValues logger0
                                  [(''chart'', StrV (Chart helm)),
                                   (''version'', StrV (Version helm))]
                           else logger0)
                    in case DeletionTimestamp helmapp of
                         Some ts \<Rightarrow>
                           (Returns None,
                            cacheDelete req
                              (logDeletion logger (DetailedLogs r) (ShouldLog (EventFilters r))
                                 ''HelmApp'' (objNamespace helmapp) (objName helmapp)
                                 (TimeV ts) w1))
                       | None \<Rightarrow>
                           (case ObjectCache_Get (cache w1) req of
                              None \<Rightarrow>
                                (Returns None,
                                 cacheSetDeepCopy req p
                                   (logCreate logger (DetailedLogs r)
                                      (ShouldLog (EventFilters r)) ''HelmApp''
                                      (objNamespace helmapp) (objName helmapp)
                                      (Generation helmapp) (ResourceVersion helmapp) w1))
                            | Some oldp \<Rightarrow>
                                (case deref (heap w1) oldp of
                                   None \<Rightarrow> (Panics, w1)
                                 | Some oldHelmAppTyped \<Rightarrow>
                                     (Returns None,
                                      cacheSetDeepCopy req p
                                        (detectChanges lib logger (DetailedLogs r)
                                           (ShouldLog (EventFilters r)) ''HelmApp''
                                           oldHelmAppTyped helmapp w1))))))"

subsection \<open>GitRepo (gitrepo\_monitor.go)\<close>

text \<open>
  The fields of the GitRepo spec and status that the reconciler reads. The label key
  \<open>fleet.RepoLabel\<close> is a constant of the API package, outside \<open>src/\<close>, and a
  parameter of the reconciler.
\<close>

record GitRepoSpec =
  Repo :: string
  Branch :: string
  Revision :: string
  ForceSyncGeneration :: int64

record GitRepoStatus =
  Commit :: string
  WebhookCommit :: string

text \<open>The six extra log lines of the detailed mode, each under its own comparison.\<close>

definition gitRepoDetails ::
  "Logger \<Rightarrow>
   ('a GitRepoSpec_scheme, 'b GitRepoStatus_scheme, 'own, 'mf) Object \<Rightarrow>
   ('a GitRepoSpec_scheme, 'b GitRepoStatus_scheme, 'own, 'mf) Object \<Rightarrow>
   'w Sinks_scheme \<Rightarrow> 'w Sinks_scheme" where
  "gitRepoDetails logger old new w =
     (let w1 = (if Repo (Spec old) \<noteq> Repo (Spec new)
                then Info logger ''Repository URL changed''
                       [(''event'', StrV ''repo-change''),
                        (''oldRepo'', StrV (Repo (Spec old))),
                        (''newRepo'', StrV (Repo (Spec new)))] w
                else w);
          w2 = (if Branch (Spec old) \<noteq> Branch (Spec new)
                then Info logger ''Branch changed''
                       [(''event'', StrV ''branch-change''),
                        (''oldBranch'', StrV (Branch (Spec old))),
                        (''newBranch'', StrV (Branch (Spec new)))] w1
                else w1);
          w3 = (if Revision (Spec old) \<noteq> Revision (Spec new)
                then Info logger ''Revision changed''
                       [(''event'', StrV ''revision-change''),
                        (''oldRevision'', StrV (Revision (Spec old))),
                        (''newRevision'', StrV (Revision (Spec new)))] w2
                else w2);
          w4 = (if Commit (Status old) \<noteq> Commit (Status new)
                then Info logger ''Commit changed''
                       [(''event'', StrV ''commit-change''),
                        (''oldCommit'', StrV (Commit (Status old))),
                        (''newCommit'', StrV (Commit (Status new)))] w3
                else w3);
          w5 = (if WebhookCommit (Status old) \<noteq> WebhookCommit (Status new)
                then Info logger ''Webhook commit changed''
                       [(''event'', StrV ''webhook-commit-change''),
                        (''oldWebhookCommit'', StrV (WebhookCommit (Status old))),
                        (''newWebhookCommit'', StrV (WebhookCommit (Status new)))] w4
                else w4)
      in if ForceSyncGeneration (Spec old) \<noteq> ForceSyncGeneration (Spec new)
         then Info logger ''ForceSyncGeneration changed''
                [(''event'', StrV ''force-sync-change''),
                 (''oldForceSyncGeneration'', IntV (sint (ForceSyncGeneration (Spec old)))),
                 (''newForceSyncGeneration'', IntV (sint (ForceSyncGeneration (Spec new))))] w5
         else w5)"

definition GitRepo_Reconcile ::
  "string \<Rightarrow>
   ('a GitRepoSpec_scheme, 'b GitRepoStatus_scheme, 'own, 'mf) Lib \<Rightarrow>
   ('a GitRepoSpec_scheme, 'b GitRepoStatus_scheme, 'own, 'mf) Object MonitorReconciler \<Rightarrow>
   Logger \<Rightarrow> NamespacedName \<Rightarrow>
   (('a GitRepoSpec_scheme, 'b GitRepoStatus_scheme, 'own, 'mf) Object, 'w)
     ReconcilerState_scheme \<Rightarrow>
   outcome \<times> (('a GitRepoSpec_scheme, 'b GitRepoStatus_scheme, 'own, 'mf) Object, 'w)
     ReconcilerState_scheme" where
  "GitRepo_Reconcile RepoLabel lib r ctxLogger req w =
     (if \<not> Matches (Filter r) (nnNamespace req) (nnName req) then (Returns None, w)
      else
        let logger0 = WithValues (WithName ctxLogger ''gitrepo-monitor'')
                        [(''gitrepo'', StrV (NamespacedName_String req)),
                         (''mode'', StrV (logMode (DetailedLogs r)))]
        in case fetch r req w of
             (Inl err, w1) \<Rightarrow>
               if err = ErrNotFound
               then (Returns None,
                     cacheDelete req
                       (logNotFound logger0 (DetailedLogs r) (ShouldLog (EventFilters r))
                          ''GitRepo'' (nnNamespace req) (nnName req) w1))
               else (Returns (Some err), w1)
           | (Inr (p, gitrepo), w1) \<Rightarrow>
               let logger1 = WithValues logger0
                               [(''generation'', IntV (sint (Generation gitrepo))),
                                (''commit'', StrV (Commit (Status gitrepo)))];
                   logger = (if label (Labels gitrepo) RepoLabel \<noteq> []
                             then WithValues logger1
                                    [(''repo'', StrV (label (Labels gitrepo) RepoLabel))]
                             else logger1)
               in case DeletionTimestamp gitrepo of
                    Some ts \<Rightarrow>
                      (Returns None,
                       cacheDelete req
                         (logDeletion logger (DetailedLogs r) (ShouldLog (EventFilters r))
                            ''GitRepo'' (objNamespace gitrepo) (objName gitrepo)
                            (TimeV ts) w1))
                  | None \<Rightarrow>
                      (case ObjectCache_Get (cache w1) req of
                         None \<Rightarrow>
                           (Returns None,
                            cacheSetDeepCopy req p
                              (logCreate logger (DetailedLogs r) (ShouldLog (EventFilters r))
                                 ''GitRepo'' (objNamespace gitrepo) (objName gitrepo)
                                 (Generation gitrepo) (ResourceVersion gitrepo) w1))
                       | Some oldp \<Rightarrow>
                           (case deref (heap w1) oldp of
                              None \<Rightarrow> (Panics, w1)
                            | Some oldGitRepoTyped \<Rightarrow>
                                let w2 = detectChanges lib logger (DetailedLogs r)
                                           (ShouldLog (EventFilters r)) ''GitRepo''
                                           oldGitRepoTyped gitrepo w1;
                                    w3 = (if DetailedLogs r
                                          then gitRepoDetails logger oldGitRepoTyped gitrepo w2
                                          else w2)
                                in (Returns None, cacheSetDeepCopy req p w3))))"

subsection \<open>Bundle (first part of bundle\_monitor.go)\<close>

text \<open>
  The Bundle reconciler has no resource filter. The label keys \<open>fleet.RepoLabel\<close> and
  \<open>fleet.CommitLabel\<close> are parameters.
\<close>

definition Bundle_Reconcile ::
  "string \<Rightarrow> string \<Rightarrow> ('sp, 'st, 'own, 'mf) Lib \<Rightarrow>
   (('sp, 'st, 'own, 'mf) Object, 'r) BaseReconciler_scheme \<Rightarrow>
   Logger \<Rightarrow> NamespacedName \<Rightarrow>
   (('sp, 'st, 'own, 'mf) Object, 'w) ReconcilerState_scheme \<Rightarrow>
   outcome \<times> (('sp, 'st, 'own, 'mf) Object, 'w) ReconcilerState_scheme" where
  "Bundle_Reconcile RepoLabel CommitLabel lib r ctxLogger req w =
     (let logger0 = WithValues (WithName ctxLogger ''bundle-monitor'')
                      [(''bundle'', StrV (NamespacedName_String req)),
                       (''mode'', StrV (logMode (DetailedLogs r)))]
      in case fetch r req w of
           (Inl err, w1) \<Rightarrow>
             (Returns (IgnoreNotFound err),
              if IgnoreNotFound err = None
              then logNotFound logger0 (DetailedLogs r) (ShouldLog (EventFilters r))
                     ''Bundle'' (nnNamespace req) (nnName req) w1
              else w1)
         | (Inr (p, bundle), w1) \<Rightarrow>
             let logger =
                   (if label (Labels bundle) RepoLabel \<noteq> []
                    then WithValues logger0
                           [(''gitrepo'', StrV (label (Labels bundle) RepoLabel)),
                            (''commit'', StrV (label (Labels bundle) CommitLabel))]
                    else logger0)
             in case DeletionTimestamp bundle of
                  Some ts \<Rightarrow>
                    (Returns None,
                     cacheDelete req
                       (logDeletion logger (DetailedLogs r) (ShouldLog (EventFilters r))
                          ''Bundle'' (objNamespace bundle) (objName bundle) (TimeV ts) w1))
                | None \<Rightarrow>
                    (case ObjectCache_Get (cache w1) req of
                       None \<Rightarrow>
                         (Returns None,
                          cacheSetDeepCopy req p
                            (logCreate logger (DetailedLogs r) (ShouldLog (EventFilters r))
                               ''Bundle'' (objNamespace bundle) (objName bundle)
                               (Generation bundle) (ResourceVersion bundle) w1))
                     | Some oldp \<Rightarrow>
                         (case deref (heap w1) oldp of
                            None \<Rightarrow> (Panics, w1)
                          | Some oldBundleTyped \<Rightarrow>
                              (Returns None,
                               cacheSetDeepCopy req p
                                 (detectChanges lib logger (DetailedLogs r)
                                    (ShouldLog (EventFilters r)) ''Bundle''
                                    oldBundleTyped bundle w1)))))"

text \<open>Counter of one event kind of one resource, zero when absent.\<close>

definition event_count :: "StatsTracker \<Rightarrow> ResourceKey \<Rightarrow> EventType \<Rightarrow> int64" where
  "event_count s key ev =
     (case stats s key of
        None \<Rightarrow> 0
      | Some st \<Rightarrow> (case Counts st ev of None \<Rightarrow> 0 | Some c \<Rightarrow> c))"

section \<open>Bundle query (first part of bundle\_query.go)\<close>

subsection \<open>Resources, external packages and the client\<close>

text \<open>
  The fields of the API types that the query reads. A bundle's spec, from which its
  matcher is built, and a \<open>metav1.LabelSelector\<close> are type variables.
\<close>

record 'sp Bundle =
  bundleNamespace :: string
  bundleName :: string
  bundleAnnotations :: labels
  bundleLabels :: labels
  bundleSpec :: 'sp

record Cluster =
  clusterNamespace :: string
  clusterName :: string
  clusterLabels :: labels

record 'ls ClusterGroup =
  cgNamespace :: string
  cgName :: string
  cgLabels :: labels
  cgSelector :: "'ls option"

record 'ls BundleNamespaceMapping =
  mappingNamespace :: string
  mappingName :: string
  BundleSelector :: "'ls option"
  NamespaceSelector :: "'ls option"

record NamespaceObject =
  namespaceLabels :: labels

text \<open>
  A \<open>labels.Selector\<close> is represented by its \<open>Matches\<close> predicate. \<open>matcher.New\<close> and
  \<open>Match\<close> belong to the package \<open>internal/cmd/controller/target/matcher\<close>, which is
  outside \<open>src/\<close>, and \<open>LabelSelectorAsSelector\<close> to the Kubernetes library; the three
  are parameters of the query. \<open>Match\<close> returns a target, or nil when nothing matches.
  \<open>selector_value\<close> is the way the logger renders a selector.
\<close>

type_synonym Selector = "labels \<Rightarrow> bool"

record ('sp, 'ls, 'm, 't) Ext =
  LabelSelectorAsSelector :: "'ls \<Rightarrow> error + Selector"
  matcher_New :: "'sp Bundle \<Rightarrow> error + 'm"
  matcher_Match :: "'m \<Rightarrow> string \<Rightarrow> (string \<rightharpoonup> labels) \<Rightarrow> labels \<Rightarrow> 't option"
  selector_value :: "'ls \<Rightarrow> fval"

text \<open>
  What the API server holds while one query runs: the answers to the three kinds of
  \<open>List\<close> and to the \<open>Get\<close> of a namespace (\<open>None\<close>: no such namespace).
\<close>

record ('sp, 'ls) ApiServer =
  listBundles :: "string \<Rightarrow> Selector option \<Rightarrow> 'sp Bundle list"
  listBundleNamespaceMappings :: "'ls BundleNamespaceMapping list"
  listClusterGroups :: "string \<Rightarrow> 'ls ClusterGroup list"
  getNamespace :: "string \<Rightarrow> NamespaceObject option"

text \<open>
  Any call to the API server may fail. \<open>pending\<close> schedules the outcome of the calls to
  come, in order (\<open>Some err\<close>: the call fails with \<open>err\<close>; past the end of the list calls
  succeed); \<open>trace\<close> is the list of calls made so far, each with the error it failed
  with, if any.
\<close>

datatype api_op = ListBundles | ListBundleNamespaceMappings | ListClusterGroups | GetNamespace

record QueryState = Sinks +
  pending :: "error option list"
  trace :: "(api_op \<times> error option) list"

definition api_call ::
  "api_op \<Rightarrow> error + 'a \<Rightarrow> 'w QueryState_scheme \<Rightarrow> (error + 'a) \<times> 'w QueryState_scheme" where
  "api_call operation answer st =
     (let scheduled = (case pending st of [] \<Rightarrow> None | f # fs \<Rightarrow> f);
          outcome = (case scheduled of Some err \<Rightarrow> Inl err | None \<Rightarrow> answer)
      in (outcome,
          st\<lparr>pending := tl (pending st),
             trace := trace st @ [(operation, case outcome of Inl err \<Rightarrow> Some err | Inr x \<Rightarrow> None)]\<rparr>))"

definition is_List :: "api_op \<Rightarrow> bool" where
  "is_List operation \<longleftrightarrow> operation \<noteq> GetNamespace"

subsection \<open>Bundle set\<close>

record 'sp bundleSet =
  bundleKeys :: "string set"
  bundleMap :: "string \<rightharpoonup> 'sp Bundle"

definition newBundleSet :: "'sp bundleSet" where
  "newBundleSet = \<lparr>bundleKeys = {}, bundleMap = Map.empty\<rparr>"

definition bundleKey :: "'sp Bundle \<Rightarrow> string" where
  "bundleKey bundle = bundleNamespace bundle @ ''/'' @ bundleName bundle"

definition insertSingle :: "'sp Bundle \<Rightarrow> 'sp bundleSet \<Rightarrow> 'sp bundleSet" where
  "insertSingle bundle b =
     (let key = bundleKey bundle
      in \<lparr>bundleKeys = insert key (bundleKeys b), bundleMap = (bundleMap b)(key \<mapsto> bundle)\<rparr>)"

text \<open>
  \<open>sets.List\<close> returns the keys in ascending order. Every key of the set is a key of the
  map, so no entry of the result is nil.
\<close>

definition bundleSet_bundles :: "'sp bundleSet \<Rightarrow> 'sp Bundle list" where
  "bundleSet_bundles b = List.map_filter (bundleMap b) (sorted_list_of_set (bundleKeys b))"

definition bundleSet_insert ::
  "'sp Bundle list \<times> error option \<Rightarrow> 'sp bundleSet \<Rightarrow> error option \<times> 'sp bundleSet" where
  "bundleSet_insert r b =
     (case r of
        (bundles, Some err) \<Rightarrow> (Some err, b)
      | (bundles, None) \<Rightarrow> (None, foldl (\<lambda>s bundle. insertSingle bundle s) b bundles))"

subsection \<open>Bundle mapping\<close>

text \<open>The field \<open>namespace\<close> of the Go struct is \<open>bmNamespace\<close>.\<close>

record BundleMapping =
  bmNamespace :: string
  namespaceSelector :: "Selector option"
  bundleSelector :: "Selector option"
  noMatch :: bool

definition newBundleMapping ::
  "('sp, 'ls, 'm, 't) Ext \<Rightarrow> 'ls BundleNamespaceMapping \<Rightarrow> error + BundleMapping" where
  "newBundleMapping ext mapping =
     (let result = \<lparr>bmNamespace = mappingNamespace mapping, namespaceSelector = None,
                     bundleSelector = None, noMatch = False\<rparr>
      in case (BundleSelector mapping, NamespaceSelector mapping) of
           (Some bsel, Some nsel) \<Rightarrow>
             (case LabelSelectorAsSelector ext bsel of
                Inl err \<Rightarrow> Inl err
              | Inr bs \<Rightarrow>
                  (case LabelSelectorAsSelector ext nsel of
                     Inl err \<Rightarrow> Inl err
                   | Inr ns \<Rightarrow>
                       Inr (result\<lparr>bundleSelector := Some bs, namespaceSelector := Some ns\<rparr>)))
         | _ \<Rightarrow> Inr (result\<lparr>noMatch := True\<rparr>))"

text \<open>
  When the \<open>List\<close> fails the returned slice is built from a list that the client has
  not filled; the caller, \<open>insert\<close>, drops it on seeing the error.
\<close>

definition Bundles ::
  "BundleMapping \<Rightarrow> ('sp, 'ls) ApiServer \<Rightarrow> 'w QueryState_scheme \<Rightarrow>
   ('sp Bundle list \<times> error option) \<times> 'w QueryState_scheme" where
  "Bundles b c st =
     (if noMatch b then (([], None), st)
      else
        case api_call ListBundles (Inr (listBundles c (bmNamespace b) (bundleSelector b))) st of
          (Inl err, st1) \<Rightarrow> (([], Some err), st1)
        | (Inr items, st1) \<Rightarrow> ((items, None), st1))"

definition MatchesNamespace ::
  "BundleMapping \<Rightarrow> ('sp, 'ls) ApiServer \<Rightarrow> string \<Rightarrow> 'w QueryState_scheme \<Rightarrow>
   bool result \<times> 'w QueryState_scheme" where
  "MatchesNamespace b c ns st =
     (if noMatch b then (Returns False, st)
      else
        case api_call GetNamespace
               (case getNamespace c ns of None \<Rightarrow> Inl ErrNotFound | Some obj \<Rightarrow> Inr obj) st of
          (Inl err, st1) \<Rightarrow> (Returns False, st1)
        | (Inr obj, st1) \<Rightarrow>
            (case namespaceSelector b of
               None \<Rightarrow> (Panics, st1)
             | Some sel \<Rightarrow> (Returns (sel (namespaceLabels obj)), st1)))"

subsection \<open>The query\<close>

text \<open>The loop over \<open>bundles.Items\<close>: agent bundles of other clusters are left out.\<close>

fun namespaceBundlesLoop ::
  "Cluster \<Rightarrow> 'sp Bundle list \<Rightarrow> 'sp bundleSet \<Rightarrow> 'sp bundleSet" where
  "namespaceBundlesLoop cluster [] bundleSet = bundleSet"
| "namespaceBundlesLoop cluster (b # items) bundleSet =
     (if label (bundleAnnotations b) ''objectset.rio.cattle.io/id'' = ''fleet-manage-agent''
      then (if bundleName b = ''fleet-agent-'' @ clusterName cluster
            then namespaceBundlesLoop cluster items (insertSingle b bundleSet)
            else namespaceBundlesLoop cluster items bundleSet)
      else namespaceBundlesLoop cluster items (insertSingle b bundleSet))"

text \<open>
  The loop over \<open>mappings.Items\<close>. A mapping whose selectors do not parse is logged and
  skipped, one that does not match the cluster's namespace is skipped, and a failed
  \<open>List\<close> of the bundles of a mapping ends the loop with the error.
\<close>

fun mappingsLoop ::
  "('sp, 'ls, 'm, 't) Ext \<Rightarrow> ('sp, 'ls) ApiServer \<Rightarrow> Logger \<Rightarrow> Cluster \<Rightarrow>
   'ls BundleNamespaceMapping list \<Rightarrow> 'sp bundleSet \<Rightarrow> 'w QueryState_scheme \<Rightarrow>
   (error option \<times> 'sp bundleSet) result \<times> 'w QueryState_scheme" where
  "mappingsLoop ext c logger cluster [] bundleSet st = (Returns (None, bundleSet), st)"
| "mappingsLoop ext c logger cluster (mapping # mappings) bundleSet st =
     (case newBundleMapping ext mapping of
        Inl err \<Rightarrow>
          mappingsLoop ext c logger cluster mappings bundleSet
            (Error logger err ''invalid BundleNamespaceMapping, skipping''
               [(''namespace'', StrV (mappingNamespace mapping)),
                (''name'', StrV (mappingName mapping))] st)
      | Inr matcher \<Rightarrow>
          (case MatchesNamespace matcher c (clusterNamespace cluster) st of
             (Panics, st1) \<Rightarrow> (Panics, st1)
           | (Returns False, st1) \<Rightarrow> mappingsLoop ext c logger cluster mappings bundleSet st1
           | (Returns True, st1) \<Rightarrow>
               (case Bundles matcher c st1 of
                  (r, st2) \<Rightarrow>
                    (case bundleSet_insert r bundleSet of
                       (Some err, bundleSet2) \<Rightarrow> (Returns (Some err, bundleSet2), st2)
                     | (None, bundleSet2) \<Rightarrow>
                         mappingsLoop ext c logger cluster mappings bundleSet2 st2))))"

definition getBundlesInScopeForCluster ::
  "('sp, 'ls, 'm, 't) Ext \<Rightarrow> ('sp, 'ls) ApiServer \<Rightarrow> Logger \<Rightarrow> Cluster \<Rightarrow>
   'w QueryState_scheme \<Rightarrow> ('sp Bundle list \<times> error option) result \<times> 'w QueryState_scheme" where
  "getBundlesInScopeForCluster ext c ctxLogger cluster st =
     (case api_call ListBundles (Inr (listBundles c (clusterNamespace cluster) None)) st of
        (Inl err, st1) \<Rightarrow> (Returns ([], Some err), st1)
      | (Inr items, st1) \<Rightarrow>
          let bundleSet = namespaceBundlesLoop cluster items newBundleSet
          in case api_call ListBundleNamespaceMappings
                    (Inr (listBundleNamespaceMappings c)) st1 of
               (Inl err, st2) \<Rightarrow> (Returns ([], Some err), st2)
             | (Inr mappings, st2) \<Rightarrow>
                 let logger = WithName ctxLogger ''bundle-query''
                 in case mappingsLoop ext c logger cluster mappings bundleSet st2 of
                      (Panics, st3) \<Rightarrow> (Panics, st3)
                    | (Returns (Some err, bundleSet3), st3) \<Rightarrow> (Returns ([], Some err), st3)
                    | (Returns (None, bundleSet3), st3) \<Rightarrow>
                        (Returns (bundleSet_bundles bundleSet3, None), st3))"

text \<open>
  The loop over \<open>cgs.Items\<close>: a group without selector is passed over, one whose selector
  does not parse is logged and passed over, and a group is kept when its selector
  matches the labels of the cluster.
\<close>

fun clusterGroupsLoop ::
  "('sp, 'ls, 'm, 't) Ext \<Rightarrow> Logger \<Rightarrow> Cluster \<Rightarrow> 'ls ClusterGroup list \<Rightarrow>
   'ls ClusterGroup list \<Rightarrow> 'w QueryState_scheme \<Rightarrow>
   'ls ClusterGroup list \<times> 'w QueryState_scheme" where
  "clusterGroupsLoop ext logger cluster [] result st = (result, st)"
| "clusterGroupsLoop ext logger cluster (cg # items) result st =
     (case cgSelector cg of
        None \<Rightarrow> clusterGroupsLoop ext logger cluster items result st
      | Some selector \<Rightarrow>
          (case LabelSelectorAsSelector ext selector of
             Inl err \<Rightarrow>
               clusterGroupsLoop ext logger cluster items result
                 (Error logger err ''invalid selector on clusterGroup''
                    [(''namespace'', StrV (cgNamespace cg)), (''name'', StrV (cgName cg)),
                     (''selector'', selector_value ext selector)] st)
           | Inr sel \<Rightarrow>
               if sel (clusterLabels cluster)
               then clusterGroupsLoop ext logger cluster items (result @ [cg]) st
               else clusterGroupsLoop ext logger cluster items result st))"

definition clusterGroupsForCluster ::
  "('sp, 'ls, 'm, 't) Ext \<Rightarrow> ('sp, 'ls) ApiServer \<Rightarrow> Logger \<Rightarrow> Cluster \<Rightarrow>
   'w QueryState_scheme \<Rightarrow> ('ls ClusterGroup list \<times> error option) \<times> 'w QueryState_scheme" where
  "clusterGroupsForCluster ext c ctxLogger cluster st =
     (case api_call ListClusterGroups
             (Inr (listClusterGroups c (clusterNamespace cluster))) st of
        (Inl err, st1) \<Rightarrow> (([], Some err), st1)
      | (Inr items, st1) \<Rightarrow>
          let logger = WithName ctxLogger ''bundle-query''
          in case clusterGroupsLoop ext logger cluster items [] st1 of
               (result, st2) \<Rightarrow> ((result, None), st2))"

definition clusterGroupsToLabelMap :: "'ls ClusterGroup list \<Rightarrow> (string \<rightharpoonup> labels)" where
  "clusterGroupsToLabelMap cgs =
     foldl (\<lambda>result cg. result(cgName cg \<mapsto> cgLabels cg)) Map.empty cgs"

text \<open>
  The loop of \<open>BundlesForCluster\<close> over the bundles in scope, on the two result lists
  built so far. The cluster groups are listed anew for every bundle that has a matcher.
\<close>

fun bundlesLoop ::
  "('sp, 'ls, 'm, 't) Ext \<Rightarrow> ('sp, 'ls) ApiServer \<Rightarrow> Logger \<Rightarrow> Cluster \<Rightarrow>
   'sp Bundle list \<Rightarrow> 'sp Bundle list \<times> 'sp Bundle list \<Rightarrow> 'w QueryState_scheme \<Rightarrow>
   ('sp Bundle list \<times> 'sp Bundle list \<times> error option) \<times> 'w QueryState_scheme" where
  "bundlesLoop ext c ctxLogger cluster [] (bundlesToRefresh, bundlesToCleanup) st =
     ((bundlesToRefresh, bundlesToCleanup, None), st)"
| "bundlesLoop ext c ctxLogger cluster (bundle # bundles) (bundlesToRefresh, bundlesToCleanup) st =
     (case matcher_New ext bundle of
        Inl err \<Rightarrow>
          bundlesLoop ext c ctxLogger cluster bundles (bundlesToRefresh, bundlesToCleanup)
            (Error (WithName ctxLogger ''bundle-query'') err ''ignore bad app bundle''
               [(''namespace'', StrV (bundleNamespace bundle)),
                (''name'', StrV (bundleName bundle))] st)
      | Inr bm \<Rightarrow>
          (case clusterGroupsForCluster ext c ctxLogger cluster st of
             ((cgs, Some err), st1) \<Rightarrow> (([], [], Some err), st1)
           | ((cgs, None), st1) \<Rightarrow>
               (case matcher_Match ext bm (clusterName cluster) (clusterGroupsToLabelMap cgs)
                       (clusterLabels cluster) of
                  Some match \<Rightarrow>
                    bundlesLoop ext c ctxLogger cluster bundles
                      (bundlesToRefresh @ [bundle], bundlesToCleanup) st1
                | None \<Rightarrow>
                    bundlesLoop ext c ctxLogger cluster bundles
                      (bundlesToRefresh, bundlesToCleanup @ [bundle]) st1)))"

definition BundlesForCluster ::
  "('sp, 'ls, 'm, 't) Ext \<Rightarrow> ('sp, 'ls) ApiServer \<Rightarrow> Logger \<Rightarrow> Cluster \<Rightarrow>
   'w QueryState_scheme \<Rightarrow>
   ('sp Bundle list \<times> 'sp Bundle list \<times> error option) result \<times> 'w QueryState_scheme" where
  "BundlesForCluster ext c ctxLogger cluster st =
     (case getBundlesInScopeForCluster ext c ctxLogger cluster st of
        (Panics, st1) \<Rightarrow> (Panics, st1)
      | (Returns (bundles, Some err), st1) \<Rightarrow> (Returns ([], [], Some err), st1)
      | (Returns (bundles, None), st1) \<Rightarrow>
          (case bundlesLoop ext c ctxLogger cluster bundles ([], []) st1 of
             (r, st2) \<Rightarrow> (Returns r, st2)))"

subsection \<open>Notions for the statements about the query\<close>

text \<open>Whether the selector of a cluster group parses and matches the cluster's labels.\<close>

definition clusterGroupSelects ::
  "('sp, 'ls, 'm, 't) Ext \<Rightarrow> Cluster \<Rightarrow> 'ls ClusterGroup \<Rightarrow> bool" where
  "clusterGroupSelects ext cluster cg =
     (case cgSelector cg of
        None \<Rightarrow> False
      | Some selector \<Rightarrow>
          (case LabelSelectorAsSelector ext selector of
             Inl err \<Rightarrow> False
           | Inr sel \<Rightarrow> sel (clusterLabels cluster)))"

text \<open>
  The cluster-group label map of the cluster, stated on its own: a name is mapped to
  the labels of the cluster group of that name that the API server lists in the
  cluster's namespace and whose selector matches the cluster; of several such groups of
  one name, the one listed last.
\<close>

definition clusterGroupLabelMap ::
  "('sp, 'ls, 'm, 't) Ext \<Rightarrow> ('sp, 'ls) ApiServer \<Rightarrow> Cluster \<Rightarrow> (string \<rightharpoonup> labels)" where
  "clusterGroupLabelMap ext c cluster =
     map_of (rev (map (\<lambda>cg. (cgName cg, cgLabels cg))
                   (filter (clusterGroupSelects ext cluster)
                      (listClusterGroups c (clusterNamespace cluster)))))"

text \<open>
  \<open>None\<close> when no matcher can be built for the bundle; otherwise whether its matcher
  matches the cluster's name, cluster-group label map and labels.
\<close>

definition bundleMatches ::
  "('sp, 'ls, 'm, 't) Ext \<Rightarrow> ('sp, 'ls) ApiServer \<Rightarrow> Cluster \<Rightarrow> 'sp Bundle \<Rightarrow> bool option" where
  "bundleMatches ext c cluster bundle =
     (case matcher_New ext bundle of
        Inl err \<Rightarrow> None
      | Inr bm \<Rightarrow>
          Some (matcher_Match ext bm (clusterName cluster) (clusterGroupLabelMap ext c cluster)
                  (clusterLabels cluster) \<noteq> None))"

text \<open>The calls that a run added to the trace, and whether a \<open>List\<close> among them failed.\<close>

definition list_failed :: "(api_op \<times> error option) list \<Rightarrow> bool" where
  "list_failed calls \<longleftrightarrow> (\<exists>(operation, err) \<in> set calls. is_List operation \<and> err \<noteq> None)"

definition new_calls ::
  "'w QueryState_scheme \<Rightarrow> 'w QueryState_scheme \<Rightarrow> (api_op \<times> error option) list" where
  "new_calls st st' = drop (length (trace st)) (trace st')"

text \<open>Every key of the set has its bundle in the map, filed under the bundle's own key.\<close>

definition bundleSet_ok :: "'sp bundleSet \<Rightarrow> bool" where
  "bundleSet_ok b \<longleftrightarrow>
     finite (bundleKeys b) \<and>
     (\<forall>k \<in> bundleKeys b. \<exists>x. bundleMap b k = Some x \<and> bundleKey x = k)"

text \<open>
  A run from \<open>st\<close> to \<open>st'\<close> adds calls to the trace, and a \<open>List\<close> among them failed
  exactly when \<open>failed\<close>.
\<close>

definition query_step :: "'w QueryState_scheme \<Rightarrow> 'w QueryState_scheme \<Rightarrow> bool \<Rightarrow> bool" where
  "query_step st st' failed \<longleftrightarrow>
     (\<exists>new. trace st' = trace st @ new \<and> (failed \<longleftrightarrow> list_failed new))"

text \<open>
  The scope of a cluster, stated on its own, for a query of which no call fails. An agent
  bundle of another cluster is one that carries the agent annotation and is not named
  after this cluster. A mapping applies when both its selectors are present and parse,
  the cluster's namespace exists and its labels satisfy the namespace selector; it then
  contributes the bundles of its own namespace that satisfy its bundle selector. The
  candidates are the bundles of the cluster's namespace that are not agent bundles of
  another cluster, followed by the contributions of the mappings; the scope has one
  bundle per key \<open>namespace/name\<close>, the last candidate of that key, in ascending order
  of the keys.
\<close>

definition fault_free :: "'w QueryState_scheme \<Rightarrow> bool" where
  "fault_free st \<longleftrightarrow> (\<forall>f \<in> set (pending st). f = None)"

definition foreign_agent_bundle :: "Cluster \<Rightarrow> 'sp Bundle \<Rightarrow> bool" where
  "foreign_agent_bundle cluster b \<longleftrightarrow>
     label (bundleAnnotations b) ''objectset.rio.cattle.io/id'' = ''fleet-manage-agent'' \<and>
     bundleName b \<noteq> ''fleet-agent-'' @ clusterName cluster"

definition mapping_bundles ::
  "('sp, 'ls, 'm, 't) Ext \<Rightarrow> ('sp, 'ls) ApiServer \<Rightarrow> Cluster \<Rightarrow>
   'ls BundleNamespaceMapping \<Rightarrow> 'sp Bundle list" where
  "mapping_bundles ext c cluster mapping =
     (case (BundleSelector mapping, NamespaceSelector mapping) of
        (Some bsel, Some nsel) \<Rightarrow>
          (case (LabelSelectorAsSelector ext bsel, LabelSelectorAsSelector ext nsel) of
             (Inr bs, Inr ns) \<Rightarrow>
               (case getNamespace c (clusterNamespace cluster) of
                  Some obj \<Rightarrow>
                    if ns (namespaceLabels obj)
                    then listBundles c (mappingNamespace mapping) (Some bs)
                    else []
                | None \<Rightarrow> [])
           | _ \<Rightarrow> [])
      | _ \<Rightarrow> [])"

definition scope_candidates ::
  "('sp, 'ls, 'm, 't) Ext \<Rightarrow> ('sp, 'ls) ApiServer \<Rightarrow> Cluster \<Rightarrow> 'sp Bundle list" where
  "scope_candidates ext c cluster =
     filter (\<lambda>b. \<not> foreign_agent_bundle cluster b)
       (listBundles c (clusterNamespace cluster) None) @
     concat (map (mapping_bundles ext c cluster) (listBundleNamespaceMappings c))"

definition scope_of :: "'sp Bundle list \<Rightarrow> 'sp Bundle list" where
  "scope_of candidates =
     List.map_filter (map_of (rev (map (\<lambda>b. (bundleKey b, b)) candidates)))
       (sorted_list_of_set (bundleKey ` set candidates))"


text \<open>The bundle set after the bundles of a list have been inserted one by one.\<close>

definition inserted :: "'sp Bundle list \<Rightarrow> 'sp bundleSet \<Rightarrow> 'sp bundleSet" where
  "inserted xs b = foldl (\<lambda>s x. insertSingle x s) b xs"
section \<open>Concrete inputs\<close>

subsection \<open>A concrete history\<close>

definition wkey :: ResourceKey where
  "wkey = \<lparr>ResourceType = ''Bundle'', Namespace = ''fleet-default'', Name = ''b1''\<rparr>"

definition wcalls :: "tracker_call list" where
  "wcalls = [CallRecordEvent ''Bundle'' ''fleet-default'' ''b1'' EventTypeCreate,
             CallRecordTrigger ''Bundle'' ''fleet-default'' ''b1'' ''BundleDeployment'',
             CallRecordEvent ''Cluster'' ''fleet-default'' ''c1'' EventTypeStatusChange,
             CallRecordEvent ''Bundle'' ''fleet-default'' ''b1'' EventTypeStatusChange]"

definition worder :: "ResourceKey list" where
  "worder = [\<lparr>ResourceType = ''Cluster'', Namespace = ''fleet-default'', Name = ''c1''\<rparr>, wkey]"

subsection \<open>Objects, library and sinks\<close>

definition wlib :: "('sp, 'st, 'own, 'mf) Lib" where
  "wlib = \<lparr>Diff_spec = (\<lambda>a b. ''spec differs''),
           Diff_status = (\<lambda>a b. ''status differs''),
           Diff_finalizers = (\<lambda>a b. ''finalizers differ''),
           Diff_owners = (\<lambda>a b. ''owners differ''),
           Diff_labels = (\<lambda>a b. ''labels differ''),
           DeepEqual_status = (\<lambda>a b. a = b),
           DeepEqual_owners = (\<lambda>a b. a = b),
           DeepEqual_managed = (\<lambda>a b. a = b),
           MarshalIndent = (\<lambda>a. Inr ''{}'')\<rparr>"

abbreviation wlib_s :: "(string, string, string list, string list) Lib" where
  "wlib_s \<equiv> wlib"

definition wlogger :: Logger where
  "wlogger = \<lparr>loggerName = [], loggerValues = []\<rparr>"

definition wsinks :: Sinks where
  "wsinks = \<lparr>tracker = NewStatsTracker 0, logs = []\<rparr>"

definition no_filters :: EventTypeFilters where
  "no_filters = \<lparr>GenerationChange = False, StatusChange = False, AnnotationChange = False,
      LabelChange = False, ResourceVersionChange = False, Deletion = False, NotFound = False,
      Create = False, TriggeredByEvents = False\<rparr>"

definition only_status :: EventTypeFilters where
  "only_status = no_filters\<lparr>StatusChange := True\<rparr>"

definition wold :: "(string, string, string list, string list) Object" where
  "wold = \<lparr>objNamespace = ''fleet-default'', objName = ''b1'', Generation = 1,
           ResourceVersion = ''100'', Labels = Map.empty, Annotations = Map.empty,
           Finalizers = [], OwnerReferences = [], ManagedFields = [],
           DeletionTimestamp = None, Spec = ''spec-1'', Status = ''ready''\<rparr>"

definition wnew :: "(string, string, string list, string list) Object" where
  "wnew = wold\<lparr>Generation := 2, ResourceVersion := ''101'', Spec := ''spec-2'',
                Status := ''not-ready''\<rparr>"

definition wkey_b1 :: ResourceKey where
  "wkey_b1 = \<lparr>ResourceType = ''Bundle'', Namespace = ''fleet-default'', Name = ''b1''\<rparr>"

subsection \<open>Reconcilers with a filter on the namespace\<close>

definition wfilter :: ResourceFilter where
  "wfilter = \<lparr>NamespacePattern = ''^fleet-'', NamePattern = [],
              namespaceRegex = Some (\<lambda>s. take 6 s = ''fleet-''), nameRegex = None\<rparr>"

definition wreq :: NamespacedName where
  "wreq = \<lparr>nnNamespace = ''kube-system'', nnName = ''app''\<rparr>"

definition whelm :: "(unit HelmAppSpec_scheme, string, string list, string list) Object MonitorReconciler" where
  "whelm = \<lparr>Client = (\<lambda>k. Inl ErrNotFound), DetailedLogs = True,
            EventFilters = no_filters, Filter = Some wfilter\<rparr>"

definition wgit :: "(unit GitRepoSpec_scheme, unit GitRepoStatus_scheme, string list, string list) Object MonitorReconciler" where
  "wgit = \<lparr>Client = (\<lambda>k. Inl ErrNotFound), DetailedLogs = True,
           EventFilters = no_filters, Filter = Some wfilter\<rparr>"

definition wstate :: "'o ReconcilerState" where
  "wstate = \<lparr>tracker = NewStatsTracker 0, logs = [], heap = [], cache = NewObjectCache,
             fetched = []\<rparr>"

subsection \<open>A cluster, three bundles and two mappings\<close>

text \<open>
  Selectors and bundle specs are strings here: a selector \<open>s\<close> matches the labels with
  \<open>env = s\<close>, a bundle with spec \<open>s\<close> targets the clusters labelled \<open>env = s\<close>, and
  \<open>!!\<close> stands for a selector or a spec that does not parse.
\<close>

definition wext :: "(string, string, string, unit) Ext" where
  "wext = \<lparr>LabelSelectorAsSelector =
             (\<lambda>s. if s = ''!!'' then Inl (ErrOther ''invalid selector'')
                  else Inr (\<lambda>l. l ''env'' = Some s)),
           matcher_New =
             (\<lambda>b. if bundleSpec b = ''!!'' then Inl (ErrOther ''invalid targets'')
                  else Inr (bundleSpec b)),
           matcher_Match = (\<lambda>m n cgs l. if l ''env'' = Some m then Some () else None),
           selector_value = StrV\<rparr>"

definition wcluster :: Cluster where
  "wcluster = \<lparr>clusterNamespace = ''fleet-default'', clusterName = ''c1'',
               clusterLabels = [''env'' \<mapsto> ''prod'']\<rparr>"

definition wbundle :: "string \<Rightarrow> string \<Rightarrow> string Bundle" where
  "wbundle n spec = \<lparr>bundleNamespace = ''fleet-default'', bundleName = n,
                     bundleAnnotations = Map.empty, bundleLabels = Map.empty,
                     bundleSpec = spec\<rparr>"

definition wmapping_nil :: "string BundleNamespaceMapping" where
  "wmapping_nil = \<lparr>mappingNamespace = ''team-a'', mappingName = ''m1'',
                   BundleSelector = None, NamespaceSelector = Some ''prod''\<rparr>"

definition wmapping_bad :: "string BundleNamespaceMapping" where
  "wmapping_bad = \<lparr>mappingNamespace = ''team-b'', mappingName = ''m2'',
                   BundleSelector = Some ''!!'', NamespaceSelector = Some ''prod''\<rparr>"

definition wserver :: "(string, string) ApiServer" where
  "wserver = \<lparr>listBundles =
                (\<lambda>ns sel. if ns = ''fleet-default''
                          then [wbundle ''web'' ''prod'', wbundle ''api'' ''dev'',
                                wbundle ''db'' ''!!'']
                          else []),
              listBundleNamespaceMappings = [wmapping_nil, wmapping_bad],
              listClusterGroups = (\<lambda>ns. []),
              getNamespace = (\<lambda>n. Some \<lparr>namespaceLabels = Map.empty\<rparr>)\<rparr>"

definition wquery :: "error option list \<Rightarrow> QueryState" where
  "wquery faults = \<lparr>tracker = NewStatsTracker 0, logs = [], pending = faults, trace = []\<rparr>"

subsection \<open>A server with cluster groups and an applicable mapping\<close>

text \<open>
  Here a bundle with spec \<open>s\<close> also targets the clusters that belong to a cluster group
  named \<open>s\<close>. The cluster \<open>c1\<close> (labelled \<open>env = prod\<close>) belongs to the group \<open>blue\<close> and not
  to \<open>red\<close>; the mapping \<open>m3\<close> applies to its namespace and brings in the bundle \<open>shared\<close>
  of the namespace \<open>team-a\<close>, but not \<open>private\<close>, which its bundle selector rejects;
  \<open>fleet-agent-c2\<close> is the agent bundle of another cluster.
\<close>

definition wext2 :: "(string, string, string, unit) Ext" where
  "wext2 = wext\<lparr>matcher_Match :=
             (\<lambda>m n cgs l. if l ''env'' = Some m \<or> cgs m \<noteq> None then Some () else None)\<rparr>"

definition wagent_other :: "string Bundle" where
  "wagent_other = (wbundle ''fleet-agent-c2'' ''prod'')
     \<lparr>bundleAnnotations := [''objectset.rio.cattle.io/id'' \<mapsto> ''fleet-manage-agent'']\<rparr>"

definition wshared :: "string Bundle" where
  "wshared = (wbundle ''shared'' ''prod'')
     \<lparr>bundleNamespace := ''team-a'', bundleLabels := [''env'' \<mapsto> ''prod'']\<rparr>"

definition wprivate :: "string Bundle" where
  "wprivate = (wbundle ''private'' ''prod'')
     \<lparr>bundleNamespace := ''team-a'', bundleLabels := [''env'' \<mapsto> ''dev'']\<rparr>"

definition wmapping_ok :: "string BundleNamespaceMapping" where
  "wmapping_ok = \<lparr>mappingNamespace = ''team-a'', mappingName = ''m3'',
                  BundleSelector = Some ''prod'', NamespaceSelector = Some ''prod''\<rparr>"

definition wgroup_blue :: "string ClusterGroup" where
  "wgroup_blue = \<lparr>cgNamespace = ''fleet-default'', cgName = ''blue'',
                  cgLabels = [''tier'' \<mapsto> ''gold''], cgSelector = Some ''prod''\<rparr>"

definition wgroup_red :: "string ClusterGroup" where
  "wgroup_red = \<lparr>cgNamespace = ''fleet-default'', cgName = ''red'',
                 cgLabels = [''tier'' \<mapsto> ''iron''], cgSelector = Some ''dev''\<rparr>"

definition wserver2 :: "(string, string) ApiServer" where
  "wserver2 = \<lparr>listBundles =
                 (\<lambda>ns sel.
                    if ns = ''fleet-default''
                    then [wbundle ''web'' ''prod'', wbundle ''api'' ''dev'',
                          wbundle ''grp'' ''blue'', wbundle ''old'' ''red'', wagent_other]
                    else if ns = ''team-a''
                    then filter (\<lambda>b. case sel of None \<Rightarrow> True | Some s \<Rightarrow> s (bundleLabels b))
                           [wshared, wprivate]
                    else []),
               listBundleNamespaceMappings = [wmapping_nil, wmapping_bad, wmapping_ok],
               listClusterGroups =
                 (\<lambda>ns. if ns = ''fleet-default'' then [wgroup_blue, wgroup_red] else []),
               getNamespace =
                 (\<lambda>n. if n = ''fleet-default''
                      then Some \<lparr>namespaceLabels = [''env'' \<mapsto> ''prod'']\<rparr>
                      else None)\<rparr>"

section \<open>Properties of the resource filter\<close>

text \<open>
  C7. \<open>ResourceFilter.Matches\<close> returns true for every (namespace, name) pair when the
  filter is nil, and also when both the namespace pattern and the name pattern are the
  empty string (whatever the compiled regexps are).
\<close>

theorem Matches_nil_or_empty_patterns:
  "Matches None namespace name \<and>
   (NamespacePattern f = [] \<and> NamePattern f = [] \<longrightarrow> Matches (Some f) namespace name)"
  by (simp add: Matches_def)

theorem Matches_nil_or_empty_patterns_witness:
  "Matches None ''fleet-default'' ''app'' \<and>
   Matches (Some \<lparr>NamespacePattern = [], NamePattern = [],
                  namespaceRegex = None, nameRegex = Some (\<lambda>s. False)\<rparr>) ''fleet-default'' ''app''"
  using Matches_nil_or_empty_patterns
    [where f = "\<lparr>NamespacePattern = [], NamePattern = [],
          namespaceRegex = None, nameRegex = Some (\<lambda>s. False)\<rparr>"
       and namespace = "''fleet-default''" and name = "''app''"]
  by simp

text \<open>
  C10. A non-nil filter with a non-empty namespace pattern or a non-empty name pattern
  whose compiled regexps are both nil (\<open>Compile\<close> was never called on it) matches no
  (namespace, name) pair.
\<close>

theorem Matches_uncompiled_rejects:
  "NamespacePattern f \<noteq> [] \<or> NamePattern f \<noteq> [] \<Longrightarrow>
   namespaceRegex f = None \<Longrightarrow> nameRegex f = None \<Longrightarrow>
   \<not> Matches (Some f) namespace name"
  by (auto simp: Matches_def Let_def)

theorem Matches_uncompiled_rejects_witness:
  "\<not> Matches (Some \<lparr>NamespacePattern = ''fleet-.*'', NamePattern = [],
                    namespaceRegex = None, nameRegex = None\<rparr>) ''fleet-default'' ''app''"
  using Matches_uncompiled_rejects
    [where f = "\<lparr>NamespacePattern = ''fleet-.*'', NamePattern = [],
          namespaceRegex = None, nameRegex = None\<rparr>"
       and namespace = "''fleet-default''" and name = "''app''"]
  by simp

section \<open>Properties of the statistics aggregator\<close>

lemma total_of_apply_call:
  "total_of (apply_call s c) key =
     total_of s key + (if is_event_for key c \<or> is_trigger_for key c then 1 else 0)"
  by (cases c)
     (auto simp: total_of_def RecordEvent_def RecordTrigger_def UpdateLastSummaryTime_def
                 Let_def newResourceStats_def split: option.splits)

lemma dom_apply_call:
  "key \<in> dom (stats (apply_call s c)) \<longleftrightarrow>
     key \<in> dom (stats s) \<or> is_event_for key c \<or> is_trigger_for key c"
  by (cases c)
     (auto simp: RecordEvent_def RecordTrigger_def UpdateLastSummaryTime_def Let_def)

lemma not_event_and_trigger: "is_trigger_for key c \<Longrightarrow> \<not> is_event_for key c"
  by (cases c) auto

lemma total_of_run:
  "total_of (run calls s) key =
     total_of s key + of_nat (events_for key calls + triggers_for key calls)"
  unfolding run_def events_for_def triggers_for_def
  by (induction calls arbitrary: s) (auto simp: total_of_apply_call not_event_and_trigger)

lemma dom_run:
  "key \<in> dom (stats (run calls s)) \<longleftrightarrow>
     key \<in> dom (stats s) \<or> 0 < events_for key calls + triggers_for key calls"
  unfolding run_def events_for_def triggers_for_def
  by (induction calls arbitrary: s) (auto simp: dom_apply_call)

lemma GetSummary_loop_entry:
  "\<forall>k' \<in> set keys. same_entry key k' \<longrightarrow> k' = key \<Longrightarrow>
   grouped_entry (fst (GetSummary_loop keys m (grouped, t))) key =
     (if key \<in> set keys \<and> m key \<noteq> None then m key else grouped_entry grouped key)"
proof (induction keys arbitrary: grouped t)
  case Nil
  then show ?case by simp
next
  case (Cons k keys)
  show ?case
  proof (cases "m k")
    case None
    with Cons show ?thesis by auto
  next
    case (Some st)
    let ?inner = "case grouped (ResourceType k) of None \<Rightarrow> Map.empty | Some i \<Rightarrow> i"
    let ?g = "grouped(ResourceType k \<mapsto> ?inner(ResourceKey_String k \<mapsto>
                \<lparr>Counts = Counts st, TriggeredBy = TriggeredBy st, Total = Total st\<rparr>))"
    have step: "grouped_entry ?g key = (if k = key then Some st else grouped_entry grouped key)"
      using Cons.prems
      by (auto simp: grouped_entry_def same_entry_def split: option.splits)
    have "grouped_entry (fst (GetSummary_loop (k # keys) m (grouped, t))) key =
          grouped_entry (fst (GetSummary_loop keys m (?g, t + Total st))) key"
      using Some by (simp add: Let_def)
    also have "\<dots> = (if key \<in> set keys \<and> m key \<noteq> None then m key else grouped_entry ?g key)"
      using Cons.prems by (intro Cons.IH) simp
    finally show ?thesis using step Some by auto
  qed
qed

lemma sint_int64_of_nat:
  fixes n :: nat
  assumes "n < 2 ^ 63"
  shows "sint (of_nat n :: int64) = int n"
proof -
  have "int n < 2 ^ 63" using assms by (metis of_nat_less_numeral_power_cancel_iff)
  then show ?thesis
    by (simp add: signed_of_nat signed_take_bit_int_eq_self)
qed


lemma split_at_last:
  "us @ c # vs = us' @ c # vs' \<Longrightarrow> c \<notin> set vs \<Longrightarrow> c \<notin> set vs' \<Longrightarrow> us = us' \<and> vs = vs'"
proof (induction us arbitrary: us')
  case Nil
  then show ?case by (cases us') auto
next
  case (Cons u us)
  then show ?case by (cases us') auto
qed

lemma same_entry_kubernetes:
  assumes "same_entry k k'" "kubernetes_name (Name k)" "kubernetes_name (Name k')"
  shows "k = k'"
proof -
  have rt: "ResourceType k = ResourceType k'" and
       str: "ResourceKey_String k = ResourceKey_String k'"
    using assms(1) by (simp_all add: same_entry_def)
  have n: "CHR ''/'' \<notin> set (Name k)" "CHR ''/'' \<notin> set (Name k')"
    using assms(2,3) by (simp_all add: kubernetes_name_def)
  consider (a) "Namespace k = []" "Namespace k' = []"
    | (b) "Namespace k = []" "Namespace k' \<noteq> []"
    | (c) "Namespace k \<noteq> []" "Namespace k' = []"
    | (d) "Namespace k \<noteq> []" "Namespace k' \<noteq> []"
    by blast
  then have "Namespace k = Namespace k' \<and> Name k = Name k'"
  proof cases
    case a
    then show ?thesis using str by (simp add: ResourceKey_String_def)
  next
    case b
    then have "Name k = Namespace k' @ CHR ''/'' # Name k'"
      using str by (simp add: ResourceKey_String_def)
    then have "CHR ''/'' \<in> set (Name k)" by simp
    then show ?thesis using n by simp
  next
    case c
    then have "Name k' = Namespace k @ CHR ''/'' # Name k"
      using str by (simp add: ResourceKey_String_def)
    then have "CHR ''/'' \<in> set (Name k')" by simp
    then show ?thesis using n by simp
  next
    case d
    then have "Namespace k @ CHR ''/'' # Name k = Namespace k' @ CHR ''/'' # Name k'"
      using str by (simp add: ResourceKey_String_def)
    then show ?thesis using n by (rule split_at_last)
  qed
  with rt show ?thesis by simp
qed

lemma dom_apply_call_key:
  "k \<in> dom (stats (apply_call s c)) \<Longrightarrow> k \<in> dom (stats s) \<or> call_key c = Some k"
  by (cases c)
     (auto simp: RecordEvent_def RecordTrigger_def UpdateLastSummaryTime_def Let_def
           split: if_splits)

lemma dom_run_key:
  "k \<in> dom (stats (run calls s)) \<Longrightarrow>
   k \<in> dom (stats s) \<or> (\<exists>c \<in> set calls. call_key c = Some k)"
  unfolding run_def
proof (induction calls arbitrary: s)
  case Nil
  then show ?case by simp
next
  case (Cons c calls)
  from Cons.IH [of "apply_call s c"] Cons.prems
  have "k \<in> dom (stats (apply_call s c)) \<or> (\<exists>c \<in> set calls. call_key c = Some k)"
    by simp
  then show ?case using dom_apply_call_key [of k s c] by auto
qed

lemma no_collision_own:
  "\<forall>c \<in> set calls. call_key c = Some key \<or> call_key c = None \<Longrightarrow> no_collision key calls"
  by (auto simp: no_collision_def)

lemma no_collision_kubernetes:
  "kubernetes_names calls \<Longrightarrow> kubernetes_name (Name key) \<Longrightarrow> no_collision key calls"
  unfolding no_collision_def kubernetes_names_def
  using same_entry_kubernetes by blast

text \<open>
  C2. Starting from a fresh tracker (or right after a \<open>Reset\<close>), after any history of
  calls of which \<open>n\<close> are \<open>RecordEvent\<close> calls and \<open>m\<close> are \<open>RecordTrigger\<close> calls for a
  key, \<open>GetSummary\<close> shows for that resource a \<open>total_events\<close> of \<open>n + m\<close>: the \<open>int64\<close>
  counter holds \<open>n + m\<close>, which reads back as \<open>n + m\<close> below \<open>2^63\<close>; a resource that was
  never recorded has no entry. The history may hold calls for other resources as long
  as none of them shares the summary entry of the key (none does when the names are
  those of Kubernetes objects), and the loop of \<open>GetSummary\<close> may visit the map in any
  order.
\<close>

theorem total_events_counts_calls:
  assumes fresh: "start = NewStatsTracker tinit \<or> start = Reset tinit s'"
      and order: "iteration_order order (run calls start)"
      and others: "no_collision key calls"
  shows "(events_for key calls + triggers_for key calls = 0 \<longrightarrow>
            Summary_entry (GetSummary order now (run calls start)) key = None) \<and>
         (0 < events_for key calls + triggers_for key calls \<longrightarrow>
            (\<exists>st. Summary_entry (GetSummary order now (run calls start)) key = Some st \<and>
                  Total st = of_nat (events_for key calls + triggers_for key calls) \<and>
                  (events_for key calls + triggers_for key calls < 2 ^ 63 \<longrightarrow>
                     sint (Total st) = int (events_for key calls + triggers_for key calls))))"
proof -
  let ?s = "run calls start"
  let ?n = "events_for key calls + triggers_for key calls"
  have empty: "stats start = Map.empty"
    using fresh by (auto simp: NewStatsTracker_def Reset_def)
  have nocoll: "\<forall>k' \<in> set order. same_entry key k' \<longrightarrow> k' = key"
  proof (intro ballI impI)
    fix k' assume "k' \<in> set order" and se: "same_entry key k'"
    then have "k' \<in> dom (stats ?s)" using order by (simp add: iteration_order_def)
    then obtain c where "c \<in> set calls" "call_key c = Some k'"
      using dom_run_key [of k' calls start] empty by auto
    then show "k' = key" using others se by (auto simp: no_collision_def)
  qed
  have keys: "set order = dom (stats ?s)" using order by (simp add: iteration_order_def)
  have entry: "Summary_entry (GetSummary order now ?s) key = stats ?s key"
  proof -
    have "Summary_entry (GetSummary order now ?s) key =
          grouped_entry (fst (GetSummary_loop order (stats ?s) (Map.empty, 0))) key"
      by (simp add: Summary_entry_def GetSummary_def grouped_entry_def Let_def split: prod.splits)
    also have "\<dots> = stats ?s key"
      using keys by (subst GetSummary_loop_entry [OF nocoll]) (auto simp: grouped_entry_def)
    finally show ?thesis .
  qed
  have tot: "total_of ?s key = of_nat ?n"
    using total_of_run [of calls start key] empty by (simp add: total_of_def)
  have zero: "?n = 0 \<longrightarrow> Summary_entry (GetSummary order now ?s) key = None"
    using dom_run [of key calls start] empty entry by auto
  have pos: "0 < ?n \<longrightarrow> (\<exists>st. Summary_entry (GetSummary order now ?s) key = Some st \<and>
                  Total st = of_nat ?n \<and> (?n < 2 ^ 63 \<longrightarrow> sint (Total st) = int ?n))"
  proof
    assume "0 < ?n"
    then have "key \<in> dom (stats ?s)" by (simp add: dom_run)
    then obtain st where st: "stats ?s key = Some st" by auto
    then have "Total st = of_nat ?n" using tot by (simp add: total_of_def)
    moreover have "?n < 2 ^ 63 \<longrightarrow> sint (of_nat ?n :: int64) = int ?n"
      using sint_int64_of_nat by blast
    ultimately show "\<exists>st. Summary_entry (GetSummary order now ?s) key = Some st \<and>
                  Total st = of_nat ?n \<and> (?n < 2 ^ 63 \<longrightarrow> sint (Total st) = int ?n)"
      using entry st by simp
  qed
  from zero pos show ?thesis by blast
qed


theorem total_events_counts_calls_witness:
  "iteration_order worder (run wcalls (NewStatsTracker 0)) \<and>
   no_collision wkey wcalls \<and>
   events_for wkey wcalls = 2 \<and> triggers_for wkey wcalls = 1 \<and>
   (\<exists>st. Summary_entry (GetSummary worder 30 (run wcalls (NewStatsTracker 0))) wkey = Some st \<and>
         sint (Total st) = 3)"
proof -
  have "dom (stats (run wcalls (NewStatsTracker 0))) = set worder"
    by (simp add: worder_def wkey_def wcalls_def run_def RecordEvent_def
                   RecordTrigger_def NewStatsTracker_def Let_def insert_commute)
  then have o: "iteration_order worder (run wcalls (NewStatsTracker 0))"
    by (simp add: iteration_order_def) (simp add: worder_def wkey_def)
  have n: "no_collision wkey wcalls"
    by (simp add: no_collision_def same_entry_def wcalls_def wkey_def)
  have c: "events_for wkey wcalls = 2" "triggers_for wkey wcalls = 1"
    by (simp_all add: events_for_def triggers_for_def wcalls_def wkey_def)
  from total_events_counts_calls
         [where start = "NewStatsTracker 0" and tinit = 0 and now = 30, OF _ o n]
  show ?thesis using o n c by auto
qed

section \<open>Properties of change detection\<close>

lemma tracker_Info [simp]: "tracker (Info lg msg kvs w) = tracker w"
  by (simp add: Info_def)

lemma tracker_Error [simp]: "tracker (Error lg e msg kvs w) = tracker w"
  by (simp add: Error_def)

lemma tracker_recordEvent [simp]:
  "tracker (recordEvent rt ns n ev w) = RecordEvent rt ns n ev (tracker w)"
  by (simp add: recordEvent_def)

lemma logs_recordEvent [simp]: "logs (recordEvent rt ns n ev w) = logs w"
  by (simp add: recordEvent_def)

lemma tracker_logSpecChange:
  "tracker (logSpecChange lib lg d F rt ns n oldSpec newSpec oldGen newGen w) =
     (if oldGen = newGen then tracker w
      else RecordEvent rt ns n EventTypeGenerationChange (tracker w))"
  by (simp add: logSpecChange_def Let_def)

lemma tracker_logStatusChange:
  "tracker (logStatusChange lib lg d F rt ns n oldStatus newStatus w) =
     (if DeepEqual_status lib oldStatus newStatus then tracker w
      else RecordEvent rt ns n EventTypeStatusChange (tracker w))"
  by (simp add: logStatusChange_def Let_def split: sum.splits prod.splits)

lemma tracker_logResourceVersionChangeWithMetadata:
  "tracker (logResourceVersionChangeWithMetadata lib lg d F rt ns n old new w) =
     (if ResourceVersion old = ResourceVersion new then tracker w
      else RecordEvent rt ns n EventTypeResourceVersionChange (tracker w))"
  by (simp add: logResourceVersionChangeWithMetadata_def Let_def split: prod.splits)

lemma tracker_logAnnotationChange:
  "tracker (logAnnotationChange lib lg d F rt ns n old new w) =
     (if old = new then tracker w
      else RecordEvent rt ns n EventTypeAnnotationChange (tracker w))"
  by (simp add: logAnnotationChange_def Let_def)

lemma tracker_logLabelChange:
  "tracker (logLabelChange lib lg d F rt ns n old new w) =
     (if old = new then tracker w
      else RecordEvent rt ns n EventTypeLabelChange (tracker w))"
  by (simp add: logLabelChange_def Let_def)

lemma tracker_logDeletion:
  "tracker (logDeletion lg d F rt ns n ts w) = RecordEvent rt ns n EventTypeDeletion (tracker w)"
  by (simp add: logDeletion_def Let_def)

lemma tracker_logNotFound:
  "tracker (logNotFound lg d F rt ns n w) = RecordEvent rt ns n EventTypeNotFound (tracker w)"
  by (simp add: logNotFound_def Let_def)

lemma tracker_logCreate:
  "tracker (logCreate lg d F rt ns n g rv w) = RecordEvent rt ns n EventTypeCreate (tracker w)"
  by (simp add: logCreate_def Let_def)

lemmas tracker_log =
  tracker_logSpecChange tracker_logStatusChange tracker_logResourceVersionChangeWithMetadata
  tracker_logAnnotationChange tracker_logLabelChange tracker_logDeletion tracker_logNotFound
  tracker_logCreate

lemma logs_logSpecChange:
  "\<not> (d \<and> F EventTypeGenerationChange) \<Longrightarrow>
   logs (logSpecChange lib lg d F rt ns n oldSpec newSpec oldGen newGen w) = logs w"
  by (auto simp: logSpecChange_def Let_def)

lemma logs_logStatusChange:
  "\<not> (d \<and> F EventTypeStatusChange) \<Longrightarrow>
   logs (logStatusChange lib lg d F rt ns n oldStatus newStatus w) = logs w"
  by (auto simp: logStatusChange_def Let_def)

lemma logs_logResourceVersionChangeWithMetadata:
  "\<not> (d \<and> F EventTypeResourceVersionChange) \<Longrightarrow>
   logs (logResourceVersionChangeWithMetadata lib lg d F rt ns n old new w) = logs w"
  by (auto simp: logResourceVersionChangeWithMetadata_def Let_def)

lemma logs_logAnnotationChange:
  "\<not> (d \<and> F EventTypeAnnotationChange) \<Longrightarrow>
   logs (logAnnotationChange lib lg d F rt ns n old new w) = logs w"
  by (auto simp: logAnnotationChange_def Let_def)

lemma logs_logLabelChange:
  "\<not> (d \<and> F EventTypeLabelChange) \<Longrightarrow>
   logs (logLabelChange lib lg d F rt ns n old new w) = logs w"
  by (auto simp: logLabelChange_def Let_def)

lemma logs_logDeletion:
  "\<not> (d \<and> F EventTypeDeletion) \<Longrightarrow> logs (logDeletion lg d F rt ns n ts w) = logs w"
  by (auto simp: logDeletion_def Let_def)

lemma logs_logNotFound:
  "\<not> (d \<and> F EventTypeNotFound) \<Longrightarrow> logs (logNotFound lg d F rt ns n w) = logs w"
  by (auto simp: logNotFound_def Let_def)

lemma logs_logCreate:
  "\<not> (d \<and> F EventTypeCreate) \<Longrightarrow> logs (logCreate lg d F rt ns n g rv w) = logs w"
  by (auto simp: logCreate_def Let_def)

lemma tracker_detectChanges:
  "tracker (detectChanges lib lg d1 F1 rt old new w) =
   tracker (detectChanges lib lg d2 F2 rt old new w)"
  by (simp add: detectChanges_def Let_def tracker_log)

text \<open>
  C3. The statistics recorded by a detection function do not depend on the logging
  configuration: two runs on the same arguments and the same sinks that differ only in
  \<open>detailedLogs\<close> and in the event-type filters leave the same tracker. This holds for
  each of the eight functions that record an event kind and for the whole detection
  sequence of a reconcile. A function writes a log line only when \<open>detailedLogs\<close> is
  true and the filter allows its kind.
\<close>

theorem statistics_independent_of_logging:
  "tracker (logSpecChange lib lg d1 (ShouldLog f1) rt ns n oldSpec newSpec oldGen newGen w) =
   tracker (logSpecChange lib lg d2 (ShouldLog f2) rt ns n oldSpec newSpec oldGen newGen w) \<and>
   tracker (logStatusChange lib lg d1 (ShouldLog f1) rt ns n oldStatus newStatus w) =
   tracker (logStatusChange lib lg d2 (ShouldLog f2) rt ns n oldStatus newStatus w) \<and>
   tracker (logResourceVersionChangeWithMetadata lib lg d1 (ShouldLog f1) rt ns n old new w) =
   tracker (logResourceVersionChangeWithMetadata lib lg d2 (ShouldLog f2) rt ns n old new w) \<and>
   tracker (logAnnotationChange lib lg d1 (ShouldLog f1) rt ns n oldLabels newLabels w) =
   tracker (logAnnotationChange lib lg d2 (ShouldLog f2) rt ns n oldLabels newLabels w) \<and>
   tracker (logLabelChange lib lg d1 (ShouldLog f1) rt ns n oldLabels newLabels w) =
   tracker (logLabelChange lib lg d2 (ShouldLog f2) rt ns n oldLabels newLabels w) \<and>
   tracker (logDeletion lg d1 (ShouldLog f1) rt ns n ts w) =
   tracker (logDeletion lg d2 (ShouldLog f2) rt ns n ts w) \<and>
   tracker (logNotFound lg d1 (ShouldLog f1) rt ns n w) =
   tracker (logNotFound lg d2 (ShouldLog f2) rt ns n w) \<and>
   tracker (logCreate lg d1 (ShouldLog f1) rt ns n g rv w) =
   tracker (logCreate lg d2 (ShouldLog f2) rt ns n g rv w) \<and>
   tracker (detectChanges lib lg d1 (ShouldLog f1) rt old new w) =
   tracker (detectChanges lib lg d2 (ShouldLog f2) rt old new w) \<and>
   (logs (logSpecChange lib lg d1 (ShouldLog f1) rt ns n oldSpec newSpec oldGen newGen w) \<noteq> logs w
      \<longrightarrow> d1 \<and> ShouldLog f1 EventTypeGenerationChange) \<and>
   (logs (logStatusChange lib lg d1 (ShouldLog f1) rt ns n oldStatus newStatus w) \<noteq> logs w
      \<longrightarrow> d1 \<and> ShouldLog f1 EventTypeStatusChange) \<and>
   (logs (logResourceVersionChangeWithMetadata lib lg d1 (ShouldLog f1) rt ns n old new w) \<noteq> logs w
      \<longrightarrow> d1 \<and> ShouldLog f1 EventTypeResourceVersionChange) \<and>
   (logs (logAnnotationChange lib lg d1 (ShouldLog f1) rt ns n oldLabels newLabels w) \<noteq> logs w
      \<longrightarrow> d1 \<and> ShouldLog f1 EventTypeAnnotationChange) \<and>
   (logs (logLabelChange lib lg d1 (ShouldLog f1) rt ns n oldLabels newLabels w) \<noteq> logs w
      \<longrightarrow> d1 \<and> ShouldLog f1 EventTypeLabelChange) \<and>
   (logs (logDeletion lg d1 (ShouldLog f1) rt ns n ts w) \<noteq> logs w
      \<longrightarrow> d1 \<and> ShouldLog f1 EventTypeDeletion) \<and>
   (logs (logNotFound lg d1 (ShouldLog f1) rt ns n w) \<noteq> logs w
      \<longrightarrow> d1 \<and> ShouldLog f1 EventTypeNotFound) \<and>
   (logs (logCreate lg d1 (ShouldLog f1) rt ns n g rv w) \<noteq> logs w
      \<longrightarrow> d1 \<and> ShouldLog f1 EventTypeCreate)"
proof -
  have a1: "tracker (logSpecChange lib lg d1 (ShouldLog f1) rt ns n oldSpec newSpec oldGen newGen w) =
   tracker (logSpecChange lib lg d2 (ShouldLog f2) rt ns n oldSpec newSpec oldGen newGen w)"
    by (simp only: tracker_logSpecChange)
  have a2: "tracker (logStatusChange lib lg d1 (ShouldLog f1) rt ns n oldStatus newStatus w) =
   tracker (logStatusChange lib lg d2 (ShouldLog f2) rt ns n oldStatus newStatus w)"
    by (simp only: tracker_logStatusChange)
  have a3: "tracker (logResourceVersionChangeWithMetadata lib lg d1 (ShouldLog f1) rt ns n old new w) =
   tracker (logResourceVersionChangeWithMetadata lib lg d2 (ShouldLog f2) rt ns n old new w)"
    by (simp only: tracker_logResourceVersionChangeWithMetadata)
  have a4: "tracker (logAnnotationChange lib lg d1 (ShouldLog f1) rt ns n oldLabels newLabels w) =
   tracker (logAnnotationChange lib lg d2 (ShouldLog f2) rt ns n oldLabels newLabels w)"
    by (simp only: tracker_logAnnotationChange)
  have a5: "tracker (logLabelChange lib lg d1 (ShouldLog f1) rt ns n oldLabels newLabels w) =
   tracker (logLabelChange lib lg d2 (ShouldLog f2) rt ns n oldLabels newLabels w)"
    by (simp only: tracker_logLabelChange)
  have a6: "tracker (logDeletion lg d1 (ShouldLog f1) rt ns n ts w) =
   tracker (logDeletion lg d2 (ShouldLog f2) rt ns n ts w)"
    by (simp only: tracker_logDeletion)
  have a7: "tracker (logNotFound lg d1 (ShouldLog f1) rt ns n w) =
   tracker (logNotFound lg d2 (ShouldLog f2) rt ns n w)"
    by (simp only: tracker_logNotFound)
  have a8: "tracker (logCreate lg d1 (ShouldLog f1) rt ns n g rv w) =
   tracker (logCreate lg d2 (ShouldLog f2) rt ns n g rv w)"
    by (simp only: tracker_logCreate)
  have a9: "tracker (detectChanges lib lg d1 (ShouldLog f1) rt old new w) =
   tracker (detectChanges lib lg d2 (ShouldLog f2) rt old new w)"
    by (rule tracker_detectChanges)
  have b1: "logs (logSpecChange lib lg d1 (ShouldLog f1) rt ns n oldSpec newSpec oldGen newGen w) \<noteq> logs w
      \<longrightarrow> d1 \<and> ShouldLog f1 EventTypeGenerationChange"
    by (rule impI, rule ccontr) (simp add: logs_logSpecChange)
  have b2: "logs (logStatusChange lib lg d1 (ShouldLog f1) rt ns n oldStatus newStatus w) \<noteq> logs w
      \<longrightarrow> d1 \<and> ShouldLog f1 EventTypeStatusChange"
    by (rule impI, rule ccontr) (simp add: logs_logStatusChange)
  have b3: "logs (logResourceVersionChangeWithMetadata lib lg d1 (ShouldLog f1) rt ns n old new w) \<noteq> logs w
      \<longrightarrow> d1 \<and> ShouldLog f1 EventTypeResourceVersionChange"
    by (rule impI, rule ccontr)
       (simp add: logs_logResourceVersionChangeWithMetadata)
  have b4: "logs (logAnnotationChange lib lg d1 (ShouldLog f1) rt ns n oldLabels newLabels w) \<noteq> logs w
      \<longrightarrow> d1 \<and> ShouldLog f1 EventTypeAnnotationChange"
    by (rule impI, rule ccontr) (simp add: logs_logAnnotationChange)
  have b5: "logs (logLabelChange lib lg d1 (ShouldLog f1) rt ns n oldLabels newLabels w) \<noteq> logs w
      \<longrightarrow> d1 \<and> ShouldLog f1 EventTypeLabelChange"
    by (rule impI, rule ccontr) (simp add: logs_logLabelChange)
  have b6: "logs (logDeletion lg d1 (ShouldLog f1) rt ns n ts w) \<noteq> logs w
      \<longrightarrow> d1 \<and> ShouldLog f1 EventTypeDeletion"
    by (rule impI, rule ccontr) (simp add: logs_logDeletion)
  have b7: "logs (logNotFound lg d1 (ShouldLog f1) rt ns n w) \<noteq> logs w
      \<longrightarrow> d1 \<and> ShouldLog f1 EventTypeNotFound"
    by (rule impI, rule ccontr) (simp add: logs_logNotFound)
  have b8: "logs (logCreate lg d1 (ShouldLog f1) rt ns n g rv w) \<noteq> logs w
      \<longrightarrow> d1 \<and> ShouldLog f1 EventTypeCreate"
    by (rule impI, rule ccontr) (simp add: logs_logCreate)
  from a1 a2 a3 a4 a5 a6 a7 a8 a9 b1 b2 b3 b4 b5 b6 b7 b8 show ?thesis
    by (intro conjI)
qed



theorem statistics_independent_of_logging_witness:
  "tracker (logStatusChange wlib_s wlogger True (ShouldLog only_status) ''Bundle'' ''fleet-default''
              ''b1'' (Status wold) (Status wnew) wsinks) =
   tracker (logStatusChange wlib_s wlogger False (ShouldLog no_filters) ''Bundle'' ''fleet-default''
              ''b1'' (Status wold) (Status wnew) wsinks) \<and>
   logs (logStatusChange wlib_s wlogger True (ShouldLog only_status) ''Bundle'' ''fleet-default''
              ''b1'' (Status wold) (Status wnew) wsinks) \<noteq> logs wsinks \<and>
   ShouldLog only_status EventTypeStatusChange \<and>
   \<not> ShouldLog only_status EventTypeGenerationChange \<and>
   logs (logSpecChange wlib_s wlogger True (ShouldLog only_status) ''Bundle'' ''fleet-default''
              ''b1'' (Spec wold) (Spec wnew) (Generation wold) (Generation wnew) wsinks) =
     logs wsinks"
proof -
  have s: "ShouldLog only_status EventTypeStatusChange"
          "\<not> ShouldLog only_status EventTypeGenerationChange"
    by (simp_all add: ShouldLog_def IsEmpty_def only_status_def no_filters_def EventType_defs)
  have l: "logs (logStatusChange wlib_s wlogger True (ShouldLog only_status) ''Bundle''
              ''fleet-default'' ''b1'' (Status wold) (Status wnew) wsinks) \<noteq> logs wsinks"
    using s(1) by (simp add: logStatusChange_def wlib_def wold_def wnew_def Let_def Info_def)
  note T = statistics_independent_of_logging
         [where lib = wlib_s and lg = wlogger and ?d1.0 = True and ?d2.0 = False
            and ?f1.0 = only_status and ?f2.0 = no_filters and rt = "''Bundle''"
            and ns = "''fleet-default''" and n = "''b1''"
            and oldStatus = "Status wold" and newStatus = "Status wnew"
            and oldSpec = "Spec wold" and newSpec = "Spec wnew"
            and oldGen = "Generation wold" and newGen = "Generation wnew" and w = wsinks
            and old = wold and new = wnew and oldLabels = "Labels wold"
            and newLabels = "Labels wnew" and ts = "TimeV 0" and g = 1 and rv = "''100''"]
  have a: "tracker (logStatusChange wlib_s wlogger True (ShouldLog only_status) ''Bundle''
              ''fleet-default'' ''b1'' (Status wold) (Status wnew) wsinks) =
           tracker (logStatusChange wlib_s wlogger False (ShouldLog no_filters) ''Bundle''
              ''fleet-default'' ''b1'' (Status wold) (Status wnew) wsinks)"
    using T by (elim conjE)
  have b: "logs (logSpecChange wlib_s wlogger True (ShouldLog only_status) ''Bundle''
              ''fleet-default'' ''b1'' (Spec wold) (Spec wnew) (Generation wold)
              (Generation wnew) wsinks) \<noteq> logs wsinks
           \<longrightarrow> True \<and> ShouldLog only_status EventTypeGenerationChange"
    using T by (elim conjE)
  from b s(2) have "logs (logSpecChange wlib_s wlogger True (ShouldLog only_status) ''Bundle''
              ''fleet-default'' ''b1'' (Spec wold) (Spec wnew) (Generation wold)
              (Generation wnew) wsinks) = logs wsinks"
    by blast
  with a s l show ?thesis by simp
qed

lemma event_count_RecordEvent:
  "event_count (RecordEvent rt ns n ev s) key ev' =
     event_count s key ev' +
       (if key = \<lparr>ResourceType = rt, Namespace = ns, Name = n\<rparr> \<and> ev' = ev then 1 else 0)"
  by (auto simp: event_count_def RecordEvent_def Let_def incr_def newResourceStats_def
           split: option.splits)

lemma EventType_distinct:
  "EventTypeGenerationChange \<noteq> EventTypeResourceVersionChange"
  "EventTypeStatusChange \<noteq> EventTypeResourceVersionChange"
  "EventTypeAnnotationChange \<noteq> EventTypeResourceVersionChange"
  "EventTypeLabelChange \<noteq> EventTypeResourceVersionChange"
  by (simp_all add: EventType_defs)

text \<open>
  C4. \<open>logResourceVersionChangeWithMetadata\<close> records a ResourceVersionChange event
  exactly when the two resource-version strings differ, whatever else differs between
  the objects; and over the whole detection sequence the ResourceVersionChange counter
  of a resource goes up by one when the strings differ (for the resource reconciled)
  and stays as it is otherwise.
\<close>

theorem resource_version_change_iff:
  "tracker (logResourceVersionChangeWithMetadata lib lg d F rt ns n old new w) =
     (if ResourceVersion old = ResourceVersion new then tracker w
      else RecordEvent rt ns n EventTypeResourceVersionChange (tracker w)) \<and>
   event_count (tracker (detectChanges lib lg d F rt old new w)) key
       EventTypeResourceVersionChange =
     event_count (tracker w) key EventTypeResourceVersionChange +
       (if ResourceVersion old \<noteq> ResourceVersion new \<and>
           key = \<lparr>ResourceType = rt, Namespace = objNamespace new, Name = objName new\<rparr>
        then 1 else 0)"
proof -
  have "event_count (tracker (detectChanges lib lg d F rt old new w)) key
       EventTypeResourceVersionChange =
     event_count (tracker w) key EventTypeResourceVersionChange +
       (if ResourceVersion old \<noteq> ResourceVersion new \<and>
           key = \<lparr>ResourceType = rt, Namespace = objNamespace new, Name = objName new\<rparr>
        then 1 else 0)"
    by (simp add: detectChanges_def Let_def tracker_log event_count_RecordEvent
                  EventType_distinct EventType_distinct [symmetric])
  then show ?thesis
    by (simp only: tracker_logResourceVersionChangeWithMetadata simp_thms)
qed


theorem resource_version_change_iff_witness:
  "ResourceVersion wold \<noteq> ResourceVersion wnew \<and>
   event_count (tracker (detectChanges wlib_s wlogger False (ShouldLog no_filters) ''Bundle''
                           wold wnew wsinks)) wkey_b1 EventTypeResourceVersionChange = 1 \<and>
   event_count (tracker (detectChanges wlib_s wlogger False (ShouldLog no_filters) ''Bundle''
                           wold (wnew\<lparr>ResourceVersion := ''100''\<rparr>) wsinks)) wkey_b1
               EventTypeResourceVersionChange = 0"
proof -
  have z: "event_count (tracker wsinks) wkey_b1 EventTypeResourceVersionChange = 0"
    by (simp add: event_count_def wsinks_def NewStatsTracker_def)
  have k: "wkey_b1 = \<lparr>ResourceType = ''Bundle'', Namespace = objNamespace wnew,
                       Name = objName wnew\<rparr>"
    by (simp add: wkey_b1_def wnew_def wold_def)
  have d: "ResourceVersion wold \<noteq> ResourceVersion wnew"
    by (simp add: wnew_def wold_def)
  have e: "ResourceVersion wold = ResourceVersion (wnew\<lparr>ResourceVersion := ''100''\<rparr>)"
    by (simp add: wold_def)
  from resource_version_change_iff
         [where lib = wlib_s and lg = wlogger and d = False and F = "ShouldLog no_filters"
            and rt = "''Bundle''" and old = wold and new = wnew and w = wsinks
            and key = wkey_b1]
       resource_version_change_iff
         [where lib = wlib_s and lg = wlogger and d = False and F = "ShouldLog no_filters"
            and rt = "''Bundle''" and old = wold and new = "wnew\<lparr>ResourceVersion := ''100''\<rparr>"
            and w = wsinks and key = wkey_b1]
  show ?thesis using z k d e by simp
qed

section \<open>Properties of the reconcilers and the cache\<close>

text \<open>
  C8. When the resource filter of the HelmApp or of the GitRepo reconciler rejects the
  (namespace, name) of a request, \<open>Reconcile\<close> returns success with the state as it
  was: nothing is fetched from the API server, the tracker, the log, the heap and the
  cache are unchanged. (The Bundle reconciler of this repository has no resource
  filter.)
\<close>

theorem filter_reject_is_noop:
  "(\<not> Matches (Filter r) (nnNamespace req) (nnName req) \<longrightarrow>
      HelmApp_Reconcile lib r lg req w = (Returns None, w)) \<and>
   (\<not> Matches (Filter r') (nnNamespace req) (nnName req) \<longrightarrow>
      GitRepo_Reconcile RepoLabel lib' r' lg req w' = (Returns None, w'))"
  by (simp add: HelmApp_Reconcile_def GitRepo_Reconcile_def)


theorem filter_reject_is_noop_witness:
  "\<not> Matches (Filter whelm) (nnNamespace wreq) (nnName wreq) \<and>
   HelmApp_Reconcile wlib whelm wlogger wreq wstate = (Returns None, wstate) \<and>
   \<not> Matches (Filter wgit) (nnNamespace wreq) (nnName wreq) \<and>
   GitRepo_Reconcile ''fleet.cattle.io/repo-name'' wlib wgit wlogger wreq wstate =
     (Returns None, wstate)"
proof -
  have m: "\<not> Matches (Some wfilter) (nnNamespace wreq) (nnName wreq)"
    by (simp add: Matches_def wfilter_def wreq_def)
  then have "\<not> Matches (Filter whelm) (nnNamespace wreq) (nnName wreq)"
            "\<not> Matches (Filter wgit) (nnNamespace wreq) (nnName wreq)"
    by (simp_all add: whelm_def wgit_def)
  then show ?thesis
    using filter_reject_is_noop
            [where r = whelm and r' = wgit and req = wreq and lib = wlib and lib' = wlib
               and lg = wlogger and w = wstate and w' = wstate
               and RepoLabel = "''fleet.cattle.io/repo-name''"]
    by simp
qed

lemma fetched_after_fetch: "fetched (snd (fetch r key w)) = fetched w @ [key]"
  by (simp add: fetch_def Let_def split: sum.splits prod.splits)


lemma more_Info [simp]: "Sinks.more (Info lg msg kvs w) = Sinks.more w"
  by (simp add: Info_def)

lemma more_Error [simp]: "Sinks.more (Error lg e msg kvs w) = Sinks.more w"
  by (simp add: Error_def)

lemma more_recordEvent [simp]: "Sinks.more (recordEvent rt ns n ev w) = Sinks.more w"
  by (simp add: recordEvent_def)

lemma more_logSpecChange:
  "Sinks.more (logSpecChange lib lg d F rt ns n oldSpec newSpec oldGen newGen w) = Sinks.more w"
  by (simp add: logSpecChange_def Let_def)

lemma more_logStatusChange:
  "Sinks.more (logStatusChange lib lg d F rt ns n oldStatus newStatus w) = Sinks.more w"
  by (simp add: logStatusChange_def Let_def split: sum.splits)

lemma more_logResourceVersionChangeWithMetadata:
  "Sinks.more (logResourceVersionChangeWithMetadata lib lg d F rt ns n old new w) = Sinks.more w"
  by (simp add: logResourceVersionChangeWithMetadata_def Let_def split_beta)

lemma more_logAnnotationChange:
  "Sinks.more (logAnnotationChange lib lg d F rt ns n old new w) = Sinks.more w"
  by (simp add: logAnnotationChange_def Let_def)

lemma more_logLabelChange:
  "Sinks.more (logLabelChange lib lg d F rt ns n old new w) = Sinks.more w"
  by (simp add: logLabelChange_def Let_def)

lemma more_logDeletion: "Sinks.more (logDeletion lg d F rt ns n ts w) = Sinks.more w"
  by (simp add: logDeletion_def Let_def)

lemma more_logNotFound: "Sinks.more (logNotFound lg d F rt ns n w) = Sinks.more w"
  by (simp add: logNotFound_def Let_def)

lemma more_logCreate: "Sinks.more (logCreate lg d F rt ns n g rv w) = Sinks.more w"
  by (simp add: logCreate_def Let_def)

lemma more_detectChanges:
  "Sinks.more (detectChanges lib lg d F rt old new w) = Sinks.more w"
  by (simp add: detectChanges_def Let_def more_logSpecChange more_logStatusChange
                more_logResourceVersionChangeWithMetadata more_logAnnotationChange
                more_logLabelChange)

lemma sinks_frame:
  fixes w :: "('o, 'w) ReconcilerState_scheme"
  assumes "Sinks.more w' = Sinks.more w"
  shows "fetched w' = fetched w" and "cache w' = cache w" and "heap w' = heap w"
  using assms by (cases w; cases w'; simp)+

text \<open>
  By contrast the Bundle reconciler, which has no resource filter, fetches the object of
  every request.
\<close>

lemma Bundle_Reconcile_fetches:
  "fetched (snd (Bundle_Reconcile RepoLabel CommitLabel lib r lg req w)) = fetched w @ [req]"
proof -
  have "fetched (snd (Bundle_Reconcile RepoLabel CommitLabel lib r lg req w)) =
        fetched (snd (fetch r req w))"
    by (simp add: Bundle_Reconcile_def Let_def cacheDelete_def cacheSetDeepCopy_def
                  sinks_frame [OF more_detectChanges]
                  sinks_frame [OF more_logNotFound]
                  sinks_frame [OF more_logDeletion]
                  sinks_frame [OF more_logCreate]
             split: sum.splits prod.splits option.splits)
  then show ?thesis by (simp add: fetched_after_fetch)
qed


text \<open>
  C9, as the code has it. \<open>ObjectCache.Set\<close> stores the reference it is given and makes
  no copy: \<open>Get\<close> returns that same reference and other keys are untouched, so the
  snapshot behind it changes with every write through that reference and with no other
  write. The snapshot is isolated from the caller's object when the caller passes a
  copy, \<open>Set(key, obj.DeepCopy())\<close>, which is what the reconcilers do: then the reference
  stored differs from the caller's and a later write to the caller's object leaves the
  snapshot as it was.
\<close>

theorem Set_stores_reference:
  "ObjectCache_Get (ObjectCache_Set c key p) key = Some p \<and>
   (key' \<noteq> key \<longrightarrow> ObjectCache_Get (ObjectCache_Set c key p) key' = ObjectCache_Get c key') \<and>
   snapshot (mutate q obj' h) (ObjectCache_Set c key p) key =
     (if q = p \<and> p < length h then Some obj' else snapshot h (ObjectCache_Set c key p) key) \<and>
   (deref h p = Some obj \<longrightarrow>
      fst (DeepCopy p h) \<noteq> p \<and>
      snapshot (snd (DeepCopy p h)) (ObjectCache_Set c key (fst (DeepCopy p h))) key = Some obj \<and>
      snapshot (mutate p obj' (snd (DeepCopy p h)))
               (ObjectCache_Set c key (fst (DeepCopy p h))) key = Some obj)"
  by (auto simp: ObjectCache_Get_def ObjectCache_Set_def snapshot_def mutate_def deref_def
                 DeepCopy_def new_object_def nth_append split: if_splits)



theorem Set_stores_reference_witness:
  "deref [''generation-1''] 0 = Some ''generation-1'' \<and>
   fst (DeepCopy 0 [''generation-1'']) = 1 \<and>
   snapshot (mutate 0 ''generation-2'' (snd (DeepCopy 0 [''generation-1''])))
            (ObjectCache_Set NewObjectCache wreq (fst (DeepCopy 0 [''generation-1'']))) wreq =
     Some ''generation-1''"
proof -
  have d: "deref [''generation-1''] 0 = Some ''generation-1''"
    by (simp add: deref_def)
  have f: "fst (DeepCopy 0 [''generation-1'']) = 1"
    by (simp add: DeepCopy_def deref_def new_object_def)
  from Set_stores_reference
         [where h = "[''generation-1'']" and p = 0 and obj = "''generation-1''"
            and obj' = "''generation-2''" and c = NewObjectCache and key = wreq]
  show ?thesis using d f by simp
qed


text \<open>
  \<open>Set\<close> itself does not copy: after \<open>Set(key, obj)\<close> a write to \<open>obj\<close> by the caller
  changes the snapshot that \<open>Get(key)\<close> leads to.
\<close>

theorem Set_aliases_caller_object:
  "snapshot (mutate 0 ''generation-2'' [''generation-1''])
            (ObjectCache_Set NewObjectCache wreq 0) wreq \<noteq>
   snapshot [''generation-1''] (ObjectCache_Set NewObjectCache wreq 0) wreq"
  by (simp add: snapshot_def mutate_def ObjectCache_Set_def ObjectCache_Get_def deref_def)


section \<open>Properties of the bundle query\<close>

lemma newBundleMapping_nil:
  "BundleSelector mapping = None \<or> NamespaceSelector mapping = None \<Longrightarrow>
   newBundleMapping ext mapping =
     Inr \<lparr>bmNamespace = mappingNamespace mapping, namespaceSelector = None,
          bundleSelector = None, noMatch = True\<rparr>"
  by (cases "BundleSelector mapping"; cases "NamespaceSelector mapping")
     (simp_all add: newBundleMapping_def)

text \<open>
  C5. For a BundleNamespaceMapping whose bundle selector or namespace selector is nil,
  \<open>newBundleMapping\<close> succeeds with a mapping that matches nothing: \<open>Bundles\<close> returns the
  empty list without error and \<open>MatchesNamespace\<close> returns false for every namespace,
  both without a call to the API server (the state is unchanged).
\<close>

theorem nil_selector_mapping_matches_nothing:
  "BundleSelector mapping = None \<or> NamespaceSelector mapping = None \<Longrightarrow>
   \<exists>bm. newBundleMapping ext mapping = Inr bm \<and>
        Bundles bm c st = (([], None), st) \<and>
        MatchesNamespace bm c ns st = (Returns False, st)"
  by (simp add: newBundleMapping_nil Bundles_def MatchesNamespace_def)

theorem nil_selector_mapping_matches_nothing_witness:
  "BundleSelector wmapping_nil = None \<and>
   (\<exists>bm. newBundleMapping wext wmapping_nil = Inr bm \<and>
         Bundles bm wserver (wquery []) = (([], None), wquery []) \<and>
         MatchesNamespace bm wserver ''fleet-default'' (wquery []) = (Returns False, wquery []))"
proof -
  have n: "BundleSelector wmapping_nil = None" by (simp add: wmapping_nil_def)
  then have "BundleSelector wmapping_nil = None \<or> NamespaceSelector wmapping_nil = None" ..
  from nil_selector_mapping_matches_nothing
         [OF this, of wext wserver "wquery []" "''fleet-default''"] n
  show ?thesis by simp
qed

lemma more_Error_q [simp]: "Sinks.more (Error lg e msg kvs st) = Sinks.more st"
  by (simp add: Error_def)

lemma query_frame:
  fixes st :: "'w QueryState_scheme"
  assumes "Sinks.more st' = Sinks.more st"
  shows "pending st' = pending st" and "trace st' = trace st"
  using assms by (cases st; cases st'; simp)+

lemma clusterGroupsLoop_more:
  "Sinks.more (snd (clusterGroupsLoop ext lg cluster items acc st)) = Sinks.more st"
  by (induction items arbitrary: acc st) (auto split: option.splits sum.splits)

lemma clusterGroupsLoop_result:
  "fst (clusterGroupsLoop ext lg cluster items acc st) =
     acc @ filter (clusterGroupSelects ext cluster) items"
  by (induction items arbitrary: acc st)
     (auto simp: clusterGroupSelects_def split: option.splits sum.splits)

lemma api_call_Inr:
  "api_call operation (Inr x) st = (Inr y, st') \<Longrightarrow> y = x"
  by (auto simp: api_call_def Let_def split: list.splits option.splits)

lemma foldl_label_map:
  "foldl (\<lambda>result cg. result(cgName cg \<mapsto> cgLabels cg)) m cgs =
     m ++ map_of (rev (map (\<lambda>cg. (cgName cg, cgLabels cg)) cgs))"
proof (induction cgs arbitrary: m)
  case Nil
  then show ?case by simp
next
  case (Cons cg cgs)
  let ?f = "\<lambda>result cg. result(cgName cg \<mapsto> cgLabels cg)"
  let ?g = "\<lambda>cg. (cgName cg, cgLabels cg)"
  have "foldl ?f m (cg # cgs) = foldl ?f (m(cgName cg \<mapsto> cgLabels cg)) cgs"
    by (simp only: foldl_Cons)
  also have "\<dots> = m(cgName cg \<mapsto> cgLabels cg) ++ map_of (rev (map ?g cgs))"
    by (rule Cons.IH)
  also have "\<dots> = m ++ map_of (rev (map ?g (cg # cgs)))"
    by (rule ext) (simp add: map_add_def split: option.splits)
  finally show ?case .
qed

lemma clusterGroupsToLabelMap_map_of:
  "clusterGroupsToLabelMap cgs = map_of (rev (map (\<lambda>cg. (cgName cg, cgLabels cg)) cgs))"
  by (simp add: clusterGroupsToLabelMap_def foldl_label_map)


lemma clusterGroupsForCluster_result:
  assumes "clusterGroupsForCluster ext c lg cluster st = ((cgs, None), st')"
  shows "clusterGroupsToLabelMap cgs = clusterGroupLabelMap ext c cluster"
proof -
  obtain r st1 where a: "api_call ListClusterGroups
        (Inr (listClusterGroups c (clusterNamespace cluster))) st = (r, st1)"
    by (cases "api_call ListClusterGroups
        (Inr (listClusterGroups c (clusterNamespace cluster))) st") auto
  show ?thesis
  proof (cases r)
    case (Inl e)
    with a assms show ?thesis by (simp add: clusterGroupsForCluster_def)
  next
    case (Inr items)
    with a have items: "items = listClusterGroups c (clusterNamespace cluster)"
      using api_call_Inr by fastforce
    have "cgs = fst (clusterGroupsLoop ext (WithName lg ''bundle-query'') cluster items [] st1)"
      using a Inr assms
      by (auto simp: clusterGroupsForCluster_def Let_def split: prod.splits)
    then show ?thesis
      by (simp add: clusterGroupsLoop_result clusterGroupLabelMap_def items
                    clusterGroupsToLabelMap_map_of)
  qed
qed

lemma bundlesLoop_partition:
  "bundlesLoop ext c lg cluster bundles (refresh, cleanup) st = ((refresh', cleanup', None), st')
   \<Longrightarrow> refresh' = refresh @ filter (\<lambda>b. bundleMatches ext c cluster b = Some True) bundles \<and>
       cleanup' = cleanup @ filter (\<lambda>b. bundleMatches ext c cluster b = Some False) bundles"
proof (induction bundles arbitrary: refresh cleanup st)
  case Nil
  then show ?case by simp
next
  case (Cons b bundles)
  show ?case
  proof (cases "matcher_New ext b")
    case (Inl e)
    with Cons show ?thesis by (simp add: bundleMatches_def)
  next
    case (Inr bm)
    obtain cgs err st1 where cg: "clusterGroupsForCluster ext c lg cluster st = ((cgs, err), st1)"
      by (metis surj_pair)
    show ?thesis
    proof (cases err)
      case (Some e)
      with Cons.prems Inr cg show ?thesis by simp
    next
      case None
      then have m: "clusterGroupsToLabelMap cgs = clusterGroupLabelMap ext c cluster"
        using cg clusterGroupsForCluster_result by fastforce
      show ?thesis
      proof (cases "matcher_Match ext bm (clusterName cluster) (clusterGroupLabelMap ext c cluster)
                       (clusterLabels cluster)")
        case None': None
        with Cons.prems Inr cg None m
        have "bundlesLoop ext c lg cluster bundles (refresh, cleanup @ [b]) st1 =
                ((refresh', cleanup', None), st')" by simp
        from Cons.IH [OF this] Inr None' show ?thesis by (simp add: bundleMatches_def)
      next
        case (Some t)
        with Cons.prems Inr cg None m
        have "bundlesLoop ext c lg cluster bundles (refresh @ [b], cleanup) st1 =
                ((refresh', cleanup', None), st')" by simp
        from Cons.IH [OF this] Inr Some show ?thesis by (simp add: bundleMatches_def)
      qed
    qed
  qed
qed


lemma bundleSet_ok_new: "bundleSet_ok newBundleSet"
  by (simp add: bundleSet_ok_def newBundleSet_def)

lemma bundleSet_ok_insertSingle: "bundleSet_ok b \<Longrightarrow> bundleSet_ok (insertSingle x b)"
  by (auto simp: bundleSet_ok_def insertSingle_def Let_def)

lemma bundleSet_ok_foldl:
  "bundleSet_ok b \<Longrightarrow> bundleSet_ok (foldl (\<lambda>s x. insertSingle x s) b xs)"
  by (induction xs arbitrary: b) (simp_all add: bundleSet_ok_insertSingle)

lemma bundleSet_ok_insert:
  "bundleSet_ok b \<Longrightarrow> bundleSet_ok (snd (bundleSet_insert r b))"
  by (cases r) (auto simp: bundleSet_insert_def bundleSet_ok_foldl split: option.splits)

lemma bundleSet_ok_namespaceBundlesLoop:
  "bundleSet_ok b \<Longrightarrow> bundleSet_ok (namespaceBundlesLoop cluster items b)"
  by (induction items arbitrary: b) (simp_all add: bundleSet_ok_insertSingle)

lemma bundleSet_ok_mappingsLoop:
  "bundleSet_ok b \<Longrightarrow>
   mappingsLoop ext c lg cluster mappings b st = (Returns (err, b'), st') \<Longrightarrow> bundleSet_ok b'"
proof (induction mappings arbitrary: b st)
  case Nil
  then show ?case by simp
next
  case (Cons m mappings)
  show ?case
  proof (cases "newBundleMapping ext m")
    case (Inl e)
    with Cons show ?thesis by simp
  next
    case (Inr bm)
    obtain r1 st1 where mn: "MatchesNamespace bm c (clusterNamespace cluster) st = (r1, st1)"
      by (metis surj_pair)
    show ?thesis
    proof (cases r1)
      case Panics
      with Cons.prems Inr mn show ?thesis by simp
    next
      case (Returns matches)
      show ?thesis
      proof (cases matches)
        case False
        with Cons Inr mn Returns show ?thesis by simp
      next
        case True
        obtain r st2 where bs: "Bundles bm c st1 = (r, st2)" by (metis surj_pair)
        obtain e b2 where ins: "bundleSet_insert r b = (e, b2)" by (metis surj_pair)
        have ok2: "bundleSet_ok b2"
          using bundleSet_ok_insert [OF Cons.prems(1), of r] ins by simp
        show ?thesis
        proof (cases e)
          case None
          with Cons.prems Inr mn Returns True bs ins
          have "mappingsLoop ext c lg cluster mappings b2 st2 = (Returns (err, b'), st')"
            by simp
          from Cons.IH [OF ok2 this] show ?thesis .
        next
          case (Some e')
          with Cons.prems Inr mn Returns True bs ins ok2 show ?thesis by simp
        qed
      qed
    qed
  qed
qed

lemma bundleSet_bundles_keys:
  assumes "bundleSet_ok b"
  shows "map bundleKey (bundleSet_bundles b) = sorted_list_of_set (bundleKeys b)"
proof -
  have "\<forall>k \<in> set ks. \<exists>x. bundleMap b k = Some x \<and> bundleKey x = k \<Longrightarrow>
        map bundleKey (List.map_filter (bundleMap b) ks) = ks" for ks
    by (induction ks) (auto simp: List.map_filter_simps)
  then show ?thesis
    using assms by (simp add: bundleSet_bundles_def bundleSet_ok_def)
qed

lemma bundleSet_bundles_distinct:
  assumes "bundleSet_ok b"
  shows "distinct (bundleSet_bundles b)"
proof -
  have "distinct (map bundleKey (bundleSet_bundles b))"
    using assms by (simp add: bundleSet_bundles_keys)
  then show ?thesis by (simp add: distinct_map)
qed

lemma getBundlesInScopeForCluster_distinct:
  assumes "getBundlesInScopeForCluster ext c lg cluster st = (Returns (inScope, None), st')"
  shows "distinct inScope"
proof -
  obtain r1 st1 where a1: "api_call ListBundles
      (Inr (listBundles c (clusterNamespace cluster) None)) st = (r1, st1)"
    by (metis surj_pair)
  then obtain items where r1: "r1 = Inr items"
    using assms by (cases r1) (auto simp: getBundlesInScopeForCluster_def)
  let ?bs = "namespaceBundlesLoop cluster items newBundleSet"
  obtain r2 st2 where a2: "api_call ListBundleNamespaceMappings
      (Inr (listBundleNamespaceMappings c)) st1 = (r2, st2)"
    by (metis surj_pair)
  then obtain mappings where r2: "r2 = Inr mappings"
    using assms a1 r1 by (cases r2) (auto simp: getBundlesInScopeForCluster_def Let_def)
  obtain r3 st3 where l: "mappingsLoop ext c (WithName lg ''bundle-query'') cluster mappings ?bs st2
      = (r3, st3)"
    by (metis surj_pair)
  from assms a1 r1 a2 r2 l obtain b3 where r3: "r3 = Returns (None, b3)"
      and res: "inScope = bundleSet_bundles b3"
    by (cases r3) (auto simp: getBundlesInScopeForCluster_def Let_def split: option.splits)
  have "bundleSet_ok ?bs"
    by (simp add: bundleSet_ok_namespaceBundlesLoop bundleSet_ok_new)
  then have "bundleSet_ok b3"
    using bundleSet_ok_mappingsLoop l r3 by blast
  then show ?thesis using res by (simp add: bundleSet_bundles_distinct)
qed

subsection \<open>The scope of a query of which no call fails\<close>

lemma inserted_simps [simp]:
  "inserted [] b = b"
  "inserted (x # xs) b = inserted xs (insertSingle x b)"
  by (simp_all add: inserted_def)

lemma inserted_append: "inserted (xs @ ys) b = inserted ys (inserted xs b)"
  by (simp add: inserted_def)

lemma bundleKeys_inserted:
  "bundleKeys (inserted xs b) = bundleKeys b \<union> bundleKey ` set xs"
  by (induction xs arbitrary: b) (auto simp: insertSingle_def Let_def)

lemma bundleMap_inserted:
  "bundleMap (inserted xs b) = bundleMap b ++ map_of (rev (map (\<lambda>x. (bundleKey x, x)) xs))"
proof (induction xs arbitrary: b)
  case Nil
  then show ?case by simp
next
  case (Cons x xs)
  let ?g = "\<lambda>x. (bundleKey x, x)"
  have "bundleMap (inserted (x # xs) b) =
        bundleMap (insertSingle x b) ++ map_of (rev (map ?g xs))"
    by (simp add: Cons.IH)
  also have "bundleMap (insertSingle x b) = (bundleMap b)(bundleKey x \<mapsto> x)"
    by (simp add: insertSingle_def Let_def)
  also have "(bundleMap b)(bundleKey x \<mapsto> x) ++ map_of (rev (map ?g xs)) =
             bundleMap b ++ map_of (rev (map ?g (x # xs)))"
    by (rule ext) (simp add: map_add_def split: option.splits)
  finally show ?case .
qed

lemma bundleSet_bundles_inserted:
  "bundleSet_bundles (inserted xs newBundleSet) = scope_of xs"
  by (simp add: bundleSet_bundles_def scope_of_def bundleKeys_inserted bundleMap_inserted
                newBundleSet_def)

lemma namespaceBundlesLoop_inserted:
  "namespaceBundlesLoop cluster items b =
     inserted (filter (\<lambda>x. \<not> foreign_agent_bundle cluster x) items) b"
  by (induction items arbitrary: b) (auto simp: foreign_agent_bundle_def)

lemma pending_Error [simp]: "pending (Error lg e msg kvs st) = pending st"
  by (simp add: Error_def)

lemma fault_free_Error [simp]: "fault_free (Error lg e msg kvs st) = fault_free st"
  by (simp add: fault_free_def)

lemma api_call_fault_free:
  assumes "fault_free st"
  shows "fst (api_call operation answer st) = answer"
    and "fault_free (snd (api_call operation answer st))"
proof -
  have t: "\<forall>f \<in> set (tl (pending st)). f = None"
    using assms by (cases "pending st") (auto simp: fault_free_def)
  show "fst (api_call operation answer st) = answer"
    using assms by (cases "pending st") (auto simp: api_call_def fault_free_def Let_def)
  show "fault_free (snd (api_call operation answer st))"
    using t by (simp add: api_call_def fault_free_def Let_def)
qed

lemma api_call_fault_free':
  assumes "fault_free st"
  obtains st' where "api_call operation answer st = (answer, st')" "fault_free st'"
  using api_call_fault_free [OF assms, of operation answer]
  by (metis prod.collapse)


lemma MatchesNamespace_fault_free:
  assumes "fault_free st" "\<not> noMatch bm" "namespaceSelector bm = Some ns"
  obtains st' where
    "MatchesNamespace bm c n st =
       (Returns (case getNamespace c n of None \<Rightarrow> False | Some obj \<Rightarrow> ns (namespaceLabels obj)),
        st')"
    "fault_free st'"
proof -
  let ?answer = "case getNamespace c n of None \<Rightarrow> Inl ErrNotFound | Some obj \<Rightarrow> Inr obj"
  obtain st1 where a: "api_call GetNamespace ?answer st = (?answer, st1)" and f: "fault_free st1"
    using assms(1) by (rule api_call_fault_free')
  have "MatchesNamespace bm c n st =
       (Returns (case getNamespace c n of None \<Rightarrow> False | Some obj \<Rightarrow> ns (namespaceLabels obj)),
        st1)"
    using assms(2,3) a by (cases "getNamespace c n") (simp_all add: MatchesNamespace_def)
  with f that show ?thesis by blast
qed

lemma Bundles_fault_free:
  assumes "fault_free st" "\<not> noMatch bm"
  obtains st' where
    "Bundles bm c st = ((listBundles c (bmNamespace bm) (bundleSelector bm), None), st')"
    "fault_free st'"
proof -
  let ?answer = "Inr (listBundles c (bmNamespace bm) (bundleSelector bm))"
  obtain st1 where a: "api_call ListBundles ?answer st = (?answer, st1)" and f: "fault_free st1"
    using assms(1) by (rule api_call_fault_free')
  have "Bundles bm c st = ((listBundles c (bmNamespace bm) (bundleSelector bm), None), st1)"
    using assms(2) a by (simp add: Bundles_def)
  with f that show ?thesis by blast
qed

lemma mappingsLoop_step_fault_free:
  assumes "fault_free st"
  obtains st1 where
    "mappingsLoop ext c lg cluster (m # ms) b st =
       mappingsLoop ext c lg cluster ms (inserted (mapping_bundles ext c cluster m) b) st1"
    "fault_free st1"
proof (cases "BundleSelector m")
  case None
  then have "newBundleMapping ext m = Inr \<lparr>bmNamespace = mappingNamespace m,
      namespaceSelector = None, bundleSelector = None, noMatch = True\<rparr>"
    by (simp add: newBundleMapping_nil)
  moreover have "mapping_bundles ext c cluster m = []"
    using None by (simp add: mapping_bundles_def)
  ultimately have "mappingsLoop ext c lg cluster (m # ms) b st =
       mappingsLoop ext c lg cluster ms (inserted (mapping_bundles ext c cluster m) b) st"
    by (simp add: MatchesNamespace_def)
  with assms that show ?thesis by blast
next
  case bsel: (Some bsel)
  show ?thesis
  proof (cases "NamespaceSelector m")
    case None
    then have "newBundleMapping ext m = Inr \<lparr>bmNamespace = mappingNamespace m,
        namespaceSelector = None, bundleSelector = None, noMatch = True\<rparr>"
      by (simp add: newBundleMapping_nil)
    moreover have "mapping_bundles ext c cluster m = []"
      using None bsel by (simp add: mapping_bundles_def)
    ultimately have "mappingsLoop ext c lg cluster (m # ms) b st =
         mappingsLoop ext c lg cluster ms (inserted (mapping_bundles ext c cluster m) b) st"
      by (simp add: MatchesNamespace_def)
    with assms that show ?thesis by blast
  next
    case nsel: (Some nsel)
    show ?thesis
    proof (cases "LabelSelectorAsSelector ext bsel")
      case (Inl e)
      let ?st = "Error lg e ''invalid BundleNamespaceMapping, skipping''
                 [(''namespace'', StrV (mappingNamespace m)), (''name'', StrV (mappingName m))] st"
      have "newBundleMapping ext m = Inl e"
        using bsel nsel Inl by (simp add: newBundleMapping_def)
      moreover have "mapping_bundles ext c cluster m = []"
        using bsel nsel Inl by (simp add: mapping_bundles_def)
      ultimately have "mappingsLoop ext c lg cluster (m # ms) b st =
           mappingsLoop ext c lg cluster ms (inserted (mapping_bundles ext c cluster m) b) ?st"
        by simp
      moreover have "fault_free ?st" using assms by simp
      ultimately show ?thesis using that by blast
    next
      case bs: (Inr bs)
      show ?thesis
      proof (cases "LabelSelectorAsSelector ext nsel")
        case (Inl e)
        let ?st = "Error lg e ''invalid BundleNamespaceMapping, skipping''
                   [(''namespace'', StrV (mappingNamespace m)), (''name'', StrV (mappingName m))] st"
        have "newBundleMapping ext m = Inl e"
          using bsel nsel bs Inl by (simp add: newBundleMapping_def)
        moreover have "mapping_bundles ext c cluster m = []"
          using bsel nsel bs Inl by (simp add: mapping_bundles_def)
        ultimately have "mappingsLoop ext c lg cluster (m # ms) b st =
             mappingsLoop ext c lg cluster ms (inserted (mapping_bundles ext c cluster m) b) ?st"
          by simp
        moreover have "fault_free ?st" using assms by simp
        ultimately show ?thesis using that by blast
      next
        case ns: (Inr ns)
        let ?bm = "\<lparr>bmNamespace = mappingNamespace m, namespaceSelector = Some ns,
                     bundleSelector = Some bs, noMatch = False\<rparr>"
        let ?applies = "case getNamespace c (clusterNamespace cluster) of
                          None \<Rightarrow> False | Some obj \<Rightarrow> ns (namespaceLabels obj)"
        have nbm: "newBundleMapping ext m = Inr ?bm"
          using bsel nsel bs ns by (simp add: newBundleMapping_def)
        obtain st1 where mn: "MatchesNamespace ?bm c (clusterNamespace cluster) st =
            (Returns ?applies, st1)" and f1: "fault_free st1"
          using MatchesNamespace_fault_free [OF assms, of ?bm ns c "clusterNamespace cluster"]
          by auto
        show ?thesis
        proof (cases ?applies)
          case False
          then have "mapping_bundles ext c cluster m = []"
            using bsel nsel bs ns by (auto simp: mapping_bundles_def split: option.splits)
          then have "mappingsLoop ext c lg cluster (m # ms) b st =
               mappingsLoop ext c lg cluster ms (inserted (mapping_bundles ext c cluster m) b) st1"
            using nbm mn False by simp
          with f1 that show ?thesis by blast
        next
          case True
          then have mb: "mapping_bundles ext c cluster m =
                           listBundles c (mappingNamespace m) (Some bs)"
            using bsel nsel bs ns by (auto simp: mapping_bundles_def split: option.splits)
          obtain st2 where bu: "Bundles ?bm c st1 =
              ((listBundles c (mappingNamespace m) (Some bs), None), st2)" and f2: "fault_free st2"
            using Bundles_fault_free [OF f1, of ?bm c] by auto
          have "mappingsLoop ext c lg cluster (m # ms) b st =
               mappingsLoop ext c lg cluster ms (inserted (mapping_bundles ext c cluster m) b) st2"
            using nbm mn True bu mb by (simp add: bundleSet_insert_def inserted_def)
          with f2 that show ?thesis by blast
        qed
      qed
    qed
  qed
qed

lemma mappingsLoop_fault_free:
  assumes "fault_free st"
  obtains st' where
    "mappingsLoop ext c lg cluster ms b st =
       (Returns (None, inserted (concat (map (mapping_bundles ext c cluster) ms)) b), st')"
    "fault_free st'"
  using assms
proof (induction ms arbitrary: b st thesis)
  case Nil
  then show ?case by simp
next
  case (Cons m ms)
  obtain st1 where s: "mappingsLoop ext c lg cluster (m # ms) b st =
       mappingsLoop ext c lg cluster ms (inserted (mapping_bundles ext c cluster m) b) st1"
    and f1: "fault_free st1"
    using mappingsLoop_step_fault_free [OF Cons.prems(2)] by blast
  obtain st' where "mappingsLoop ext c lg cluster ms
        (inserted (mapping_bundles ext c cluster m) b) st1 =
       (Returns (None, inserted (concat (map (mapping_bundles ext c cluster) ms))
                    (inserted (mapping_bundles ext c cluster m) b)), st')"
    and f': "fault_free st'"
    using Cons.IH [OF _ f1] by blast
  then have "mappingsLoop ext c lg cluster (m # ms) b st =
       (Returns (None, inserted (concat (map (mapping_bundles ext c cluster) (m # ms))) b), st')"
    using s by (simp add: inserted_append)
  with f' Cons.prems(1) show ?case by blast
qed

lemma getBundlesInScopeForCluster_fault_free:
  assumes "fault_free st"
  obtains st' where
    "getBundlesInScopeForCluster ext c lg cluster st =
       (Returns (scope_of (scope_candidates ext c cluster), None), st')"
    "fault_free st'"
proof -
  let ?a1 = "Inr (listBundles c (clusterNamespace cluster) None)"
  obtain st1 where a1: "api_call ListBundles ?a1 st = (?a1, st1)" and f1: "fault_free st1"
    using assms by (rule api_call_fault_free')
  let ?a2 = "Inr (listBundleNamespaceMappings c)"
  obtain st2 where a2: "api_call ListBundleNamespaceMappings ?a2 st1 = (?a2, st2)"
    and f2: "fault_free st2"
    using f1 by (rule api_call_fault_free')
  let ?b = "namespaceBundlesLoop cluster (listBundles c (clusterNamespace cluster) None)
              newBundleSet"
  obtain st3 where l: "mappingsLoop ext c (WithName lg ''bundle-query'') cluster
        (listBundleNamespaceMappings c) ?b st2 =
       (Returns (None, inserted (concat (map (mapping_bundles ext c cluster)
                                  (listBundleNamespaceMappings c))) ?b), st3)"
    and f3: "fault_free st3"
    using f2 by (rule mappingsLoop_fault_free)
  have "inserted (concat (map (mapping_bundles ext c cluster) (listBundleNamespaceMappings c))) ?b
        = inserted (scope_candidates ext c cluster) newBundleSet"
    by (simp add: namespaceBundlesLoop_inserted scope_candidates_def inserted_append)
  then have "getBundlesInScopeForCluster ext c lg cluster st =
       (Returns (scope_of (scope_candidates ext c cluster), None), st3)"
    using a1 a2 l by (simp add: getBundlesInScopeForCluster_def bundleSet_bundles_inserted)
  with f3 that show ?thesis by blast
qed


lemma fault_free_more:
  fixes st :: "'w QueryState_scheme"
  shows "Sinks.more st' = Sinks.more st \<Longrightarrow> fault_free st' = fault_free st"
  using query_frame(1) [of st' st] by (simp add: fault_free_def)

lemma clusterGroupsForCluster_fault_free:
  assumes "fault_free st"
  obtains cgs st' where
    "clusterGroupsForCluster ext c lg cluster st = ((cgs, None), st')" "fault_free st'"
proof -
  let ?a = "Inr (listClusterGroups c (clusterNamespace cluster))"
  obtain st1 where a: "api_call ListClusterGroups ?a st = (?a, st1)" and f1: "fault_free st1"
    using assms by (rule api_call_fault_free')
  let ?l = "clusterGroupsLoop ext (WithName lg ''bundle-query'') cluster
              (listClusterGroups c (clusterNamespace cluster)) [] st1"
  have "fault_free (snd ?l)"
    using f1 fault_free_more [OF clusterGroupsLoop_more] by blast
  moreover have "clusterGroupsForCluster ext c lg cluster st = ((fst ?l, None), snd ?l)"
    using a by (simp add: clusterGroupsForCluster_def Let_def split: prod.splits)
  ultimately show ?thesis using that by blast
qed

lemma bundlesLoop_fault_free:
  assumes "fault_free st"
  obtains refresh' cleanup' st' where
    "bundlesLoop ext c lg cluster bundles (refresh, cleanup) st = ((refresh', cleanup', None), st')"
  using assms
proof (induction bundles arbitrary: refresh cleanup st thesis)
  case Nil
  then show ?case by simp
next
  case (Cons b bundles)
  show ?case
  proof (cases "matcher_New ext b")
    case (Inl e)
    let ?st = "Error (WithName lg ''bundle-query'') e ''ignore bad app bundle''
               [(''namespace'', StrV (bundleNamespace b)), (''name'', StrV (bundleName b))] st"
    have "fault_free ?st" using Cons.prems(2) by simp
    from Cons.IH [OF _ this, of refresh cleanup] obtain r cl st' where
      "bundlesLoop ext c lg cluster bundles (refresh, cleanup) ?st = ((r, cl, None), st')"
      by blast
    then have "bundlesLoop ext c lg cluster (b # bundles) (refresh, cleanup) st =
                 ((r, cl, None), st')"
      using Inl by simp
    then show ?thesis by (rule Cons.prems(1))
  next
    case (Inr bm)
    obtain cgs st1 where cg: "clusterGroupsForCluster ext c lg cluster st = ((cgs, None), st1)"
      and f1: "fault_free st1"
      using Cons.prems(2) by (rule clusterGroupsForCluster_fault_free)
    show ?thesis
    proof (cases "matcher_Match ext bm (clusterName cluster) (clusterGroupsToLabelMap cgs)
                    (clusterLabels cluster)")
      case None
      from Cons.IH [OF _ f1, of refresh "cleanup @ [b]"] obtain r cl st' where
        "bundlesLoop ext c lg cluster bundles (refresh, cleanup @ [b]) st1 = ((r, cl, None), st')"
        by blast
      then have "bundlesLoop ext c lg cluster (b # bundles) (refresh, cleanup) st =
                   ((r, cl, None), st')"
        using Inr cg None by simp
      then show ?thesis by (rule Cons.prems(1))
    next
      case (Some t)
      from Cons.IH [OF _ f1, of "refresh @ [b]" cleanup] obtain r cl st' where
        "bundlesLoop ext c lg cluster bundles (refresh @ [b], cleanup) st1 = ((r, cl, None), st')"
        by blast
      then have "bundlesLoop ext c lg cluster (b # bundles) (refresh, cleanup) st =
                   ((r, cl, None), st')"
        using Inr cg Some by simp
      then show ?thesis by (rule Cons.prems(1))
    qed
  qed
qed

lemma BundlesForCluster_fault_free:
  assumes "fault_free st"
  shows "fst (BundlesForCluster ext c lg cluster st) =
     Returns (filter (\<lambda>b. bundleMatches ext c cluster b = Some True)
                (scope_of (scope_candidates ext c cluster)),
              filter (\<lambda>b. bundleMatches ext c cluster b = Some False)
                (scope_of (scope_candidates ext c cluster)),
              None)"
proof -
  let ?scope = "scope_of (scope_candidates ext c cluster)"
  obtain st1 where g: "getBundlesInScopeForCluster ext c lg cluster st =
      (Returns (?scope, None), st1)" and f1: "fault_free st1"
    using assms by (rule getBundlesInScopeForCluster_fault_free)
  obtain r cl st2 where l: "bundlesLoop ext c lg cluster ?scope ([], []) st1 =
      ((r, cl, None), st2)"
    using f1 by (rule bundlesLoop_fault_free)
  from bundlesLoop_partition [OF l]
  have "r = filter (\<lambda>b. bundleMatches ext c cluster b = Some True) ?scope"
       "cl = filter (\<lambda>b. bundleMatches ext c cluster b = Some False) ?scope"
    by simp_all
  then show ?thesis using g l by (simp add: BundlesForCluster_def)
qed

lemma set_map_filter_Some:
  "set (List.map_filter f xs) = {y. \<exists>x \<in> set xs. f x = Some y}"
  by (induction xs) (auto split: option.splits)

lemma scope_of_set:
  assumes "distinct (map bundleKey candidates)"
  shows "set (scope_of candidates) = set candidates"
proof -
  let ?kvs = "map (\<lambda>b. (bundleKey b, b)) candidates"
  have d: "distinct (map fst (rev ?kvs))"
    using assms by (simp add: rev_map [symmetric] comp_def)
  have m: "map_of (rev ?kvs) k = Some x \<longleftrightarrow> x \<in> set candidates \<and> bundleKey x = k" for k x
    using map_of_eq_Some_iff [OF d, of k x] by auto
  show ?thesis
    unfolding scope_of_def by (auto simp: set_map_filter_Some m)
qed

lemma clusterGroupLabelMap_Some:
  assumes "clusterGroupLabelMap ext c cluster name = Some l"
  shows "\<exists>cg \<in> set (listClusterGroups c (clusterNamespace cluster)).
           cgName cg = name \<and> cgLabels cg = l \<and> clusterGroupSelects ext cluster cg"
proof -
  let ?groups = "filter (clusterGroupSelects ext cluster)
                   (listClusterGroups c (clusterNamespace cluster))"
  let ?entries = "map (\<lambda>cg. (cgName cg, cgLabels cg)) ?groups"
  from assms have "map_of (rev ?entries) name = Some l"
    by (simp add: clusterGroupLabelMap_def)
  then have "(name, l) \<in> set (rev ?entries)"
    by (rule map_of_SomeD)
  then obtain cg where "cg \<in> set ?groups" "cgName cg = name" "cgLabels cg = l"
    by auto
  then show ?thesis by auto
qed

lemma clusterGroupLabelMap_dom:
  "clusterGroupLabelMap ext c cluster name \<noteq> None \<longleftrightarrow>
     (\<exists>cg \<in> set (listClusterGroups c (clusterNamespace cluster)).
        cgName cg = name \<and> clusterGroupSelects ext cluster cg)"
proof -
  let ?groups = "filter (clusterGroupSelects ext cluster)
                   (listClusterGroups c (clusterNamespace cluster))"
  let ?entries = "map (\<lambda>cg. (cgName cg, cgLabels cg)) ?groups"
  have "clusterGroupLabelMap ext c cluster name \<noteq> None \<longleftrightarrow>
        name \<in> fst ` set (rev ?entries)"
    unfolding clusterGroupLabelMap_def by (simp only: map_of_eq_None_iff not_not)
  also have "\<dots> \<longleftrightarrow> (\<exists>cg \<in> set ?groups. cgName cg = name)"
    by force
  also have "\<dots> \<longleftrightarrow> (\<exists>cg \<in> set (listClusterGroups c (clusterNamespace cluster)).
                          cgName cg = name \<and> clusterGroupSelects ext cluster cg)"
    by auto
  finally show ?thesis .
qed

text \<open>
  C1. The cluster-group label map of a cluster has an entry for a name exactly when the
  API server lists, in the cluster's namespace, a cluster group of that name whose
  selector matches the cluster's labels, and the entry holds the labels of such a group.

  When \<open>BundlesForCluster\<close> returns without error, the bundles in scope are those
  returned by \<open>getBundlesInScopeForCluster\<close>, each once, and the two lists split those
  for which a matcher can be built: \<open>bundlesToRefresh\<close> is the list of the bundles in
  scope whose matcher matches the cluster (name, cluster-group label map, labels) and
  \<open>bundlesToCleanup\<close> the list of those whose matcher does not, in the order of the
  scope. The lists are disjoint, and a bundle in scope with a matcher is in exactly one
  of them.

  When no call to the API server fails, the query returns without error, the scope is
  the scope of the cluster as stated on its own (the bundles of the cluster's namespace
  without the agent bundles of other clusters, and the bundles brought in by the
  mappings that apply, one per key, in ascending order of the keys), and the two lists
  are the bundles of that scope whose matcher matches, and does not match, the cluster.
  When no two candidates share a key, the scope holds exactly the candidates.
\<close>

theorem BundlesForCluster_partitions_scope:
  "(clusterGroupLabelMap ext c cluster name = Some l \<longrightarrow>
      (\<exists>cg \<in> set (listClusterGroups c (clusterNamespace cluster)).
         cgName cg = name \<and> cgLabels cg = l \<and> clusterGroupSelects ext cluster cg)) \<and>
   (clusterGroupLabelMap ext c cluster name \<noteq> None \<longleftrightarrow>
      (\<exists>cg \<in> set (listClusterGroups c (clusterNamespace cluster)).
         cgName cg = name \<and> clusterGroupSelects ext cluster cg)) \<and>
   (BundlesForCluster ext c lg cluster st = (Returns (refresh, cleanup, None), st') \<longrightarrow>
      (\<exists>inScope st1.
         getBundlesInScopeForCluster ext c lg cluster st = (Returns (inScope, None), st1) \<and>
         distinct inScope \<and>
         refresh = filter (\<lambda>b. bundleMatches ext c cluster b = Some True) inScope \<and>
         cleanup = filter (\<lambda>b. bundleMatches ext c cluster b = Some False) inScope \<and>
         set refresh \<inter> set cleanup = {} \<and>
         (\<forall>b \<in> set inScope. bundleMatches ext c cluster b \<noteq> None \<longrightarrow>
            (b \<in> set refresh \<longleftrightarrow> bundleMatches ext c cluster b = Some True) \<and>
            (b \<in> set cleanup \<longleftrightarrow> bundleMatches ext c cluster b = Some False) \<and>
            (b \<in> set refresh \<longleftrightarrow> b \<notin> set cleanup)))) \<and>
   (fault_free st \<longrightarrow>
      fst (getBundlesInScopeForCluster ext c lg cluster st) =
        Returns (scope_of (scope_candidates ext c cluster), None) \<and>
      fst (BundlesForCluster ext c lg cluster st) =
        Returns (filter (\<lambda>b. bundleMatches ext c cluster b = Some True)
                   (scope_of (scope_candidates ext c cluster)),
                 filter (\<lambda>b. bundleMatches ext c cluster b = Some False)
                   (scope_of (scope_candidates ext c cluster)),
                 None) \<and>
      (distinct (map bundleKey (scope_candidates ext c cluster)) \<longrightarrow>
         set (scope_of (scope_candidates ext c cluster)) =
           set (scope_candidates ext c cluster)))"
proof (intro conjI impI)
  assume "clusterGroupLabelMap ext c cluster name = Some l"
  then show "\<exists>cg \<in> set (listClusterGroups c (clusterNamespace cluster)).
               cgName cg = name \<and> cgLabels cg = l \<and> clusterGroupSelects ext cluster cg"
    by (rule clusterGroupLabelMap_Some)
next
  show "clusterGroupLabelMap ext c cluster name \<noteq> None \<longleftrightarrow>
      (\<exists>cg \<in> set (listClusterGroups c (clusterNamespace cluster)).
         cgName cg = name \<and> clusterGroupSelects ext cluster cg)"
    by (rule clusterGroupLabelMap_dom)
next
  assume run: "BundlesForCluster ext c lg cluster st = (Returns (refresh, cleanup, None), st')"
  obtain r st1 where g: "getBundlesInScopeForCluster ext c lg cluster st = (r, st1)"
    by (metis surj_pair)
  from run g obtain inScope where r: "r = Returns (inScope, None)"
    by (cases r) (auto simp: BundlesForCluster_def split: option.splits prod.splits)
  from run g r
  have l: "bundlesLoop ext c lg cluster inScope ([], []) st1 = ((refresh, cleanup, None), st')"
    by (auto simp: BundlesForCluster_def split: prod.splits)
  from bundlesLoop_partition [OF l]
  have rf: "refresh = filter (\<lambda>b. bundleMatches ext c cluster b = Some True) inScope"
   and cl: "cleanup = filter (\<lambda>b. bundleMatches ext c cluster b = Some False) inScope"
    by simp_all
  have d: "distinct inScope"
    using g r getBundlesInScopeForCluster_distinct by blast
  have disj: "set refresh \<inter> set cleanup = {}"
    unfolding rf cl by auto
  have each: "\<forall>b \<in> set inScope. bundleMatches ext c cluster b \<noteq> None \<longrightarrow>
              (b \<in> set refresh \<longleftrightarrow> bundleMatches ext c cluster b = Some True) \<and>
              (b \<in> set cleanup \<longleftrightarrow> bundleMatches ext c cluster b = Some False) \<and>
              (b \<in> set refresh \<longleftrightarrow> b \<notin> set cleanup)"
    unfolding rf cl by auto
  from g r d rf cl disj each
  show "\<exists>inScope st1.
         getBundlesInScopeForCluster ext c lg cluster st = (Returns (inScope, None), st1) \<and>
         distinct inScope \<and>
         refresh = filter (\<lambda>b. bundleMatches ext c cluster b = Some True) inScope \<and>
         cleanup = filter (\<lambda>b. bundleMatches ext c cluster b = Some False) inScope \<and>
         set refresh \<inter> set cleanup = {} \<and>
         (\<forall>b \<in> set inScope. bundleMatches ext c cluster b \<noteq> None \<longrightarrow>
            (b \<in> set refresh \<longleftrightarrow> bundleMatches ext c cluster b = Some True) \<and>
            (b \<in> set cleanup \<longleftrightarrow> bundleMatches ext c cluster b = Some False) \<and>
            (b \<in> set refresh \<longleftrightarrow> b \<notin> set cleanup))"
    by blast
next
  assume ff: "fault_free st"
  obtain st1 where "getBundlesInScopeForCluster ext c lg cluster st =
      (Returns (scope_of (scope_candidates ext c cluster), None), st1)"
    using ff by (rule getBundlesInScopeForCluster_fault_free)
  then show "fst (getBundlesInScopeForCluster ext c lg cluster st) =
          Returns (scope_of (scope_candidates ext c cluster), None)"
    by simp
next
  assume ff: "fault_free st"
  from BundlesForCluster_fault_free [OF ff]
  show "fst (BundlesForCluster ext c lg cluster st) =
        Returns (filter (\<lambda>b. bundleMatches ext c cluster b = Some True)
                   (scope_of (scope_candidates ext c cluster)),
                 filter (\<lambda>b. bundleMatches ext c cluster b = Some False)
                   (scope_of (scope_candidates ext c cluster)),
                 None)" .
next
  assume "distinct (map bundleKey (scope_candidates ext c cluster))"
  then show "set (scope_of (scope_candidates ext c cluster)) =
             set (scope_candidates ext c cluster)"
    by (rule scope_of_set)
qed


lemma wkeys:
  "sorted_list_of_set {''fleet-default/db'', ''fleet-default/api'', ''fleet-default/web''} =
     [''fleet-default/api'', ''fleet-default/db'', ''fleet-default/web'']"
  by code_simp

lemmas wdefs = wserver_def wcluster_def wquery_def wbundle_def wmapping_nil_def
  wmapping_bad_def wext_def wlogger_def

lemmas query_defs = getBundlesInScopeForCluster_def api_call_def Let_def
  newBundleSet_def insertSingle_def label_def bundleKey_def
  newBundleMapping_def MatchesNamespace_def Bundles_def
  bundleSet_insert_def bundleSet_bundles_def Error_def WithName_def List.map_filter_simps
  BundlesForCluster_def clusterGroupsForCluster_def clusterGroupsToLabelMap_def

lemma wrun:
  "fst (BundlesForCluster wext wserver wlogger wcluster (wquery [])) =
     Returns ([wbundle ''web'' ''prod''], [wbundle ''api'' ''dev''], None)"
  by (simp add: query_defs wdefs wkeys)

lemma wrun_trace:
  "trace (snd (BundlesForCluster wext wserver wlogger wcluster (wquery []))) =
     [(ListBundles, None), (ListBundleNamespaceMappings, None),
      (ListClusterGroups, None), (ListClusterGroups, None)]"
  by (simp add: query_defs wdefs wkeys)

lemma wrun_fail:
  "fst (BundlesForCluster wext wserver wlogger wcluster
          (wquery [None, None, Some (ErrOther ''timeout'')])) =
     Returns ([], [], Some (ErrOther ''timeout''))"
  by (simp add: query_defs wdefs wkeys)

lemma wrun_fail_trace:
  "trace (snd (BundlesForCluster wext wserver wlogger wcluster
          (wquery [None, None, Some (ErrOther ''timeout'')]))) =
     [(ListBundles, None), (ListBundleNamespaceMappings, None),
      (ListClusterGroups, Some (ErrOther ''timeout''))]"
  by (simp add: query_defs wdefs wkeys)

lemmas wdefs2 = wdefs wext2_def wagent_other_def wshared_def wprivate_def wmapping_ok_def
  wgroup_blue_def wgroup_red_def wserver2_def

lemma wrun2:
  "fst (BundlesForCluster wext2 wserver2 wlogger wcluster (wquery [])) =
     Returns ([wbundle ''grp'' ''blue'', wbundle ''web'' ''prod'', wshared],
              [wbundle ''api'' ''dev'', wbundle ''old'' ''red''], None)"
  by (simp add: query_defs wdefs2)

lemma wcandidates2:
  "scope_candidates wext2 wserver2 wcluster =
     [wbundle ''web'' ''prod'', wbundle ''api'' ''dev'', wbundle ''grp'' ''blue'',
      wbundle ''old'' ''red'', wshared]"
  by (simp add: scope_candidates_def mapping_bundles_def foreign_agent_bundle_def label_def
                wdefs2)

lemma wgroups2:
  "clusterGroupLabelMap wext2 wserver2 wcluster ''blue'' = Some [''tier'' \<mapsto> ''gold'']"
  "clusterGroupLabelMap wext2 wserver2 wcluster ''red'' = None"
  by (simp_all add: clusterGroupLabelMap_def clusterGroupSelects_def wdefs2)

theorem BundlesForCluster_partitions_scope_witness:
  "fault_free (wquery []) \<and>
   clusterGroupLabelMap wext2 wserver2 wcluster ''blue'' = Some [''tier'' \<mapsto> ''gold''] \<and>
   clusterGroupLabelMap wext2 wserver2 wcluster ''red'' = None \<and>
   (\<exists>cg. cg \<in> set (listClusterGroups wserver2 (clusterNamespace wcluster)) \<and>
      cgName cg = ''blue'' \<and> cgLabels cg = [''tier'' \<mapsto> ''gold''] \<and>
      clusterGroupSelects wext2 wcluster cg) \<and>
   scope_candidates wext2 wserver2 wcluster =
     [wbundle ''web'' ''prod'', wbundle ''api'' ''dev'', wbundle ''grp'' ''blue'',
      wbundle ''old'' ''red'', wshared] \<and>
   distinct (map bundleKey (scope_candidates wext2 wserver2 wcluster)) \<and>
   set (scope_of (scope_candidates wext2 wserver2 wcluster)) =
     set (scope_candidates wext2 wserver2 wcluster) \<and>
   fst (getBundlesInScopeForCluster wext2 wserver2 wlogger wcluster (wquery [])) =
     Returns (scope_of (scope_candidates wext2 wserver2 wcluster), None) \<and>
   fst (BundlesForCluster wext2 wserver2 wlogger wcluster (wquery [])) =
     Returns ([wbundle ''grp'' ''blue'', wbundle ''web'' ''prod'', wshared],
              [wbundle ''api'' ''dev'', wbundle ''old'' ''red''], None) \<and>
   filter (\<lambda>b. bundleMatches wext2 wserver2 wcluster b = Some True)
     (scope_of (scope_candidates wext2 wserver2 wcluster)) =
     [wbundle ''grp'' ''blue'', wbundle ''web'' ''prod'', wshared] \<and>
   filter (\<lambda>b. bundleMatches wext2 wserver2 wcluster b = Some False)
     (scope_of (scope_candidates wext2 wserver2 wcluster)) =
     [wbundle ''api'' ''dev'', wbundle ''old'' ''red''] \<and>
   (\<exists>inScope st1.
      getBundlesInScopeForCluster wext2 wserver2 wlogger wcluster (wquery []) =
        (Returns (inScope, None), st1) \<and>
      distinct inScope \<and>
      [wbundle ''grp'' ''blue'', wbundle ''web'' ''prod'', wshared] =
        filter (\<lambda>b. bundleMatches wext2 wserver2 wcluster b = Some True) inScope \<and>
      [wbundle ''api'' ''dev'', wbundle ''old'' ''red''] =
        filter (\<lambda>b. bundleMatches wext2 wserver2 wcluster b = Some False) inScope)"
proof -
  let ?refresh = "[wbundle ''grp'' ''blue'', wbundle ''web'' ''prod'', wshared]"
  let ?cleanup = "[wbundle ''api'' ''dev'', wbundle ''old'' ''red'']"
  let ?run = "BundlesForCluster wext2 wserver2 wlogger wcluster (wquery [])"
  have run: "?run = (Returns (?refresh, ?cleanup, None), snd ?run)"
    using wrun2 by (simp add: prod_eq_iff)
  have ff: "fault_free (wquery [])"
    by (simp add: fault_free_def wquery_def)
  have d: "distinct (map bundleKey (scope_candidates wext2 wserver2 wcluster))"
    unfolding wcandidates2 by (simp add: bundleKey_def wdefs2)
  note T = BundlesForCluster_partitions_scope
    [where ext = wext2 and c = wserver2 and lg = wlogger and cluster = wcluster
       and st = "wquery []" and refresh = ?refresh and cleanup = ?cleanup
       and st' = "snd ?run" and name = "''blue''" and l = "[''tier'' \<mapsto> ''gold'']"]
  from T wgroups2(1)
  have g: "\<exists>cg. cg \<in> set (listClusterGroups wserver2 (clusterNamespace wcluster)) \<and>
      cgName cg = ''blue'' \<and> cgLabels cg = [''tier'' \<mapsto> ''gold''] \<and>
      clusterGroupSelects wext2 wcluster cg"
    by blast
  from T run
  have p: "\<exists>inScope st1.
      getBundlesInScopeForCluster wext2 wserver2 wlogger wcluster (wquery []) =
        (Returns (inScope, None), st1) \<and>
      distinct inScope \<and>
      ?refresh = filter (\<lambda>b. bundleMatches wext2 wserver2 wcluster b = Some True) inScope \<and>
      ?cleanup = filter (\<lambda>b. bundleMatches wext2 wserver2 wcluster b = Some False) inScope"
    by blast
  from T ff
  have s: "fst (getBundlesInScopeForCluster wext2 wserver2 wlogger wcluster (wquery [])) =
             Returns (scope_of (scope_candidates wext2 wserver2 wcluster), None)"
    and b: "fst ?run =
        Returns (filter (\<lambda>b. bundleMatches wext2 wserver2 wcluster b = Some True)
                   (scope_of (scope_candidates wext2 wserver2 wcluster)),
                 filter (\<lambda>b. bundleMatches wext2 wserver2 wcluster b = Some False)
                   (scope_of (scope_candidates wext2 wserver2 wcluster)),
                 None)"
    by blast+
  from T ff d
  have e: "set (scope_of (scope_candidates wext2 wserver2 wcluster)) =
           set (scope_candidates wext2 wserver2 wcluster)"
    by blast
  from b wrun2
  have f: "filter (\<lambda>b. bundleMatches wext2 wserver2 wcluster b = Some True)
             (scope_of (scope_candidates wext2 wserver2 wcluster)) = ?refresh"
          "filter (\<lambda>b. bundleMatches wext2 wserver2 wcluster b = Some False)
             (scope_of (scope_candidates wext2 wserver2 wcluster)) = ?cleanup"
    by simp_all
  show ?thesis
    using ff wgroups2 g wcandidates2 d e s wrun2 f p by (intro conjI)
qed

lemma query_step_refl: "query_step st st False"
  by (simp add: query_step_def list_failed_def)

lemma query_step_log: "Sinks.more st' = Sinks.more st \<Longrightarrow> query_step st st' False"
  using query_frame(2) [of st' st] by (simp add: query_step_def list_failed_def)

lemma list_failed_append: "list_failed (xs @ ys) \<longleftrightarrow> list_failed xs \<or> list_failed ys"
  by (auto simp: list_failed_def)

lemma query_step_trans:
  assumes "query_step st st1 False" and "query_step st1 st2 failed"
  shows "query_step st st2 failed"
proof -
  from assms(1) obtain n1 where n1: "trace st1 = trace st @ n1" "\<not> list_failed n1"
    by (auto simp: query_step_def)
  from assms(2) obtain n2 where n2: "trace st2 = trace st1 @ n2" "failed \<longleftrightarrow> list_failed n2"
    by (auto simp: query_step_def)
  have "trace st2 = trace st @ (n1 @ n2)" using n1 n2 by simp
  moreover have "failed \<longleftrightarrow> list_failed (n1 @ n2)"
    using n1 n2 by (simp add: list_failed_append)
  ultimately show ?thesis unfolding query_step_def by blast
qed

lemma trace_api_call:
  "api_call operation answer st = (r, st') \<Longrightarrow>
   trace st' = trace st @ [(operation, case r of Inl err \<Rightarrow> Some err | Inr x \<Rightarrow> None)]"
  by (auto simp: api_call_def Let_def)

lemma query_step_list:
  "api_call operation answer st = (r, st') \<Longrightarrow> is_List operation \<Longrightarrow>
   query_step st st' (isl r)"
  by (drule trace_api_call) (cases r; simp add: query_step_def list_failed_def)

lemma query_step_get:
  "api_call GetNamespace answer st = (r, st') \<Longrightarrow> query_step st st' False"
  by (drule trace_api_call) (simp add: query_step_def list_failed_def is_List_def)

lemma Bundles_step:
  assumes "Bundles bm c st = ((bs, err), st')"
  shows "query_step st st' (err \<noteq> None)"
proof (cases "noMatch bm")
  case True
  with assms show ?thesis by (simp add: Bundles_def query_step_refl)
next
  case False
  obtain r st1 where a: "api_call ListBundles
      (Inr (listBundles c (bmNamespace bm) (bundleSelector bm))) st = (r, st1)"
    by (metis surj_pair)
  have s: "query_step st st1 (isl r)"
    using a by (rule query_step_list) (simp add: is_List_def)
  show ?thesis using assms False a s by (cases r) (auto simp: Bundles_def)
qed

lemma MatchesNamespace_step:
  assumes "MatchesNamespace bm c ns st = (r, st')"
  shows "query_step st st' False"
proof (cases "noMatch bm")
  case True
  with assms show ?thesis by (simp add: MatchesNamespace_def query_step_refl)
next
  case False
  obtain r1 st1 where a: "api_call GetNamespace
      (case getNamespace c ns of None \<Rightarrow> Inl ErrNotFound | Some obj \<Rightarrow> Inr obj) st = (r1, st1)"
    by (metis surj_pair)
  have s: "query_step st st1 False" using a by (rule query_step_get)
  show ?thesis using assms False a s
    by (cases r1) (auto simp: MatchesNamespace_def split: option.splits)
qed

lemma newBundleMapping_selectors:
  "newBundleMapping ext mapping = Inr bm \<Longrightarrow> noMatch bm \<or> namespaceSelector bm \<noteq> None"
  by (cases "BundleSelector mapping"; cases "NamespaceSelector mapping")
     (auto simp: newBundleMapping_def split: sum.splits)

lemma MatchesNamespace_returns:
  "noMatch bm \<or> namespaceSelector bm \<noteq> None \<Longrightarrow>
   \<exists>b. fst (MatchesNamespace bm c ns st) = Returns b"
  by (auto simp: MatchesNamespace_def split: prod.splits sum.splits option.splits)

lemma mappingsLoop_step:
  "mappingsLoop ext c lg cluster mappings b st = (r, st') \<Longrightarrow>
   \<exists>err b'. r = Returns (err, b') \<and> query_step st st' (err \<noteq> None)"
proof (induction mappings arbitrary: b st)
  case Nil
  then show ?case by (auto simp: query_step_refl)
next
  case (Cons m mappings)
  show ?case
  proof (cases "newBundleMapping ext m")
    case (Inl e)
    let ?st = "Error lg e ''invalid BundleNamespaceMapping, skipping''
               [(''namespace'', StrV (mappingNamespace m)), (''name'', StrV (mappingName m))] st"
    from Cons.prems Inl
    have "mappingsLoop ext c lg cluster mappings b ?st = (r, st')" by simp
    from Cons.IH [OF this] obtain err b' where
      "r = Returns (err, b')" "query_step ?st st' (err \<noteq> None)" by blast
    moreover have "query_step st ?st False" by (rule query_step_log) simp
    ultimately show ?thesis using query_step_trans by blast
  next
    case (Inr bm)
    obtain r1 st1 where mn: "MatchesNamespace bm c (clusterNamespace cluster) st = (r1, st1)"
      by (metis surj_pair)
    have s1: "query_step st st1 False" using mn by (rule MatchesNamespace_step)
    obtain matches where r1: "r1 = Returns matches"
      using MatchesNamespace_returns [OF newBundleMapping_selectors [OF Inr],
              of c "clusterNamespace cluster" st] mn by auto
    show ?thesis
    proof (cases matches)
      case False
      with Cons.prems Inr mn r1
      have "mappingsLoop ext c lg cluster mappings b st1 = (r, st')" by simp
      from Cons.IH [OF this] s1 show ?thesis using query_step_trans by blast
    next
      case True
      obtain bs e st2 where bu: "Bundles bm c st1 = ((bs, e), st2)"
        by (metis surj_pair)
      have s2: "query_step st1 st2 (e \<noteq> None)" using bu by (rule Bundles_step)
      show ?thesis
      proof (cases e)
        case None
        with Cons.prems Inr mn r1 True bu
        have "mappingsLoop ext c lg cluster mappings
                (foldl (\<lambda>s bundle. insertSingle bundle s) b bs) st2 = (r, st')"
          by (simp add: bundleSet_insert_def)
        from Cons.IH [OF this] obtain err b' where
          "r = Returns (err, b')" "query_step st2 st' (err \<noteq> None)" by blast
        moreover have "query_step st st2 False"
          using s1 s2 None query_step_trans by fastforce
        ultimately show ?thesis using query_step_trans by blast
      next
        case (Some e')
        with Cons.prems Inr mn r1 True bu
        have "r = Returns (Some e', b)" "st' = st2"
          by (simp_all add: bundleSet_insert_def)
        moreover have "query_step st st2 True"
          using s1 s2 Some query_step_trans by fastforce
        ultimately show ?thesis by auto
      qed
    qed
  qed
qed


lemma getBundlesInScopeForCluster_step:
  assumes "getBundlesInScopeForCluster ext c lg cluster st = (r, st')"
  shows "\<exists>bs err. r = Returns (bs, err) \<and> query_step st st' (err \<noteq> None) \<and>
                  (err \<noteq> None \<longrightarrow> bs = [])"
proof -
  obtain r1 st1 where a1: "api_call ListBundles
      (Inr (listBundles c (clusterNamespace cluster) None)) st = (r1, st1)"
    by (metis surj_pair)
  have s1: "query_step st st1 (isl r1)"
    using a1 by (rule query_step_list) (simp add: is_List_def)
  show ?thesis
  proof (cases r1)
    case (Inl e)
    with assms a1 s1 show ?thesis by (auto simp: getBundlesInScopeForCluster_def)
  next
    case (Inr items)
    let ?bs = "namespaceBundlesLoop cluster items newBundleSet"
    obtain r2 st2 where a2: "api_call ListBundleNamespaceMappings
        (Inr (listBundleNamespaceMappings c)) st1 = (r2, st2)"
      by (metis surj_pair)
    have s2: "query_step st1 st2 (isl r2)"
      using a2 by (rule query_step_list) (simp add: is_List_def)
    show ?thesis
    proof (cases r2)
      case Inl2: (Inl e)
      have "query_step st st2 True"
        using s1 s2 Inr Inl2 query_step_trans by fastforce
      with assms a1 Inr a2 Inl2 show ?thesis
        by (auto simp: getBundlesInScopeForCluster_def Let_def)
    next
      case Inr2: (Inr mappings)
      have s12: "query_step st st2 False"
        using s1 s2 Inr Inr2 query_step_trans by fastforce
      obtain r3 st3 where l: "mappingsLoop ext c (WithName lg ''bundle-query'') cluster
          mappings ?bs st2 = (r3, st3)"
        by (metis surj_pair)
      from mappingsLoop_step [OF l] obtain err b' where
        r3: "r3 = Returns (err, b')" and s3: "query_step st2 st3 (err \<noteq> None)" by blast
      have s: "query_step st st3 (err \<noteq> None)"
        using s12 s3 by (rule query_step_trans)
      from assms a1 Inr a2 Inr2 l r3 s show ?thesis
        by (cases err) (auto simp: getBundlesInScopeForCluster_def Let_def)
    qed
  qed
qed

lemma clusterGroupsForCluster_step:
  assumes "clusterGroupsForCluster ext c lg cluster st = ((cgs, err), st')"
  shows "query_step st st' (err \<noteq> None)"
proof -
  obtain r1 st1 where a1: "api_call ListClusterGroups
      (Inr (listClusterGroups c (clusterNamespace cluster))) st = (r1, st1)"
    by (metis surj_pair)
  have s1: "query_step st st1 (isl r1)"
    using a1 by (rule query_step_list) (simp add: is_List_def)
  show ?thesis
  proof (cases r1)
    case (Inl e)
    with assms a1 s1 show ?thesis by (auto simp: clusterGroupsForCluster_def)
  next
    case (Inr items)
    let ?l = "clusterGroupsLoop ext (WithName lg ''bundle-query'') cluster items [] st1"
    have "query_step st1 (snd ?l) False"
      by (rule query_step_log) (rule clusterGroupsLoop_more)
    then have "query_step st (snd ?l) False"
      using s1 Inr query_step_trans by fastforce
    with assms a1 Inr show ?thesis
      by (auto simp: clusterGroupsForCluster_def Let_def split: prod.splits)
  qed
qed

lemma bundlesLoop_step:
  "bundlesLoop ext c lg cluster bundles (refresh, cleanup) st = ((refresh', cleanup', err), st')
   \<Longrightarrow> query_step st st' (err \<noteq> None) \<and> (err \<noteq> None \<longrightarrow> refresh' = [] \<and> cleanup' = [])"
proof (induction bundles arbitrary: refresh cleanup st)
  case Nil
  then show ?case by (auto simp: query_step_refl)
next
  case (Cons b bundles)
  show ?case
  proof (cases "matcher_New ext b")
    case (Inl e)
    let ?st = "Error (WithName lg ''bundle-query'') e ''ignore bad app bundle''
               [(''namespace'', StrV (bundleNamespace b)), (''name'', StrV (bundleName b))] st"
    from Cons.prems Inl
    have "bundlesLoop ext c lg cluster bundles (refresh, cleanup) ?st =
            ((refresh', cleanup', err), st')" by simp
    from Cons.IH [OF this]
    have "query_step ?st st' (err \<noteq> None)" and e: "err \<noteq> None \<longrightarrow> refresh' = [] \<and> cleanup' = []"
      by simp_all
    moreover have "query_step st ?st False" by (rule query_step_log) simp
    ultimately show ?thesis using query_step_trans by blast
  next
    case (Inr bm)
    obtain cgs e st1 where cg: "clusterGroupsForCluster ext c lg cluster st = ((cgs, e), st1)"
      by (metis surj_pair)
    have s1: "query_step st st1 (e \<noteq> None)" using cg by (rule clusterGroupsForCluster_step)
    show ?thesis
    proof (cases e)
      case (Some e')
      with Cons.prems Inr cg s1 show ?thesis by auto
    next
      case None
      then have s1': "query_step st st1 False" using s1 by simp
      obtain acc where
        "bundlesLoop ext c lg cluster bundles acc st1 = ((refresh', cleanup', err), st')"
        using Cons.prems Inr cg None by (auto split: option.splits)
      then have "query_step st1 st' (err \<noteq> None) \<and>
                 (err \<noteq> None \<longrightarrow> refresh' = [] \<and> cleanup' = [])"
        using Cons.IH [of "fst acc" "snd acc" st1] by simp
      then show ?thesis using s1' query_step_trans by blast
    qed
  qed
qed

lemma new_calls_step:
  "query_step st st' failed \<Longrightarrow> failed \<longleftrightarrow> list_failed (new_calls st st')"
  by (auto simp: query_step_def new_calls_def)

lemma BundlesForCluster_step:
  assumes "BundlesForCluster ext c lg cluster st = (r, st')"
  shows "\<exists>refresh cleanup err. r = Returns (refresh, cleanup, err) \<and>
           query_step st st' (err \<noteq> None) \<and> (err \<noteq> None \<longrightarrow> refresh = [] \<and> cleanup = [])"
proof -
  obtain r1 st1 where g: "getBundlesInScopeForCluster ext c lg cluster st = (r1, st1)"
    by (metis surj_pair)
  from getBundlesInScopeForCluster_step [OF g] obtain bs e where
    r1: "r1 = Returns (bs, e)" and s1: "query_step st st1 (e \<noteq> None)" by blast
  show ?thesis
  proof (cases e)
    case (Some e')
    with assms g r1 s1 show ?thesis by (auto simp: BundlesForCluster_def)
  next
    case None
    obtain refresh cleanup err st2 where
      l: "bundlesLoop ext c lg cluster bs ([], []) st1 = ((refresh, cleanup, err), st2)"
      by (metis surj_pair)
    from bundlesLoop_step [OF l]
    have "query_step st1 st2 (err \<noteq> None)" and
         e: "err \<noteq> None \<longrightarrow> refresh = [] \<and> cleanup = []" by simp_all
    then have "query_step st st2 (err \<noteq> None)"
      using s1 None query_step_trans by fastforce
    with assms g r1 None l e show ?thesis by (auto simp: BundlesForCluster_def)
  qed
qed

text \<open>
  C6. \<open>BundlesForCluster\<close> always returns (it never panics), and it returns an error
  exactly when a \<open>List\<close> call that it made failed; both lists are then empty. So a
  bundle without matcher or a mapping whose selectors do not parse never makes the
  query return an error: the loop logs it and goes on with the remaining mappings or
  bundles, on the same bundle set or the same two lists.
\<close>

theorem list_failure_aborts_query:
  "(\<exists>refresh cleanup err.
      fst (BundlesForCluster ext c lg cluster st) = Returns (refresh, cleanup, err) \<and>
      (err \<noteq> None \<longleftrightarrow>
         list_failed (new_calls st (snd (BundlesForCluster ext c lg cluster st)))) \<and>
      (err \<noteq> None \<longrightarrow> refresh = [] \<and> cleanup = [])) \<and>
   (newBundleMapping ext mapping = Inl e1 \<longrightarrow>
      mappingsLoop ext c lg cluster (mapping # mappings) bundleSet st =
      mappingsLoop ext c lg cluster mappings bundleSet
        (Error lg e1 ''invalid BundleNamespaceMapping, skipping''
           [(''namespace'', StrV (mappingNamespace mapping)),
            (''name'', StrV (mappingName mapping))] st)) \<and>
   (matcher_New ext item = Inl e2 \<longrightarrow>
      bundlesLoop ext c lg cluster (item # bundles) (bundlesToRefresh, bundlesToCleanup) st =
      bundlesLoop ext c lg cluster bundles (bundlesToRefresh, bundlesToCleanup)
        (Error (WithName lg ''bundle-query'') e2 ''ignore bad app bundle''
           [(''namespace'', StrV (bundleNamespace item)),
            (''name'', StrV (bundleName item))] st))"
proof -
  obtain r st' where b: "BundlesForCluster ext c lg cluster st = (r, st')"
    by (metis surj_pair)
  from BundlesForCluster_step [OF b] obtain refresh cleanup err where
    r: "r = Returns (refresh, cleanup, err)" and s: "query_step st st' (err \<noteq> None)" and
    e: "err \<noteq> None \<longrightarrow> refresh = [] \<and> cleanup = []" by blast
  have "err \<noteq> None \<longleftrightarrow> list_failed (new_calls st st')"
    using s by (rule new_calls_step)
  with b r e have 1: "\<exists>refresh cleanup err.
      fst (BundlesForCluster ext c lg cluster st) = Returns (refresh, cleanup, err) \<and>
      (err \<noteq> None \<longleftrightarrow>
         list_failed (new_calls st (snd (BundlesForCluster ext c lg cluster st)))) \<and>
      (err \<noteq> None \<longrightarrow> refresh = [] \<and> cleanup = [])"
    by simp
  then show ?thesis by simp
qed


theorem list_failure_aborts_query_witness:
  "list_failed (new_calls (wquery [None, None, Some (ErrOther ''timeout'')])
      (snd (BundlesForCluster wext wserver wlogger wcluster
              (wquery [None, None, Some (ErrOther ''timeout'')])))) \<and>
   fst (BundlesForCluster wext wserver wlogger wcluster
          (wquery [None, None, Some (ErrOther ''timeout'')])) =
     Returns ([], [], Some (ErrOther ''timeout'')) \<and>
   newBundleMapping wext wmapping_bad = Inl (ErrOther ''invalid selector'') \<and>
   matcher_New wext (wbundle ''db'' ''!!'') = Inl (ErrOther ''invalid targets'') \<and>
   \<not> list_failed (new_calls (wquery [])
        (snd (BundlesForCluster wext wserver wlogger wcluster (wquery [])))) \<and>
   fst (BundlesForCluster wext wserver wlogger wcluster (wquery [])) =
     Returns ([wbundle ''web'' ''prod''], [wbundle ''api'' ''dev''], None) \<and>
   fst (mappingsLoop wext wserver wlogger wcluster [wmapping_bad] newBundleSet (wquery [])) =
     Returns (None, newBundleSet) \<and>
   fst (bundlesLoop wext wserver wlogger wcluster [wbundle ''db'' ''!!''] ([], []) (wquery [])) =
     ([], [], None)"
proof -
  have p: "newBundleMapping wext wmapping_bad = Inl (ErrOther ''invalid selector'')"
          "matcher_New wext (wbundle ''db'' ''!!'') = Inl (ErrOther ''invalid targets'')"
    by (simp_all add: newBundleMapping_def wdefs)
  note a = list_failure_aborts_query
      [where ext = wext and c = wserver and lg = wlogger and cluster = wcluster
         and st = "wquery [None, None, Some (ErrOther ''timeout'')]"
         and mapping = wmapping_bad and ?e1.0 = "ErrOther ''invalid selector''"
         and item = "wbundle ''db'' ''!!''" and ?e2.0 = "ErrOther ''invalid targets''",
       THEN conjunct1]
  note b = list_failure_aborts_query
      [where ext = wext and c = wserver and lg = wlogger and cluster = wcluster
         and st = "wquery []"
         and mapping = wmapping_bad and ?e1.0 = "ErrOther ''invalid selector''"
         and item = "wbundle ''db'' ''!!''" and ?e2.0 = "ErrOther ''invalid targets''"
         and mappings = "[]" and bundleSet = newBundleSet and bundles = "[]"
         and bundlesToRefresh = "[]" and bundlesToCleanup = "[]"]
  from a wrun_fail
  have 1: "list_failed (new_calls (wquery [None, None, Some (ErrOther ''timeout'')])
      (snd (BundlesForCluster wext wserver wlogger wcluster
              (wquery [None, None, Some (ErrOther ''timeout'')]))))"
    by auto
  from b [THEN conjunct1] wrun
  have 2: "\<not> list_failed (new_calls (wquery [])
        (snd (BundlesForCluster wext wserver wlogger wcluster (wquery []))))"
    by auto
  from b [THEN conjunct2, THEN conjunct1] p(1)
  have 3: "fst (mappingsLoop wext wserver wlogger wcluster [wmapping_bad] newBundleSet
                  (wquery [])) = Returns (None, newBundleSet)"
    by simp
  from b [THEN conjunct2, THEN conjunct2] p(2)
  have 4: "fst (bundlesLoop wext wserver wlogger wcluster [wbundle ''db'' ''!!''] ([], [])
                  (wquery [])) = ([], [], None)"
    by simp
  from 1 2 3 4 p wrun wrun_fail show ?thesis by simp
qed

end
